theory Spec2Isabelle
  imports Complex_Main "HOL-Library.Char_ord" "HOL-Library.List_Lexorder"
begin

section \<open>Data model (models/Session.js, models/User.js)\<close>

text \<open>
  A Mongo ObjectId is a 12-byte value, read here as a natural number; a JavaScript Date is
  its number of milliseconds since the epoch.
\<close>

type_synonym objectId = nat
type_synonym date = int

datatype status = Scheduled | Confirmed | Ongoing | Completed | Cancelled | NoShow

datatype sessionType = Online | Offline

record location_doc =
  details :: "string option"
  meetingLink :: "string option"
  address :: "string option"

record notes_doc =
  studentNote :: "string option"
  tutorNote :: "string option"
  adminNote :: "string option"

record reminders_doc =
  sent :: bool
  sentAt :: "date option"

text \<open>
  \<open>frequency\<close> stays a string, as in the schema and in the \<open>switch\<close> of
  \<open>createRecurringSessions\<close>; \<open>None\<close> is a field the document does not have.
\<close>

record recurring_doc =
  isRecurring :: bool
  frequency :: "string option"
  endDate :: "date option"
  parentSession :: "objectId option"

record cancellation_doc =
  cancelledBy :: objectId
  cancelledAt :: date
  reason :: string

text \<open>
  \<open>sessionData\<close> is the object literal the booking route builds from the request;
  a \<open>session\<close> is a stored document: the same fields, the \<open>_id\<close> (here \<open>oid\<close>)
  and the fields the schema defaults. The fields no lifecycle route reads or writes
  (materials, the type and the coordinates of the location, createdAt, updatedAt) are
  left out.
\<close>

record sessionData =
  student :: objectId
  tutor :: objectId
  subject :: string
  description :: "string option"
  scheduledStart :: date
  scheduledEnd :: date
  sessionType :: sessionType
  location :: location_doc
  price :: "real option"

record session = sessionData +
  oid :: objectId
  actualStart :: "date option"
  actualEnd :: "date option"
  status :: status
  sessionNotes :: notes_doc
  reminders :: reminders_doc
  recurring :: recurring_doc
  cancellation :: "cancellation_doc option"

section \<open>Conflict detection (checkSchedulingConflicts)\<close>

text \<open>
  The Mongo query of \<open>checkSchedulingConflicts\<close>, run over the collection as a list:
  \<open>$or: [{student: studentId}, {tutor: tutorId}]\<close>, the status in
  scheduled/confirmed/ongoing, \<open>scheduledStart < end\<close> and \<open>scheduledEnd > start\<close>, and the
  \<open>_id\<close> different from \<open>excludeSessionId\<close> when one is given.
\<close>

definition activeStatus :: "status \<Rightarrow> bool" where
  "activeStatus st = (st = Scheduled \<or> st = Confirmed \<or> st = Ongoing)"

definition conflictQuery ::
  "objectId \<Rightarrow> objectId \<Rightarrow> date \<Rightarrow> date \<Rightarrow> objectId option \<Rightarrow> session \<Rightarrow> bool" where
  "conflictQuery studentId tutorId start end' excludeSessionId s =
     ((student s = studentId \<or> tutor s = tutorId) \<and>
      activeStatus (status s) \<and>
      (scheduledStart s < end' \<and> scheduledEnd s > start) \<and>
      (case excludeSessionId of None \<Rightarrow> True | Some e \<Rightarrow> oid s \<noteq> e))"

definition checkSchedulingConflicts ::
  "session list \<Rightarrow> objectId \<Rightarrow> objectId \<Rightarrow> date \<Rightarrow> date \<Rightarrow> objectId option \<Rightarrow> session list" where
  "checkSchedulingConflicts coll studentId tutorId start end' excludeSessionId =
     filter (conflictQuery studentId tutorId start end' excludeSessionId) coll"

section \<open>Users, the state and the errors of the routes\<close>

record slot =
  day :: string
  startTime :: string
  endTime :: string
  timezone :: string

datatype role = RoleStudent | RoleTutor | RoleBoth

text \<open>
  Of a user, the routes below read the role and the weekly availability; \<open>None\<close> is a
  document without the \<open>availability\<close> field.
\<close>

record user =
  role :: role
  availability :: "slot list option"

text \<open>
  The state: the sessions collection in insertion order, the users collection by id, and
  the next ObjectId a \<open>new Session(...)\<close> draws (ObjectIds are unique; a counter models that).
\<close>

record db =
  sessions :: "session list"
  users :: "objectId \<Rightarrow> user option"
  nextId :: objectId

datatype error =
    ValidationErrors
  | EndNotAfterStart
  | NotInFuture
  | TutorNotFound
  | SchedulingConflict "session list"
  | TutorUnavailable
  | SessionNotFound
  | AccessDenied
  | CannotBeRescheduled
  | CannotBeCancelled
  | CannotBeStarted
  | TooEarlyToStart
  | NotOngoing
  | ServerError

section \<open>Dates (JavaScript Date and moment, in a process whose time zone is UTC)\<close>

text \<open>
  The routes read dates through moment: the weekday and the \<open>HH:mm\<close> of a date, and
  \<open>add(1, "week")\<close>, \<open>add(2, "weeks")\<close>, \<open>add(1, "month")\<close>. moment is a library, not code
  of the repository; it is modelled here on the proleptic Gregorian calendar of ECMAScript
  (\<open>DayFromYear\<close>, \<open>YearFromTime\<close>, \<open>MonthFromTime\<close>, \<open>DateFromTime\<close>), with the local
  time zone taken to be UTC. \<open>add(1, "month")\<close> keeps the time of day, moves to the next
  month and clamps the day of the month to that month's length.
\<close>

definition msPerDay :: int where
  "msPerDay = 24 * 60 * 60 * 1000"

definition isLeapYear :: "int \<Rightarrow> bool" where
  "isLeapYear y = (y mod 4 = 0 \<and> (y mod 100 \<noteq> 0 \<or> y mod 400 = 0))"

definition dayFromYear :: "int \<Rightarrow> int" where
  "dayFromYear y =
     365 * (y - 1970) + (y - 1969) div 4 - (y - 1901) div 100 + (y - 1601) div 400"

definition daysInMonth :: "int \<Rightarrow> int \<Rightarrow> int" where
  "daysInMonth y m =
     (if m = 2 then (if isLeapYear y then 29 else 28)
      else if m = 4 \<or> m = 6 \<or> m = 9 \<or> m = 11 then 30 else 31)"

definition daysBeforeMonth :: "int \<Rightarrow> int \<Rightarrow> int" where
  "daysBeforeMonth y m =
     (if m \<le> 1 then 0 else if m = 2 then 31
      else (if isLeapYear y then 1 else 0) +
        (if m = 3 then 59 else if m = 4 then 90 else if m = 5 then 120
         else if m = 6 then 151 else if m = 7 then 181 else if m = 8 then 212
         else if m = 9 then 243 else if m = 10 then 273 else if m = 11 then 304
         else if m = 12 then 334 else 365))"

lemma div_succ:
  assumes "0 < k"
  shows "((x::int) + 1) div k = x div k + (if (x + 1) mod k = 0 then 1 else 0)"
proof -
  have e: "k * (x div k) + x mod k = x" by simp
  have r: "0 \<le> x mod k" "x mod k < k" using assms by simp_all
  show ?thesis
  proof (cases "x mod k + 1 = k")
    case True
    have "x + 1 = k * (x div k) + (x mod k + 1)" using e by linarith
    also have "\<dots> = k * (x div k + 1) + 0" using True by (simp add: algebra_simps)
    finally have f: "x + 1 = k * (x div k + 1) + 0" .
    have "(x + 1) div k = x div k + 1" using int_div_pos_eq [OF f] assms by simp
    moreover have "(x + 1) mod k = 0" using int_mod_pos_eq [OF f] assms by simp
    ultimately show ?thesis by simp
  next
    case False
    with r have lt: "x mod k + 1 < k" by linarith
    have f: "x + 1 = k * (x div k) + (x mod k + 1)" using e by linarith
    have "(x + 1) div k = x div k" using int_div_pos_eq [OF f] lt r by simp
    moreover have "(x + 1) mod k = x mod k + 1" using int_mod_pos_eq [OF f] lt r by simp
    ultimately show ?thesis using r by simp
  qed
qed

lemma mod_shift: "(k::int) dvd c \<Longrightarrow> (y - c) mod k = 0 \<longleftrightarrow> y mod k = 0"
  by (metis dvd_diff_commute dvd_diff mod_0_imp_dvd dvd_imp_mod_0 add_diff_cancel_left' diff_add_cancel)

lemma dayFromYear_step:
  "dayFromYear (y + 1) = dayFromYear y + (if isLeapYear y then 366 else 365)"
proof -
  define p4 where "p4 = (y mod 4 = 0)"
  define p100 where "p100 = (y mod 100 = 0)"
  define p400 where "p400 = (y mod 400 = 0)"
  define A where "A = (y - 1969) div 4"
  define B where "B = (y - 1901) div 100"
  define C where "C = (y - 1601) div 400"
  define A' where "A' = (y + 1 - 1969) div 4"
  define B' where "B' = (y + 1 - 1901) div 100"
  define C' where "C' = (y + 1 - 1601) div 400"
  have a: "A' = A + (if p4 then 1 else 0)"
    unfolding A'_def A_def p4_def
    using div_succ [of 4 "y - 1969"] mod_shift [of 4 1968 y] by (simp add: algebra_simps)
  have b: "B' = B + (if p100 then 1 else 0)"
    unfolding B'_def B_def p100_def
    using div_succ [of 100 "y - 1901"] mod_shift [of 100 1900 y] by (simp add: algebra_simps)
  have c: "C' = C + (if p400 then 1 else 0)"
    unfolding C'_def C_def p400_def
    using div_succ [of 400 "y - 1601"] mod_shift [of 400 1600 y] by (simp add: algebra_simps)
  have d1: "p100" if "p400"
  proof -
    from that have "400 dvd y" by (simp add: mod_eq_0_iff_dvd p400_def)
    then have "100 dvd y" using dvd_trans [of 100 400 y] by simp
    then show ?thesis by (simp add: mod_eq_0_iff_dvd p100_def)
  qed
  have d2: "p4" if "p100"
  proof -
    from that have "100 dvd y" by (simp add: mod_eq_0_iff_dvd p100_def)
    then have "4 dvd y" using dvd_trans [of 4 100 y] by simp
    then show ?thesis by (simp add: mod_eq_0_iff_dvd p4_def)
  qed
  have L: "dayFromYear (y + 1) = 365 * (y + 1 - 1970) + A' - B' + C'"
    unfolding dayFromYear_def A'_def B'_def C'_def by (rule refl)
  have R: "dayFromYear y = 365 * (y - 1970) + A - B + C"
    unfolding dayFromYear_def A_def B_def C_def by (rule refl)
  have leap: "isLeapYear y = (p4 \<and> (\<not> p100 \<or> p400))"
    unfolding isLeapYear_def p4_def p100_def p400_def by (rule refl)
  show ?thesis
    unfolding L R leap a b c using d1 d2 by (cases p4; cases p100; cases p400) simp_all
qed

function yearUp :: "int \<Rightarrow> int \<Rightarrow> int" where
  "yearUp dayNo y = (if dayFromYear (y + 1) \<le> dayNo then yearUp dayNo (y + 1) else y)"
  by pat_completeness auto
termination
  by (relation "measure (\<lambda>(dayNo, y). nat (dayNo - dayFromYear y))")
    (auto simp: dayFromYear_step split: if_splits)

declare yearUp.simps [simp del]

definition yearFromDay :: "int \<Rightarrow> int" where
  "yearFromDay dayNo =
     yearUp dayNo (1970 + (if 0 \<le> dayNo then dayNo div 366 else dayNo div 365))"

definition monthFromDay :: "int \<Rightarrow> int" where
  "monthFromDay dayNo =
     (let y = yearFromDay dayNo; doy = dayNo - dayFromYear y in
      if doy < daysBeforeMonth y 2 then 1 else if doy < daysBeforeMonth y 3 then 2
      else if doy < daysBeforeMonth y 4 then 3 else if doy < daysBeforeMonth y 5 then 4
      else if doy < daysBeforeMonth y 6 then 5 else if doy < daysBeforeMonth y 7 then 6
      else if doy < daysBeforeMonth y 8 then 7 else if doy < daysBeforeMonth y 9 then 8
      else if doy < daysBeforeMonth y 10 then 9 else if doy < daysBeforeMonth y 11 then 10
      else if doy < daysBeforeMonth y 12 then 11 else 12)"

definition dateFromDay :: "int \<Rightarrow> int" where
  "dateFromDay dayNo =
     (let y = yearFromDay dayNo in
      dayNo - dayFromYear y - daysBeforeMonth y (monthFromDay dayNo) + 1)"

definition utc :: "int \<Rightarrow> int \<Rightarrow> int \<Rightarrow> int \<Rightarrow> int \<Rightarrow> date" where
  "utc y m d h mi =
     (dayFromYear y + daysBeforeMonth y m + (d - 1)) * msPerDay + (h * 60 + mi) * 60000"

definition addMonth :: "date \<Rightarrow> date" where
  "addMonth t =
     (let dayNo = t div msPerDay;
          y = yearFromDay dayNo; m = monthFromDay dayNo; d = dateFromDay dayNo;
          y2 = (if m = 12 then y + 1 else y);
          m2 = (if m = 12 then 1 else m + 1);
          d2 = (if d < 29 then d else min d (daysInMonth y2 m2))
      in (dayFromYear y2 + daysBeforeMonth y2 m2 + (d2 - 1)) * msPerDay + t mod msPerDay)"


definition addDays :: "int \<Rightarrow> date \<Rightarrow> date" where
  "addDays n t = t + n * msPerDay"

definition dayNames :: "string list" where
  "dayNames = [''sunday'', ''monday'', ''tuesday'', ''wednesday'', ''thursday'', ''friday'',
     ''saturday'']"

definition dayOfWeek :: "date \<Rightarrow> string" where
  \<comment> \<open>\<open>moment(t).format("dddd").toLowerCase()\<close>; 1970-01-01 was a Thursday\<close>
  "dayOfWeek t = dayNames ! nat ((t div msPerDay + 4) mod 7)"

definition twoDigits :: "int \<Rightarrow> string" where
  "twoDigits n = [''0123456789'' ! nat (n div 10), ''0123456789'' ! nat (n mod 10)]"

definition formatHHmm :: "date \<Rightarrow> string" where
  \<comment> \<open>\<open>moment(t).format("HH:mm")\<close>\<close>
  "formatHHmm t =
     (let minutes = (t mod msPerDay) div 60000
      in twoDigits (minutes div 60) @ '':'' @ twoDigits (minutes mod 60))"

section \<open>Strings of the request\<close>

text \<open>
  A string is a list of 8-bit characters: the code units below 256. Of these, the white
  space of a JavaScript regular expression is the space, U+0009 to U+000D and the no-break
  space U+00A0.
\<close>

definition isSpace :: "char \<Rightarrow> bool" where
  "isSpace c = (c = CHR '' '' \<or> c = CHR 0x09 \<or> c = CHR 0x0A \<or> c = CHR 0x0B \<or>
     c = CHR 0x0C \<or> c = CHR 0x0D \<or> c = CHR 0xA0)"

definition trim :: "string \<Rightarrow> string" where
  \<comment> \<open>express-validator's \<open>trim()\<close> sanitizer: white space is stripped at both ends\<close>
  "trim s = rev (dropWhile isSpace (rev (dropWhile isSpace s)))"

fun hexString :: "nat \<Rightarrow> nat \<Rightarrow> string" where
  "hexString 0 n = []"
| "hexString (Suc w) n = hexString w (n div 16) @ [''0123456789abcdef'' ! (n mod 16)]"

definition oidToString :: "objectId \<Rightarrow> string" where
  \<comment> \<open>\<open>_id.toString()\<close>: 24 hexadecimal digits\<close>
  "oidToString i = hexString 24 i"

section \<open>The sessions collection\<close>

definition findById :: "db \<Rightarrow> objectId \<Rightarrow> session option" where
  "findById d sessionId = find (\<lambda>s. oid s = sessionId) (sessions d)"

definition insertDoc :: "session \<Rightarrow> db \<Rightarrow> db" where
  \<comment> \<open>\<open>save()\<close> of a new document; its id was drawn from \<open>nextId\<close>\<close>
  "insertDoc s d = d\<lparr>sessions := sessions d @ [s], nextId := Suc (nextId d)\<rparr>"

definition saveDoc :: "session \<Rightarrow> db \<Rightarrow> db" where
  \<comment> \<open>\<open>save()\<close> of a document read from the collection\<close>
  "saveDoc s d = d\<lparr>sessions := map (\<lambda>x. if oid x = oid s then s else x) (sessions d)\<rparr>"

definition newSession :: "objectId \<Rightarrow> sessionData \<Rightarrow> recurring_doc \<Rightarrow> session" where
  \<comment> \<open>\<open>new Session({...sessionData, recurring})\<close>: the schema's defaults fill the rest\<close>
  "newSession i sd rc =
     \<lparr>student = student sd, tutor = tutor sd, subject = subject sd,
      description = description sd, scheduledStart = scheduledStart sd,
      scheduledEnd = scheduledEnd sd, sessionType = sessionType sd, location = location sd,
      price = price sd,
      oid = i, actualStart = None, actualEnd = None, status = Scheduled,
      sessionNotes = \<lparr>studentNote = None, tutorNote = None, adminNote = None\<rparr>,
      reminders = \<lparr>sent = False, sentAt = None\<rparr>,
      recurring = rc, cancellation = None\<rparr>"

definition noRecurring :: recurring_doc where
  "noRecurring = \<lparr>isRecurring = False, frequency = None, endDate = None, parentSession = None\<rparr>"

definition validateSession :: "session \<Rightarrow> bool" where
  \<comment> \<open>the schema's validators that a booking can fail: \<open>price.min\<close>, \<open>description.maxlength\<close>,
     \<open>recurring.frequency.enum\<close>\<close>
  "validateSession s =
     ((case price s of None \<Rightarrow> True | Some p \<Rightarrow> 0 \<le> p) \<and>
      (case description s of None \<Rightarrow> True | Some t \<Rightarrow> length t \<le> 1000) \<and>
      (case frequency (recurring s) of None \<Rightarrow> True
       | Some f \<Rightarrow> f = ''weekly'' \<or> f = ''biweekly'' \<or> f = ''monthly''))"

section \<open>Availability (checkTutorAvailability)\<close>

definition checkTutorAvailability :: "db \<Rightarrow> objectId \<Rightarrow> date \<Rightarrow> date \<Rightarrow> bool" where
  "checkTutorAvailability d tutorId start end' =
     (case users d tutorId of
        None \<Rightarrow> False
      | Some tutorUser \<Rightarrow>
          (case availability tutorUser of
             None \<Rightarrow> False
           | Some slots \<Rightarrow>
               (case find (\<lambda>sl. day sl = dayOfWeek start \<and> startTime sl \<le> formatHHmm start \<and>
                                endTime sl \<ge> formatHHmm end') slots of
                  None \<Rightarrow> False
                | Some availableSlot \<Rightarrow> True)))"

section \<open>Recurrence (createRecurringSessions)\<close>

definition stepByFrequency :: "string option \<Rightarrow> date \<Rightarrow> date" where
  \<comment> \<open>the \<open>switch (frequency)\<close> of the loop; any other value leaves \<open>currentDate\<close> as it is\<close>
  "stepByFrequency f currentDate =
     (if f = Some ''weekly'' then addDays 7 currentDate
      else if f = Some ''biweekly'' then addDays 14 currentDate
      else if f = Some ''monthly'' then addMonth currentDate
      else currentDate)"

definition recurringChild ::
  "sessionData \<Rightarrow> recurring_doc \<Rightarrow> int \<Rightarrow> objectId \<Rightarrow> objectId \<Rightarrow> date \<Rightarrow> session" where
  "recurringChild sd rc duration parentId i currentDate =
     newSession i (sd\<lparr>scheduledStart := currentDate, scheduledEnd := currentDate + duration\<rparr>)
       \<lparr>isRecurring = True, frequency = frequency rc, endDate = endDate rc,
        parentSession = Some parentId\<rparr>"

text \<open>
  The \<open>while\<close> loop. It does not end when \<open>frequency\<close> is none of the three values and
  \<open>currentDate\<close> is before \<open>endMoment\<close>: not returning is the value \<open>None\<close>.
\<close>

partial_function (option) recurringLoop ::
  "sessionData \<Rightarrow> recurring_doc \<Rightarrow> date \<Rightarrow> int \<Rightarrow> objectId \<Rightarrow> date \<Rightarrow> session list \<Rightarrow> db
     \<Rightarrow> (session list \<times> db) option" where
  "recurringLoop sd rc endMoment duration parentId currentDate acc d =
     (if currentDate < endMoment then
        (if stepByFrequency (frequency rc) currentDate < endMoment then
           recurringLoop sd rc endMoment duration parentId
             (stepByFrequency (frequency rc) currentDate)
             (acc @ [recurringChild sd rc duration parentId (nextId d)
                       (stepByFrequency (frequency rc) currentDate)])
             (insertDoc (recurringChild sd rc duration parentId (nextId d)
                       (stepByFrequency (frequency rc) currentDate)) d)
         else recurringLoop sd rc endMoment duration parentId
             (stepByFrequency (frequency rc) currentDate) acc d)
      else Some (acc, d))"

text \<open>
  \<open>momentNow\<close> is the clock \<open>moment(endDate)\<close> reads when the request has no \<open>endDate\<close>.
  A parent that fails the schema's validators makes \<open>save()\<close> throw before anything is
  written (the route answers 500); the children carry the same validated fields.
\<close>

definition createRecurringSessions ::
  "db \<Rightarrow> date \<Rightarrow> sessionData \<Rightarrow> recurring_doc \<Rightarrow> (error + session list \<times> db) option" where
  "createRecurringSessions d momentNow sd rc =
     (let endMoment = (case endDate rc of None \<Rightarrow> momentNow | Some e \<Rightarrow> e);
          duration = scheduledEnd sd - scheduledStart sd;
          parent = newSession (nextId d) sd
            \<lparr>isRecurring = True, frequency = frequency rc, endDate = endDate rc,
             parentSession = None\<rparr>
      in if \<not> validateSession parent then Some (Inl ServerError)
         else map_option Inr
           (recurringLoop sd rc endMoment duration (oid parent) (scheduledStart sd) [parent]
              (insertDoc parent d)))"

section \<open>Booking (POST /book)\<close>

definition bookingData ::
  "objectId \<Rightarrow> objectId \<Rightarrow> string \<Rightarrow> string option \<Rightarrow> date \<Rightarrow> date \<Rightarrow> sessionType \<Rightarrow>
     location_doc \<Rightarrow> real option \<Rightarrow> sessionData" where
  \<comment> \<open>the route's \<open>sessionData\<close> literal\<close>
  "bookingData studentId tutorId subject' description' start end' ty loc price' =
     \<lparr>student = studentId, tutor = tutorId, subject = subject', description = description',
      scheduledStart = start, scheduledEnd = end', sessionType = ty, location = loc,
      price = price'\<rparr>"

definition createSingleSession :: "db \<Rightarrow> sessionData \<Rightarrow> error + session list \<times> db" where
  \<comment> \<open>\<open>const session = new Session(sessionData); await session.save()\<close>\<close>
  "createSingleSession d sd =
     (if validateSession (newSession (nextId d) sd noRecurring)
      then Inr ([newSession (nextId d) sd noRecurring],
                insertDoc (newSession (nextId d) sd noRecurring) d)
      else Inl ServerError)"

definition generateMeetingLink :: "session \<Rightarrow> string" where
  "generateMeetingLink s =
     ''https://meet.example.com/meeting-'' @
       drop (length (oidToString (oid s)) - 8) (oidToString (oid s))"

definition withMeetingLink :: "session \<Rightarrow> session" where
  "withMeetingLink s = s\<lparr>location := (location s)\<lparr>meetingLink := Some (generateMeetingLink s)\<rparr>\<rparr>"

definition assignMeetingLinks :: "sessionType \<Rightarrow> session list \<Rightarrow> db \<Rightarrow> session list \<times> db" where
  "assignMeetingLinks ty ss d =
     (if ty = Online
      then (map withMeetingLink ss, foldl (\<lambda>d' s. saveDoc (withMeetingLink s) d') d ss)
      else (ss, d))"

text \<open>
  The request after express-validator has parsed it: the dates are Dates, the type is one
  of the two values, the tutor is an ObjectId. \<open>now\<close> is the route's \<open>new Date()\<close>.
  The result is the created sessions and the new state, an error, or \<open>None\<close> when the
  recurrence loop does not return.
\<close>

definition book ::
  "db \<Rightarrow> date \<Rightarrow> date \<Rightarrow> objectId \<Rightarrow> objectId \<Rightarrow> string \<Rightarrow> string option \<Rightarrow> date \<Rightarrow> date \<Rightarrow>
     sessionType \<Rightarrow> location_doc \<Rightarrow> real option \<Rightarrow> recurring_doc option \<Rightarrow>
     (error + session list \<times> db) option" where
  "book d now momentNow studentId tutorId subject' description' start end' ty loc price' rcq =
     (if length (trim subject') < 1 then Some (Inl ValidationErrors)
      else if start \<ge> end' then Some (Inl EndNotAfterStart)
      else if start \<le> now then Some (Inl NotInFuture)
      else if (case users d tutorId of None \<Rightarrow> True
               | Some tutorUser \<Rightarrow> role tutorUser \<noteq> RoleTutor \<and> role tutorUser \<noteq> RoleBoth)
        then Some (Inl TutorNotFound)
      else if length (checkSchedulingConflicts (sessions d) studentId tutorId start end' None) > 0
        then Some (Inl (SchedulingConflict
               (checkSchedulingConflicts (sessions d) studentId tutorId start end' None)))
      else if \<not> checkTutorAvailability d tutorId start end' then Some (Inl TutorUnavailable)
      else
        (let sd = bookingData studentId tutorId (trim subject') description' start end' ty loc price';
             created =
               (case rcq of
                  Some rc \<Rightarrow>
                    if isRecurring rc then createRecurringSessions d momentNow sd rc
                    else Some (createSingleSession d sd)
                | None \<Rightarrow> Some (createSingleSession d sd))
         in case created of
              None \<Rightarrow> None
            | Some (Inl e) \<Rightarrow> Some (Inl e)
            | Some (Inr (ss, d1)) \<Rightarrow> Some (Inr (assignMeetingLinks ty ss d1))))"

section \<open>Rescheduling (PUT /:id/reschedule)\<close>

definition isParticipant :: "session \<Rightarrow> objectId \<Rightarrow> bool" where
  "isParticipant s userId = (student s = userId \<or> tutor s = userId)"

text \<open>
  Reschedule, Cancel and End read the session with \<open>populate("student", ...)\<close> and
  \<open>populate("tutor", ...)\<close>: the user's document takes the place of the id, and \<open>null\<close>
  does when the users collection has no document of that id. \<open>populated d uid\<close> is the
  \<open>_id\<close> of what \<open>populate\<close> puts there, \<open>None\<close> for \<open>null\<close>. Reading \<open>_id\<close> of \<open>null\<close>
  throws, and the \<open>catch\<close> of the route answers 500.
\<close>

definition populated :: "db \<Rightarrow> objectId \<Rightarrow> objectId option" where
  "populated d uid = (case users d uid of None \<Rightarrow> None | Some u \<Rightarrow> Some uid)"

text \<open>
  The access test of the three routes,
  \<open>session.student._id.toString() !== userId && session.tutor._id.toString() !== userId\<close>:
  the tutor is read only when the student is not the caller. \<open>None\<close> lets the caller pass.
\<close>

definition populatedAccess :: "db \<Rightarrow> session \<Rightarrow> objectId \<Rightarrow> error option" where
  "populatedAccess d s userId =
     (case populated d (student s) of
        None \<Rightarrow> Some ServerError
      | Some studentId \<Rightarrow>
          if studentId = userId then None
          else (case populated d (tutor s) of
                  None \<Rightarrow> Some ServerError
                | Some tutorId \<Rightarrow> if tutorId = userId then None else Some AccessDenied))"

text \<open>
  The conflict check of Reschedule is called with \<open>session.student._id\<close> and
  \<open>session.tutor._id\<close>; the tutor may not have been read before.
\<close>

definition reschedule ::
  "db \<Rightarrow> date \<Rightarrow> objectId \<Rightarrow> objectId \<Rightarrow> date \<Rightarrow> date \<Rightarrow> string option \<Rightarrow> error + session \<times> db" where
  "reschedule d now sessionId userId newStart newEnd reason' =
     (if (case reason' of None \<Rightarrow> False | Some r \<Rightarrow> length (trim r) > 500)
        then Inl ValidationErrors
      else case findById d sessionId of
        None \<Rightarrow> Inl SessionNotFound
      | Some s \<Rightarrow>
          (case populatedAccess d s userId of
             Some e \<Rightarrow> Inl e
           | None \<Rightarrow>
               if status s \<noteq> Scheduled \<and> status s \<noteq> Confirmed then Inl CannotBeRescheduled
               else if newStart \<ge> newEnd then Inl EndNotAfterStart
               else if newStart \<le> now then Inl NotInFuture
               else
                 (case populated d (student s) of
                    None \<Rightarrow> Inl ServerError
                  | Some studentId \<Rightarrow>
                      (case populated d (tutor s) of
                         None \<Rightarrow> Inl ServerError
                       | Some tutorId \<Rightarrow>
                           if length (checkSchedulingConflicts (sessions d) studentId tutorId
                                        newStart newEnd (Some sessionId)) > 0
                           then Inl (SchedulingConflict
                                  (checkSchedulingConflicts (sessions d) studentId tutorId
                                     newStart newEnd (Some sessionId)))
                           else
                             (let s' = s\<lparr>scheduledStart := newStart, scheduledEnd := newEnd,
                                         status := Scheduled\<rparr>
                              in Inr (s', saveDoc s' d))))))"

section \<open>Cancelling (PUT /:id/cancel)\<close>

text \<open>
  \<open>now\<close> is the clock read for \<open>hoursUntilSession\<close>, \<open>cancelledAt'\<close> the one read for the
  cancellation record. \<open>toFixed1\<close> is JavaScript's \<open>Number.prototype.toFixed(1)\<close>, taken as a
  parameter: it only spells the admin note.
\<close>

definition cancel ::
  "(real \<Rightarrow> string) \<Rightarrow> db \<Rightarrow> date \<Rightarrow> date \<Rightarrow> objectId \<Rightarrow> objectId \<Rightarrow> string \<Rightarrow> error + session \<times> db" where
  "cancel toFixed1 d now cancelledAt' sessionId userId reason' =
     (if length (trim reason') < 1 \<or> length (trim reason') > 500 then Inl ValidationErrors
      else case findById d sessionId of
        None \<Rightarrow> Inl SessionNotFound
      | Some s \<Rightarrow>
          (case populatedAccess d s userId of
             Some e \<Rightarrow> Inl e
           | None \<Rightarrow>
               if status s \<noteq> Scheduled \<and> status s \<noteq> Confirmed then Inl CannotBeCancelled
               else
                 (let hoursUntilSession = real_of_int (scheduledStart s - now) / (1000 * 60 * 60);
                      s1 = (if hoursUntilSession < 24
                            then s\<lparr>sessionNotes := (sessionNotes s)\<lparr>adminNote :=
                                   Some (''Late cancellation ('' @ toFixed1 hoursUntilSession @
                                         '' hours notice)'')\<rparr>\<rparr>
                            else s);
                      s' = s1\<lparr>status := Cancelled,
                              cancellation := Some \<lparr>cancelledBy = userId, cancelledAt = cancelledAt',
                                                     reason = trim reason'\<rparr>\<rparr>
                  in Inr (s', saveDoc s' d))))"

section \<open>Starting (PUT /:id/start)\<close>

text \<open>
  \<open>now\<close> is the clock read for \<open>minutesUntilSession\<close>, \<open>startedAt\<close> the one read for
  \<open>actualStart\<close>.
\<close>

definition startSession ::
  "db \<Rightarrow> date \<Rightarrow> date \<Rightarrow> objectId \<Rightarrow> objectId \<Rightarrow> error + session \<times> db" where
  "startSession d now startedAt sessionId userId =
     (case findById d sessionId of
        None \<Rightarrow> Inl SessionNotFound
      | Some s \<Rightarrow>
          if \<not> isParticipant s userId then Inl AccessDenied
          else if status s \<noteq> Scheduled \<and> status s \<noteq> Confirmed then Inl CannotBeStarted
          else if real_of_int (scheduledStart s - now) / (1000 * 60) > 15 then Inl TooEarlyToStart
          else
            (let s' = s\<lparr>status := Ongoing, actualStart := Some startedAt\<rparr>
             in Inr (s', saveDoc s' d)))"

section \<open>Ending (PUT /:id/end)\<close>

text \<open>
  The answer carries \<open>duration: session.actualEnd - session.actualStart\<close>; without an
  \<open>actualStart\<close> the subtraction is no number (\<open>None\<close>). Where the notes are stored the
  student's document has been read, so \<open>session.student._id\<close> is \<open>student s\<close>.
  \<open>updateUserStats\<close> writes to the users' counters only, which no route below reads, and
  catches what it throws, as the notification senders do.
\<close>

record endResponse =
  endedSession :: session
  duration :: "int option"

definition endSession ::
  "db \<Rightarrow> date \<Rightarrow> objectId \<Rightarrow> objectId \<Rightarrow> string option \<Rightarrow> error + endResponse \<times> db" where
  "endSession d now sessionId userId notes' =
     (if (case notes' of None \<Rightarrow> False | Some n \<Rightarrow> length (trim n) > 1000)
        then Inl ValidationErrors
      else case findById d sessionId of
        None \<Rightarrow> Inl SessionNotFound
      | Some s \<Rightarrow>
          (case populatedAccess d s userId of
             Some e \<Rightarrow> Inl e
           | None \<Rightarrow>
               if status s \<noteq> Ongoing then Inl NotOngoing
               else
                 (let s1 = s\<lparr>status := Completed, actualEnd := Some now\<rparr>;
                      s' = (case notes' of
                              None \<Rightarrow> s1
                            | Some n \<Rightarrow>
                                if trim n = [] then s1
                                else if student s = userId
                                then s1\<lparr>sessionNotes := (sessionNotes s1)\<lparr>studentNote := Some (trim n)\<rparr>\<rparr>
                                else s1\<lparr>sessionNotes := (sessionNotes s1)\<lparr>tutorNote := Some (trim n)\<rparr>\<rparr>)
                  in Inr (\<lparr>endedSession = s',
                            duration = map_option (\<lambda>a. now - a) (actualStart s')\<rparr>,
                          saveDoc s' d))))"

section \<open>The reminder sweep (cron, every 15 minutes)\<close>

text \<open>
  \<open>dateNow\<close> is \<open>Date.now()\<close> of \<open>reminderTime\<close>, \<open>queryNow\<close> the \<open>new Date()\<close> of the query,
  and \<open>clock k\<close> the \<open>new Date()\<close> read when the \<open>k\<close>-th selected session is marked.
\<close>

definition sessionsToRemind :: "db \<Rightarrow> date \<Rightarrow> date \<Rightarrow> session list" where
  "sessionsToRemind d dateNow queryNow =
     filter (\<lambda>s. scheduledStart s \<ge> queryNow \<and>
                 scheduledStart s \<le> dateNow + 24 * 60 * 60 * 1000 \<and>
                 (status s = Scheduled \<or> status s = Confirmed) \<and>
                 sent (reminders s) = False)
       (sessions d)"

definition markReminded :: "date \<Rightarrow> session \<Rightarrow> session" where
  "markReminded t s = s\<lparr>reminders := (reminders s)\<lparr>sent := True, sentAt := Some t\<rparr>\<rparr>"

fun remindLoop :: "(nat \<Rightarrow> date) \<Rightarrow> nat \<Rightarrow> session list \<Rightarrow> db \<Rightarrow> db" where
  "remindLoop clock k [] d = d"
| "remindLoop clock k (s # ss) d = remindLoop clock (Suc k) ss (saveDoc (markReminded (clock k) s) d)"

text \<open>
  The sweep returns the sessions it called \<open>sendSessionReminders\<close> for, in order, and the
  new state.
\<close>

definition reminderSweep :: "db \<Rightarrow> date \<Rightarrow> date \<Rightarrow> (nat \<Rightarrow> date) \<Rightarrow> session list \<times> db" where
  "reminderSweep d dateNow queryNow clock =
     (sessionsToRemind d dateNow queryNow,
      remindLoop clock 0 (sessionsToRemind d dateNow queryNow) d)"

section \<open>The states the routes can reach\<close>

text \<open>
  From an empty sessions collection, by any sequence of completed requests and sweeps.
  Users are written by other routes, so the users collection may change at any point.
\<close>

inductive reachable :: "db \<Rightarrow> bool" where
  initial: "sessions d = [] \<Longrightarrow> reachable d"
| usersChange: "reachable d \<Longrightarrow> reachable (d\<lparr>users := us\<rparr>)"
| booked: "reachable d \<Longrightarrow>
     book d now momentNow studentId tutorId subject' description' start' end' ty loc price' rcq
       = Some (Inr (ss, d')) \<Longrightarrow> reachable d'"
| rescheduled: "reachable d \<Longrightarrow>
     reschedule d now sessionId userId newStart newEnd reason' = Inr (s, d') \<Longrightarrow> reachable d'"
| cancelled: "reachable d \<Longrightarrow>
     cancel toFixed1 d now cancelledAt' sessionId userId reason' = Inr (s, d') \<Longrightarrow> reachable d'"
| started: "reachable d \<Longrightarrow>
     startSession d now startedAt sessionId userId = Inr (s, d') \<Longrightarrow> reachable d'"
| ended: "reachable d \<Longrightarrow>
     endSession d now sessionId userId notes' = Inr (r, d') \<Longrightarrow> reachable d'"
| swept: "reachable d \<Longrightarrow>
     reminderSweep d dateNow queryNow clock = (ss, d') \<Longrightarrow> reachable d'"

text \<open>
  \<open>evolves d0 d\<close>: \<open>d\<close> comes from \<open>d0\<close> by a sequence of completed requests and sweeps.
\<close>

inductive evolves :: "db \<Rightarrow> db \<Rightarrow> bool" where
  same: "evolves d0 d0"
| usersChange: "evolves d0 d \<Longrightarrow> evolves d0 (d\<lparr>users := us\<rparr>)"
| booked: "evolves d0 d \<Longrightarrow>
     book d now momentNow studentId tutorId subject' description' start' end' ty loc price' rcq
       = Some (Inr (ss, d')) \<Longrightarrow> evolves d0 d'"
| rescheduled: "evolves d0 d \<Longrightarrow>
     reschedule d now sessionId userId newStart newEnd reason' = Inr (s, d') \<Longrightarrow> evolves d0 d'"
| cancelled: "evolves d0 d \<Longrightarrow>
     cancel toFixed1 d now cancelledAt' sessionId userId reason' = Inr (s, d') \<Longrightarrow> evolves d0 d'"
| started: "evolves d0 d \<Longrightarrow>
     startSession d now startedAt sessionId userId = Inr (s, d') \<Longrightarrow> evolves d0 d'"
| ended: "evolves d0 d \<Longrightarrow>
     endSession d now sessionId userId notes' = Inr (r, d') \<Longrightarrow> evolves d0 d'"
| swept: "evolves d0 d \<Longrightarrow>
     reminderSweep d dateNow queryNow clock = (ss, d') \<Longrightarrow> evolves d0 d'"

text \<open>
  The ids of the stored sessions are distinct and below the next id to be drawn.
\<close>

definition freshIds :: "db \<Rightarrow> bool" where
  "freshIds d =
     (distinct (map oid (sessions d)) \<and> (\<forall>i \<in> set (map oid (sessions d)). i < nextId d))"

section \<open>Closed forms and concrete inputs used in the statements below\<close>

text \<open>
  The children the recurrence loop saves, in closed form: the \<open>k\<close>-th child starts
  \<open>k + 1\<close> frequency steps after \<open>cur\<close> and takes the \<open>k\<close>-th fresh id.
\<close>

definition recurringChildren ::
  "sessionData \<Rightarrow> recurring_doc \<Rightarrow> int \<Rightarrow> objectId \<Rightarrow> objectId \<Rightarrow> date \<Rightarrow> nat \<Rightarrow> session list" where
  "recurringChildren sd rc dur parentId firstId cur n =
     map (\<lambda>k. recurringChild sd rc dur parentId (firstId + k)
                 ((stepByFrequency (frequency rc) ^^ Suc k) cur)) [0..<n]"

definition noLocation :: location_doc where
  "noLocation = \<lparr>details = None, meetingLink = None, address = None\<rparr>"

text \<open>A stored session of student \<open>st\<close> with tutor \<open>tu\<close> over \<open>[t0, t1)\<close>, as booking creates it.\<close>

definition exampleSession :: "objectId \<Rightarrow> objectId \<Rightarrow> objectId \<Rightarrow> date \<Rightarrow> date \<Rightarrow> session" where
  "exampleSession i st tu t0 t1 =
     newSession i (bookingData st tu ''Mathematics'' None t0 t1 Offline noLocation (Some 50))
       noRecurring"

text \<open>
  Three users: 11 studies and tutors, 12 studies, 13 tutors on Mondays from 09:00 to 17:00.
\<close>

definition exampleUsers :: "objectId \<Rightarrow> user option" where
  "exampleUsers i =
     (if i = 11 then Some \<lparr>role = RoleBoth, availability = Some []\<rparr>
      else if i = 12 then Some \<lparr>role = RoleStudent, availability = Some []\<rparr>
      else if i = 13 then Some \<lparr>role = RoleTutor, availability = Some
        [\<lparr>day = ''monday'', startTime = ''09:00'', endTime = ''17:00'', timezone = ''UTC''\<rparr>]\<rparr>
      else None)"

definition exampleDb :: "session list \<Rightarrow> db" where
  "exampleDb coll = \<lparr>sessions = coll, users = exampleUsers, nextId = 100\<rparr>"

text \<open>
  Session 7 of student 12 with tutor 13, Monday 2030-01-07 from 10:00 to 11:00: as booked,
  after the sweep of Sunday 12:00 has marked it, and confirmed.
\<close>

definition mondaySession :: session where
  "mondaySession = exampleSession 7 12 13 (utc 2030 1 7 10 0) (utc 2030 1 7 11 0)"

definition remindedSession :: session where
  "remindedSession = markReminded (utc 2030 1 6 12 0) mondaySession"

definition confirmedSession :: session where
  "confirmedSession = mondaySession\<lparr>status := Confirmed\<rparr>"

text \<open>
  The states of one trace: user 12 books tutor 13 for Monday 2030-01-07 from 10:00 to 11:00
  (the session gets id 100), the tutor starts it at 09:50 and ends it at 11:05.
\<close>

definition bookedSession :: session where
  "bookedSession = exampleSession 100 12 13 (utc 2030 1 7 10 0) (utc 2030 1 7 11 0)"

definition bookedDb :: db where
  "bookedDb = insertDoc bookedSession (exampleDb [])"

definition startedSession :: session where
  "startedSession = bookedSession\<lparr>status := Ongoing, actualStart := Some (utc 2030 1 7 9 50)\<rparr>"

definition startedDb :: db where
  "startedDb = saveDoc startedSession bookedDb"

definition completedSession :: session where
  "completedSession = startedSession\<lparr>status := Completed, actualEnd := Some (utc 2030 1 7 11 5)\<rparr>"

definition endedDb :: db where
  "endedDb = saveDoc completedSession startedDb"

text \<open>
  The weekly series of the specification: Monday 2025-01-06 from 10:00 to 11:00, every week
  until 2025-01-27 (read by moment as that day's midnight).
\<close>

definition weeklyData :: sessionData where
  "weeklyData = bookingData 12 13 ''Mathematics'' None (utc 2025 1 6 10 0) (utc 2025 1 6 11 0)
     Offline noLocation None"

definition weeklyRule :: recurring_doc where
  "weeklyRule = \<lparr>isRecurring = True, frequency = Some ''weekly'',
     endDate = Some (utc 2025 1 27 0 0), parentSession = None\<rparr>"

text \<open>
  A monthly series that meets a shorter month: Friday 2025-01-31 from 10:00 to 11:00, every
  month until 2025-05-01.
\<close>

definition monthlyData :: sessionData where
  "monthlyData = bookingData 12 13 ''Mathematics'' None (utc 2025 1 31 10 0) (utc 2025 1 31 11 0)
     Offline noLocation None"

definition monthlyRule :: recurring_doc where
  "monthlyRule = \<lparr>isRecurring = True, frequency = Some ''monthly'',
     endDate = Some (utc 2025 5 1 0 0), parentSession = None\<rparr>"

text \<open>
  \<open>civil y m d r\<close> is the date \<open>r\<close> milliseconds after the midnight that begins day \<open>d\<close> of
  month \<open>m\<close> of year \<open>y\<close>.
\<close>

definition civil :: "int \<Rightarrow> int \<Rightarrow> int \<Rightarrow> int \<Rightarrow> date" where
  "civil y m d r = (dayFromYear y + daysBeforeMonth y m + (d - 1)) * msPerDay + r"

section \<open>The calendar\<close>

lemma yearUp_exit: "dayNo < dayFromYear (yearUp dayNo y + 1)"
proof (induction dayNo y rule: yearUp.induct)
  case (1 dayNo y)
  show ?case
  proof (cases "dayFromYear (y + 1) \<le> dayNo")
    case True
    then have "yearUp dayNo y = yearUp dayNo (y + 1)" by (subst yearUp.simps) simp
    with 1 True show ?thesis by simp
  next
    case False
    then have "yearUp dayNo y = y" by (subst yearUp.simps) simp
    with False show ?thesis by simp
  qed
qed

lemma dayNo_before_next_year: "dayNo < dayFromYear (yearFromDay dayNo + 1)"
  unfolding yearFromDay_def by (rule yearUp_exit)

lemma daysBeforeMonth_next:
  "1 \<le> m \<Longrightarrow> m \<le> 12 \<Longrightarrow> daysBeforeMonth y (m + 1) = daysBeforeMonth y m + daysInMonth y m"
proof -
  assume "1 \<le> m" "m \<le> 12"
  then consider "m = 1" | "m = 2" | "m = 3" | "m = 4" | "m = 5" | "m = 6" | "m = 7" | "m = 8"
    | "m = 9" | "m = 10" | "m = 11" | "m = 12" by atomize_elim arith
  then show ?thesis
    by cases (simp_all add: daysBeforeMonth_def daysInMonth_def)
qed

lemma daysInMonth_ge: "28 \<le> daysInMonth y m"
  by (simp add: daysInMonth_def)

lemma monthFromDay_range: "1 \<le> monthFromDay dayNo \<and> monthFromDay dayNo \<le> 12"
  by (simp add: monthFromDay_def Let_def)

lemma monthFromDay_upper:
  "dayNo - dayFromYear (yearFromDay dayNo) <
     daysBeforeMonth (yearFromDay dayNo) (monthFromDay dayNo + 1)"
proof -
  define y where "y = yearFromDay dayNo"
  define doy where "doy = dayNo - dayFromYear y"
  have "dayNo < dayFromYear y + (if isLeapYear y then 366 else 365)"
    using dayNo_before_next_year [of dayNo] by (simp add: y_def dayFromYear_step)
  then have top: "doy < daysBeforeMonth y 13"
    by (simp add: doy_def daysBeforeMonth_def split: if_splits)
  have "doy < daysBeforeMonth y
     ((if doy < daysBeforeMonth y 2 then 1 else if doy < daysBeforeMonth y 3 then 2
      else if doy < daysBeforeMonth y 4 then 3 else if doy < daysBeforeMonth y 5 then 4
      else if doy < daysBeforeMonth y 6 then 5 else if doy < daysBeforeMonth y 7 then 6
      else if doy < daysBeforeMonth y 8 then 7 else if doy < daysBeforeMonth y 9 then 8
      else if doy < daysBeforeMonth y 10 then 9 else if doy < daysBeforeMonth y 11 then 10
      else if doy < daysBeforeMonth y 12 then 11 else 12) + 1)"
    (is "doy < daysBeforeMonth y (?M + 1)")
    using top by simp
  moreover have "monthFromDay dayNo = ?M"
    by (simp only: monthFromDay_def Let_def y_def doy_def)
  ultimately show ?thesis
    by (simp only: y_def doy_def)
qed

lemma msPerDay_pos: "0 < msPerDay"
  by (simp add: msPerDay_def)

lemma addMonth_increases: "t < addMonth t"
proof -
  define dayNo where "dayNo = t div msPerDay"
  define y where "y = yearFromDay dayNo"
  define m where "m = monthFromDay dayNo"
  define doy where "doy = dayNo - dayFromYear y"
  define dd where "dd = dateFromDay dayNo"
  define y2 where "y2 = (if m = 12 then y + 1 else y)"
  define m2 where "m2 = (if m = 12 then 1 else m + 1)"
  define d2 where "d2 = (if dd < 29 then dd else min dd (daysInMonth y2 m2))"
  define newDay where "newDay = dayFromYear y2 + daysBeforeMonth y2 m2 + (d2 - 1)"
  have am: "addMonth t = newDay * msPerDay + t mod msPerDay"
    by (simp add: addMonth_def Let_def newDay_def d2_def m2_def y2_def dd_def m_def y_def dayNo_def)
  have t: "t = dayNo * msPerDay + t mod msPerDay"
    by (simp add: dayNo_def)
  have mr: "1 \<le> m" "m \<le> 12"
    using monthFromDay_range [of dayNo] by (simp_all add: m_def)
  have dd: "dd = doy - daysBeforeMonth y m + 1"
    by (simp add: dd_def dateFromDay_def Let_def doy_def y_def m_def)
  have ub: "doy < daysBeforeMonth y m + daysInMonth y m"
    using monthFromDay_upper [of dayNo] daysBeforeMonth_next [OF mr, of y]
    by (simp add: doy_def y_def m_def)
  have base: "dayFromYear y2 + daysBeforeMonth y2 m2 =
      dayFromYear y + daysBeforeMonth y m + daysInMonth y m"
  proof (cases "m = 12")
    case True
    then show ?thesis
      by (simp add: y2_def m2_def dayFromYear_step daysBeforeMonth_def daysInMonth_def)
  next
    case False
    then show ?thesis
      using daysBeforeMonth_next [OF mr, of y] by (simp add: y2_def m2_def)
  qed
  have d2: "dd - daysInMonth y m < d2"
  proof (cases "dd < 29")
    case True
    then show ?thesis using daysInMonth_ge [of y m] by (simp add: d2_def)
  next
    case False
    have "dd \<le> daysInMonth y m" using ub dd by linarith
    then show ?thesis
      using False daysInMonth_ge [of y2 m2] daysInMonth_ge [of y m] by (simp add: d2_def)
  qed
  have "dayNo = dayFromYear y + doy" by (simp add: doy_def)
  then have "dayNo < newDay"
    using base d2 dd by (simp add: newDay_def)
  then have "dayNo * msPerDay < newDay * msPerDay"
    using msPerDay_pos by simp
  then show ?thesis
    using am t by linarith
qed

subsection \<open>A day number and its civil date\<close>

lemma mult_div_le: "0 < k \<Longrightarrow> k * ((x::int) div k) \<le> x"
proof -
  assume "0 < k"
  then have "0 \<le> x mod k" by simp
  moreover have "k * (x div k) + x mod k = x" by simp
  ultimately show ?thesis by linarith
qed

lemma dayFromYear_1970: "dayFromYear 1970 = 0"
  by (simp add: dayFromYear_def)

lemma dayFromYear_after: "0 \<le> k \<Longrightarrow> dayFromYear (1970 + k) \<le> 366 * k"
proof (induction k rule: int_ge_induct)
  case base
  show ?case by (simp add: dayFromYear_1970)
next
  case (step i)
  from dayFromYear_step [of "1970 + i"]
  have "dayFromYear (1970 + (i + 1)) \<le> dayFromYear (1970 + i) + 366"
    by (simp add: add.assoc split: if_splits)
  then show ?case using step by simp
qed

lemma dayFromYear_before: "k \<le> 0 \<Longrightarrow> dayFromYear (1970 + k) \<le> 365 * k"
proof (induction k rule: int_le_induct)
  case base
  show ?case by (simp add: dayFromYear_1970)
next
  case (step i)
  from dayFromYear_step [of "1970 + (i - 1)"]
  have "dayFromYear (1970 + (i - 1)) \<le> dayFromYear (1970 + i) - 365"
    by (simp split: if_splits)
  with step show ?case by simp
qed

lemma yearUp_lower: "dayFromYear y \<le> dayNo \<Longrightarrow> dayFromYear (yearUp dayNo y) \<le> dayNo"
proof (induction dayNo y rule: yearUp.induct)
  case (1 dayNo y)
  show ?case
  proof (cases "dayFromYear (y + 1) \<le> dayNo")
    case True
    then have "yearUp dayNo y = yearUp dayNo (y + 1)" by (subst yearUp.simps) simp
    with 1(1) [OF True True] show ?thesis by simp
  next
    case False
    then have "yearUp dayNo y = y" by (subst yearUp.simps) simp
    with 1(2) show ?thesis by simp
  qed
qed

lemma year_guess_lower:
  "dayFromYear (1970 + (if 0 \<le> dayNo then dayNo div 366 else dayNo div 365)) \<le> dayNo"
proof (cases "0 \<le> dayNo")
  case True
  define q where "q = dayNo div 366"
  have "366 * q \<le> dayNo" unfolding q_def by (rule mult_div_le) simp
  moreover have "0 \<le> q" unfolding q_def using True by (simp add: pos_imp_zdiv_nonneg_iff)
  then have "dayFromYear (1970 + q) \<le> 366 * q" by (rule dayFromYear_after)
  ultimately show ?thesis using True by (simp add: q_def)
next
  case False
  define q where "q = dayNo div 365"
  have m: "365 * q \<le> dayNo" unfolding q_def by (rule mult_div_le) simp
  with False have "q \<le> 0" by linarith
  then have "dayFromYear (1970 + q) \<le> 365 * q" by (rule dayFromYear_before)
  with m show ?thesis using False by (simp add: q_def)
qed

text \<open>\<open>yearFromDay\<close> is ECMAScript's \<open>YearFromTime\<close>: the year whose days contain the day.\<close>

lemma yearFromDay_bounds:
  "dayFromYear (yearFromDay dayNo) \<le> dayNo \<and> dayNo < dayFromYear (yearFromDay dayNo + 1)"
  using yearUp_lower [OF year_guess_lower [of dayNo]] dayNo_before_next_year [of dayNo]
  by (simp add: yearFromDay_def)


lemma dayFromYear_mono: "a \<le> b \<Longrightarrow> dayFromYear a \<le> dayFromYear b"
proof (induction b rule: int_ge_induct)
  case base
  show ?case by simp
next
  case (step i)
  have "dayFromYear i \<le> dayFromYear (i + 1)" by (simp add: dayFromYear_step)
  with step show ?case by simp
qed

lemma yearFromDay_unique:
  assumes "dayFromYear y \<le> dayNo" and "dayNo < dayFromYear (y + 1)"
  shows "yearFromDay dayNo = y"
proof (rule ccontr)
  assume ne: "yearFromDay dayNo \<noteq> y"
  let ?y = "yearFromDay dayNo"
  have b: "dayFromYear ?y \<le> dayNo" "dayNo < dayFromYear (?y + 1)"
    using yearFromDay_bounds [of dayNo] by simp_all
  show False
  proof (cases "?y < y")
    case True
    then have "dayFromYear (?y + 1) \<le> dayFromYear y" by (intro dayFromYear_mono) simp
    with assms(1) b(2) show False by simp
  next
    case False
    with ne have "y + 1 \<le> ?y" by simp
    then have "dayFromYear (y + 1) \<le> dayFromYear ?y" by (rule dayFromYear_mono)
    with assms(2) b(1) show False by simp
  qed
qed

lemma monthFromDay_lower:
  "daysBeforeMonth (yearFromDay dayNo) (monthFromDay dayNo) \<le>
     dayNo - dayFromYear (yearFromDay dayNo)"
proof -
  define y where "y = yearFromDay dayNo"
  define doy where "doy = dayNo - dayFromYear y"
  have z: "daysBeforeMonth y 1 = 0" by (simp add: daysBeforeMonth_def)
  have "0 \<le> doy" using yearFromDay_bounds [of dayNo] by (simp add: doy_def y_def)
  then have "daysBeforeMonth y
     (if doy < daysBeforeMonth y 2 then 1 else if doy < daysBeforeMonth y 3 then 2
      else if doy < daysBeforeMonth y 4 then 3 else if doy < daysBeforeMonth y 5 then 4
      else if doy < daysBeforeMonth y 6 then 5 else if doy < daysBeforeMonth y 7 then 6
      else if doy < daysBeforeMonth y 8 then 7 else if doy < daysBeforeMonth y 9 then 8
      else if doy < daysBeforeMonth y 10 then 9 else if doy < daysBeforeMonth y 11 then 10
      else if doy < daysBeforeMonth y 12 then 11 else 12) \<le> doy"
    (is "daysBeforeMonth y ?M \<le> doy")
    by (simp add: z)
  moreover have "monthFromDay dayNo = ?M"
    by (simp only: monthFromDay_def Let_def y_def doy_def)
  ultimately show ?thesis
    by (simp only: y_def doy_def)
qed

text \<open>
  The three fields are a date of the calendar, and the day number is that date's:
  \<open>yearFromDay\<close>, \<open>monthFromDay\<close> and \<open>dateFromDay\<close> invert \<open>dayFromYear y +
  daysBeforeMonth y m + (d - 1)\<close>.
\<close>

lemma civil_of_day:
  "1 \<le> monthFromDay dayNo \<and> monthFromDay dayNo \<le> 12 \<and>
   1 \<le> dateFromDay dayNo \<and>
   dateFromDay dayNo \<le> daysInMonth (yearFromDay dayNo) (monthFromDay dayNo) \<and>
   dayNo = dayFromYear (yearFromDay dayNo) +
     daysBeforeMonth (yearFromDay dayNo) (monthFromDay dayNo) + (dateFromDay dayNo - 1)"
proof -
  have r: "1 \<le> monthFromDay dayNo" "monthFromDay dayNo \<le> 12"
    using monthFromDay_range [of dayNo] by simp_all
  show ?thesis
    using r monthFromDay_lower [of dayNo] monthFromDay_upper [of dayNo]
      daysBeforeMonth_next [OF r, of "yearFromDay dayNo"]
    by (simp add: dateFromDay_def Let_def)
qed

lemma daysBeforeMonth_bounds:
  assumes "1 \<le> m" and "m \<le> 12"
  shows "0 \<le> daysBeforeMonth y m \<and>
         daysBeforeMonth y m + daysInMonth y m \<le> (if isLeapYear y then 366 else 365)"
proof -
  from assms consider "m = 1" | "m = 2" | "m = 3" | "m = 4" | "m = 5" | "m = 6" | "m = 7"
    | "m = 8" | "m = 9" | "m = 10" | "m = 11" | "m = 12" by atomize_elim arith
  then show ?thesis
    by cases (simp_all add: daysBeforeMonth_def daysInMonth_def)
qed

lemma monthFromDay_of:
  assumes "yearFromDay n = y" and "n - dayFromYear y = daysBeforeMonth y m + (d - 1)"
    and "1 \<le> m" and "m \<le> 12" and "1 \<le> d" and "d \<le> daysInMonth y m"
  shows "monthFromDay n = m"
proof -
  from assms(3,4) consider "m = 1" | "m = 2" | "m = 3" | "m = 4" | "m = 5" | "m = 6" | "m = 7"
    | "m = 8" | "m = 9" | "m = 10" | "m = 11" | "m = 12" by atomize_elim arith
  then show ?thesis
    using assms(5,6)
    by cases
      (auto simp add: monthFromDay_def Let_def assms(1,2) daysBeforeMonth_def daysInMonth_def
        split: if_splits)
qed

lemma day_of_civil:
  assumes "1 \<le> m" and "m \<le> 12" and "1 \<le> d" and "d \<le> daysInMonth y m"
  shows "yearFromDay (dayFromYear y + daysBeforeMonth y m + (d - 1)) = y \<and>
         monthFromDay (dayFromYear y + daysBeforeMonth y m + (d - 1)) = m \<and>
         dateFromDay (dayFromYear y + daysBeforeMonth y m + (d - 1)) = d"
proof -
  let ?n = "dayFromYear y + daysBeforeMonth y m + (d - 1)"
  have b: "0 \<le> daysBeforeMonth y m"
    "daysBeforeMonth y m + daysInMonth y m \<le> (if isLeapYear y then 366 else 365)"
    using daysBeforeMonth_bounds [OF assms(1,2), of y] by simp_all
  have "dayFromYear y \<le> ?n" using b(1) assms(3) by simp
  moreover have "?n < dayFromYear (y + 1)"
    using b(2) assms(4) by (simp add: dayFromYear_step split: if_splits)
  ultimately have yy: "yearFromDay ?n = y" by (rule yearFromDay_unique)
  have doy: "?n - dayFromYear y = daysBeforeMonth y m + (d - 1)" by simp
  have mm: "monthFromDay ?n = m"
    by (rule monthFromDay_of [OF yy doy assms])
  show ?thesis
    by (simp add: yy mm dateFromDay_def Let_def)
qed

text \<open>
  \<open>add(1, "month")\<close> on a date of the calendar: the same time of day in the next month,
  the day of the month clamped to the length of that month.
\<close>

lemma addMonth_of_civil:
  assumes "1 \<le> m" and "m \<le> 12" and "1 \<le> d" and "d \<le> daysInMonth y m"
    and "0 \<le> r" and "r < msPerDay"
  shows "addMonth (civil y m d r) =
     civil (if m = 12 then y + 1 else y) (if m = 12 then 1 else m + 1)
       (min d (daysInMonth (if m = 12 then y + 1 else y) (if m = 12 then 1 else m + 1))) r"
proof -
  define n where "n = dayFromYear y + daysBeforeMonth y m + (d - 1)"
  have t: "civil y m d r = msPerDay * n + r"
    by (simp add: civil_def n_def)
  have dv: "civil y m d r div msPerDay = n" using t assms(5,6) by (rule int_div_pos_eq)
  have md: "civil y m d r mod msPerDay = r" using t assms(5,6) by (rule int_mod_pos_eq)
  have c: "yearFromDay n = y" "monthFromDay n = m" "dateFromDay n = d"
    using day_of_civil [OF assms(1-4)] by (simp_all add: n_def)
  have clamp: "(if d < 29 then d else min d (daysInMonth y' m')) = min d (daysInMonth y' m')"
    for y' m'
    using daysInMonth_ge [of y' m'] by simp
  have "addMonth (civil y m d r) =
     (dayFromYear (if m = 12 then y + 1 else y) +
      daysBeforeMonth (if m = 12 then y + 1 else y) (if m = 12 then 1 else m + 1) +
      (min d (daysInMonth (if m = 12 then y + 1 else y) (if m = 12 then 1 else m + 1)) - 1)) *
     msPerDay + r"
    by (simp only: addMonth_def Let_def dv md c clamp)
  then show ?thesis
    by (simp only: civil_def)
qed

lemma civil_of_date:
  "1 \<le> monthFromDay (t div msPerDay) \<and> monthFromDay (t div msPerDay) \<le> 12 \<and>
   1 \<le> dateFromDay (t div msPerDay) \<and>
   dateFromDay (t div msPerDay) \<le>
     daysInMonth (yearFromDay (t div msPerDay)) (monthFromDay (t div msPerDay)) \<and>
   0 \<le> t mod msPerDay \<and> t mod msPerDay < msPerDay \<and>
   t = civil (yearFromDay (t div msPerDay)) (monthFromDay (t div msPerDay))
         (dateFromDay (t div msPerDay)) (t mod msPerDay)"
proof -
  note c = civil_of_day [of "t div msPerDay"]
  have p: "0 < msPerDay" by (simp add: msPerDay_def)
  have "t = (t div msPerDay) * msPerDay + t mod msPerDay" by simp
  also have "t div msPerDay = dayFromYear (yearFromDay (t div msPerDay)) +
     daysBeforeMonth (yearFromDay (t div msPerDay)) (monthFromDay (t div msPerDay)) +
     (dateFromDay (t div msPerDay) - 1)"
    using c by (elim conjE)
  finally have "t = civil (yearFromDay (t div msPerDay)) (monthFromDay (t div msPerDay))
         (dateFromDay (t div msPerDay)) (t mod msPerDay)"
    unfolding civil_def by simp
  with c p show ?thesis by simp
qed


section \<open>The conflict check\<close>

lemma exampleDb_fields:
  "sessions (exampleDb coll) = coll"
  "nextId (exampleDb coll) = 100"
  "users (exampleDb coll) = exampleUsers"
  by (simp_all add: exampleDb_def)

lemma in_conflicts_iff:
  "s \<in> set (checkSchedulingConflicts coll studentId tutorId start end' excludeSessionId) \<longleftrightarrow>
     s \<in> set coll \<and> conflictQuery studentId tutorId start end' excludeSessionId s"
  by (simp add: checkSchedulingConflicts_def)

lemma exampleSession_fields:
  "student (exampleSession i st tu t0 t1) = st"
  "tutor (exampleSession i st tu t0 t1) = tu"
  "scheduledStart (exampleSession i st tu t0 t1) = t0"
  "scheduledEnd (exampleSession i st tu t0 t1) = t1"
  "status (exampleSession i st tu t0 t1) = Scheduled"
  "oid (exampleSession i st tu t0 t1) = i"
  "reminders (exampleSession i st tu t0 t1) = \<lparr>sent = False, sentAt = None\<rparr>"
  by (simp_all add: exampleSession_def newSession_def bookingData_def)

text \<open>
  For a stored session that the query matches by participant (its student is the
  candidate's student, or its tutor is the candidate's tutor) and that is not the excluded
  one, the conflict check returns it exactly when its window overlaps the candidate window
  as half-open intervals and its status is scheduled, confirmed or ongoing. A stored
  session that ends when the candidate starts, or starts when the candidate ends, is not
  returned.
\<close>

lemma conflict_same_role_iff:
  assumes "s \<in> set coll"
    and "student s = studentId \<or> tutor s = tutorId"
    and "excludeSessionId \<noteq> Some (oid s)"
  shows "(s \<in> set (checkSchedulingConflicts coll studentId tutorId start end' excludeSessionId)
           \<longleftrightarrow> (scheduledStart s < end' \<and> scheduledEnd s > start) \<and>
               (status s = Scheduled \<or> status s = Confirmed \<or> status s = Ongoing)) \<and>
         (scheduledEnd s = start \<or> scheduledStart s = end' \<longrightarrow>
            s \<notin> set (checkSchedulingConflicts coll studentId tutorId start end' excludeSessionId))"
  using assms
  by (cases excludeSessionId) (auto simp: in_conflicts_iff conflictQuery_def activeStatus_def)

lemma conflict_same_role_iff_example:
  "exampleSession 7 11 12 1000 2000 \<in> set [exampleSession 7 11 12 1000 2000] \<and>
   student (exampleSession 7 11 12 1000 2000) = 11 \<and>
   exampleSession 7 11 12 1000 2000 \<in>
     set (checkSchedulingConflicts [exampleSession 7 11 12 1000 2000] 11 13 1999 3000 None) \<and>
   exampleSession 7 11 12 1000 2000 \<notin>
     set (checkSchedulingConflicts [exampleSession 7 11 12 1000 2000] 11 13 2000 3000 None) \<and>
   exampleSession 7 11 12 1000 2000 \<notin>
     set (checkSchedulingConflicts [exampleSession 7 11 12 1000 2000] 11 13 500 1000 None)"
proof -
  let ?s = "exampleSession 7 11 12 1000 2000"
  have h1: "?s \<in> set [?s]" by simp
  have h2: "student ?s = 11 \<or> tutor ?s = 13" by (simp add: exampleSession_fields)
  have h3: "None \<noteq> Some (oid ?s)" by simp
  note T = conflict_same_role_iff [OF h1 h2 h3]
  show ?thesis
    using T [of 1999 3000] T [of 2000 3000] T [of 500 1000]
    by (simp add: exampleSession_fields)
qed


section \<open>Booking\<close>

lemma book_after_checks:
  assumes "0 < length (trim subject')" and "start < end'" and "now < start"
    and "users d tutorId = Some u" and "role u = RoleTutor \<or> role u = RoleBoth"
    and "checkSchedulingConflicts (sessions d) studentId tutorId start end' None = []"
    and "checkTutorAvailability d tutorId start end'"
  shows "book d now momentNow studentId tutorId subject' description' start end' ty loc price' rcq =
     (case (case rcq of
              Some rc \<Rightarrow>
                if isRecurring rc
                then createRecurringSessions d momentNow
                       (bookingData studentId tutorId (trim subject') description' start end' ty loc
                          price') rc
                else Some (createSingleSession d
                       (bookingData studentId tutorId (trim subject') description' start end' ty loc
                          price'))
            | None \<Rightarrow> Some (createSingleSession d
                       (bookingData studentId tutorId (trim subject') description' start end' ty loc
                          price'))) of
        None \<Rightarrow> None
      | Some (Inl e) \<Rightarrow> Some (Inl e)
      | Some (Inr (ss, d1)) \<Rightarrow> Some (Inr (assignMeetingLinks ty ss d1)))"
  using assms by (auto simp: book_def Let_def)

lemma book_single:
  assumes "0 < length (trim subject')" and "start < end'" and "now < start"
    and "users d tutorId = Some u" and "role u = RoleTutor \<or> role u = RoleBoth"
    and "checkSchedulingConflicts (sessions d) studentId tutorId start end' None = []"
    and "checkTutorAvailability d tutorId start end'"
    and "validateSession (newSession (nextId d)
           (bookingData studentId tutorId (trim subject') description' start end' ty loc price')
           noRecurring)"
  shows "book d now momentNow studentId tutorId subject' description' start end' ty loc price' None =
     Some (Inr (assignMeetingLinks ty
       [newSession (nextId d)
          (bookingData studentId tutorId (trim subject') description' start end' ty loc price')
          noRecurring]
       (insertDoc (newSession (nextId d)
          (bookingData studentId tutorId (trim subject') description' start end' ty loc price')
          noRecurring) d)))"
  using assms(8) by (simp add: book_after_checks [OF assms(1-7)] createSingleSession_def)

text \<open>
  C2. The query matches a stored session by \<open>student == studentId\<close> or \<open>tutor == tutorId\<close>
  only. User 11 tutors user 12 on Monday 2030-01-07 from 10:00 to 11:00; the check for user
  11 booking tutor 13 over the same hour returns nothing, and the booking is made.
\<close>

theorem conflicts_miss_other_role:
  "tutor (exampleSession 7 12 11 (utc 2030 1 7 10 0) (utc 2030 1 7 11 0)) = 11 \<and>
   status (exampleSession 7 12 11 (utc 2030 1 7 10 0) (utc 2030 1 7 11 0)) = Scheduled \<and>
   checkSchedulingConflicts [exampleSession 7 12 11 (utc 2030 1 7 10 0) (utc 2030 1 7 11 0)]
     11 13 (utc 2030 1 7 10 0) (utc 2030 1 7 11 0) None = [] \<and>
   book (exampleDb [exampleSession 7 12 11 (utc 2030 1 7 10 0) (utc 2030 1 7 11 0)])
     (utc 2030 1 1 0 0) (utc 2030 1 1 0 0) 11 13 ''Physics'' None
     (utc 2030 1 7 10 0) (utc 2030 1 7 11 0) Offline noLocation None None =
   Some (Inr
     ([newSession 100 (bookingData 11 13 ''Physics'' None (utc 2030 1 7 10 0) (utc 2030 1 7 11 0)
         Offline noLocation None) noRecurring],
      insertDoc
        (newSession 100 (bookingData 11 13 ''Physics'' None (utc 2030 1 7 10 0) (utc 2030 1 7 11 0)
           Offline noLocation None) noRecurring)
        (exampleDb [exampleSession 7 12 11 (utc 2030 1 7 10 0) (utc 2030 1 7 11 0)])))"
proof -
  let ?d = "exampleDb [exampleSession 7 12 11 (utc 2030 1 7 10 0) (utc 2030 1 7 11 0)]"
  have c: "checkSchedulingConflicts [exampleSession 7 12 11 (utc 2030 1 7 10 0) (utc 2030 1 7 11 0)]
     11 13 (utc 2030 1 7 10 0) (utc 2030 1 7 11 0) None = []"
    by (simp add: checkSchedulingConflicts_def conflictQuery_def exampleSession_fields)
  have t: "trim ''Physics'' = ''Physics''" by code_simp
  have 1: "0 < length (trim ''Physics'')" by (simp add: t)
  have 2: "utc 2030 1 7 10 0 < utc 2030 1 7 11 0" by code_simp
  have 3: "utc 2030 1 1 0 0 < utc 2030 1 7 10 0" by code_simp
  have 4: "users ?d 13 = Some \<lparr>role = RoleTutor, availability = Some
        [\<lparr>day = ''monday'', startTime = ''09:00'', endTime = ''17:00'', timezone = ''UTC''\<rparr>]\<rparr>"
    by (simp add: exampleDb_fields exampleUsers_def)
  have 5: "role \<lparr>role = RoleTutor, availability = Some
        [\<lparr>day = ''monday'', startTime = ''09:00'', endTime = ''17:00'', timezone = ''UTC''\<rparr>]\<rparr>
        = RoleTutor \<or> role \<lparr>role = RoleTutor, availability = Some
        [\<lparr>day = ''monday'', startTime = ''09:00'', endTime = ''17:00'', timezone = ''UTC''\<rparr>]\<rparr>
        = RoleBoth" by simp
  have 6: "checkSchedulingConflicts (sessions ?d) 11 13 (utc 2030 1 7 10 0) (utc 2030 1 7 11 0) None = []"
    using c by (simp add: exampleDb_fields)
  have 7: "checkTutorAvailability ?d 13 (utc 2030 1 7 10 0) (utc 2030 1 7 11 0)"
    by code_simp
  have 8: "validateSession (newSession (nextId ?d)
           (bookingData 11 13 (trim ''Physics'') None (utc 2030 1 7 10 0) (utc 2030 1 7 11 0) Offline
              noLocation None) noRecurring)"
    by (simp add: validateSession_def newSession_def bookingData_def noRecurring_def)
    show ?thesis
    using book_single [OF 1 2 3 4 5 6 7 8, of "utc 2030 1 1 0 0"] c
    by (simp add: t exampleDb_fields assignMeetingLinks_def exampleSession_fields)
qed


text \<open>
  C7. The availability check compares the weekday of the start and the \<open>HH:mm\<close> strings of
  the start and of the end; the date of the end is not read. Tutor 13 is available on
  Mondays from 09:00 to 17:00. A window from Monday 2030-01-07 10:00 to Tuesday 2030-01-08
  11:00 (25 hours) passes the check and is booked, although the tutor is not available in
  its last hour, Tuesday from 10:00 to 11:00.
\<close>

theorem availability_ignores_end_date:
  "utc 2030 1 8 11 0 - utc 2030 1 7 10 0 = 25 * 60 * 60 * 1000 \<and>
   checkTutorAvailability (exampleDb []) 13 (utc 2030 1 7 10 0) (utc 2030 1 8 11 0) \<and>
   \<not> checkTutorAvailability (exampleDb []) 13 (utc 2030 1 8 10 0) (utc 2030 1 8 11 0) \<and>
   book (exampleDb []) (utc 2030 1 1 0 0) (utc 2030 1 1 0 0) 12 13 ''Physics'' None
     (utc 2030 1 7 10 0) (utc 2030 1 8 11 0) Offline noLocation None None =
   Some (Inr
     ([newSession 100 (bookingData 12 13 ''Physics'' None (utc 2030 1 7 10 0) (utc 2030 1 8 11 0)
         Offline noLocation None) noRecurring],
      insertDoc
        (newSession 100 (bookingData 12 13 ''Physics'' None (utc 2030 1 7 10 0) (utc 2030 1 8 11 0)
           Offline noLocation None) noRecurring)
        (exampleDb [])))"
proof -
  let ?d = "exampleDb []"
  have len: "utc 2030 1 8 11 0 - utc 2030 1 7 10 0 = 25 * 60 * 60 * 1000" by code_simp
  have t: "trim ''Physics'' = ''Physics''" by code_simp
  have 1: "0 < length (trim ''Physics'')" by (simp add: t)
  have 2: "utc 2030 1 7 10 0 < utc 2030 1 8 11 0" by code_simp
  have 3: "utc 2030 1 1 0 0 < utc 2030 1 7 10 0" by code_simp
  have 4: "users ?d 13 = Some \<lparr>role = RoleTutor, availability = Some
        [\<lparr>day = ''monday'', startTime = ''09:00'', endTime = ''17:00'', timezone = ''UTC''\<rparr>]\<rparr>"
    by (simp add: exampleDb_fields exampleUsers_def)
  have 5: "role \<lparr>role = RoleTutor, availability = Some
        [\<lparr>day = ''monday'', startTime = ''09:00'', endTime = ''17:00'', timezone = ''UTC''\<rparr>]\<rparr>
        = RoleTutor \<or> role \<lparr>role = RoleTutor, availability = Some
        [\<lparr>day = ''monday'', startTime = ''09:00'', endTime = ''17:00'', timezone = ''UTC''\<rparr>]\<rparr>
        = RoleBoth" by simp
  have 6: "checkSchedulingConflicts (sessions ?d) 12 13 (utc 2030 1 7 10 0) (utc 2030 1 8 11 0) None = []"
    by (simp add: exampleDb_fields checkSchedulingConflicts_def)
  have 7: "checkTutorAvailability ?d 13 (utc 2030 1 7 10 0) (utc 2030 1 8 11 0)"
    by code_simp
  have 8: "validateSession (newSession (nextId ?d)
           (bookingData 12 13 (trim ''Physics'') None (utc 2030 1 7 10 0) (utc 2030 1 8 11 0) Offline
              noLocation None) noRecurring)"
    by (simp add: validateSession_def newSession_def bookingData_def noRecurring_def)
  have 9: "\<not> checkTutorAvailability ?d 13 (utc 2030 1 8 10 0) (utc 2030 1 8 11 0)"
    by code_simp
  show ?thesis
    using book_single [OF 1 2 3 4 5 6 7 8, of "utc 2030 1 1 0 0"] len 7 9
    by (simp add: t exampleDb_fields assignMeetingLinks_def)
qed

section \<open>Finding and saving a document\<close>

lemma findById_SomeD: "findById d i = Some s \<Longrightarrow> s \<in> set (sessions d) \<and> oid s = i"
  by (auto simp: findById_def find_Some_iff)

lemma find_map_replace:
  "find (\<lambda>x. oid x = i) xs = Some s \<Longrightarrow> oid s' = i \<Longrightarrow>
   find (\<lambda>x. oid x = i) (map (\<lambda>x. if oid x = i then s' else x) xs) = Some s'"
  by (induction xs) (auto split: if_splits)

lemma findById_saveDoc:
  "findById d i = Some s \<Longrightarrow> oid s' = i \<Longrightarrow> findById (saveDoc s' d) i = Some s'"
  by (simp add: findById_def saveDoc_def find_map_replace)

lemma users_saveDoc: "users (saveDoc s d) = users d"
  by (simp add: saveDoc_def)

lemma users_insertDoc: "users (insertDoc s d) = users d"
  by (simp add: insertDoc_def)

lemma populated_present: "users d uid \<noteq> None \<Longrightarrow> populated d uid = Some uid"
  by (cases "users d uid") (simp_all add: populated_def)

lemma populated_SomeD: "populated d uid = Some i \<Longrightarrow> i = uid \<and> users d uid \<noteq> None"
  by (simp add: populated_def split: option.splits)

lemma populatedAccess_NoneD: "populatedAccess d s userId = None \<Longrightarrow> isParticipant s userId"
  by (auto simp: populatedAccess_def populated_def isParticipant_def
      split: option.splits if_splits)

lemma populatedAccess_present:
  "users d (student s) \<noteq> None \<Longrightarrow> users d (tutor s) \<noteq> None \<Longrightarrow>
   populatedAccess d s userId = (if isParticipant s userId then None else Some AccessDenied)"
  by (cases "users d (student s)"; cases "users d (tutor s)")
    (auto simp: populatedAccess_def populated_def isParticipant_def)

lemma exampleUsers_present:
  "exampleUsers 11 \<noteq> None" "exampleUsers 12 \<noteq> None" "exampleUsers 13 \<noteq> None"
  by (simp_all add: exampleUsers_def)

section \<open>Rescheduling\<close>

lemma mondaySession_fields:
  "student mondaySession = 12"
  "tutor mondaySession = 13"
  "oid mondaySession = 7"
  "status mondaySession = Scheduled"
  "scheduledStart mondaySession = utc 2030 1 7 10 0"
  "scheduledEnd mondaySession = utc 2030 1 7 11 0"
  "actualStart mondaySession = None"
  "reminders mondaySession = \<lparr>sent = False, sentAt = None\<rparr>"
  by (simp_all add: mondaySession_def exampleSession_def newSession_def bookingData_def)

lemma reschedule_succeeds:
  assumes "findById d sessionId = Some s"
    and "isParticipant s userId"
    and "status s = Scheduled \<or> status s = Confirmed"
    and "newStart < newEnd" and "now < newStart"
    and "checkSchedulingConflicts (sessions d) (student s) (tutor s) newStart newEnd
           (Some sessionId) = []"
    and "case reason' of None \<Rightarrow> True | Some r \<Rightarrow> length (trim r) \<le> 500"
    and "users d (student s) \<noteq> None" and "users d (tutor s) \<noteq> None"
  shows "reschedule d now sessionId userId newStart newEnd reason' =
           Inr (s\<lparr>scheduledStart := newStart, scheduledEnd := newEnd, status := Scheduled\<rparr>,
                saveDoc (s\<lparr>scheduledStart := newStart, scheduledEnd := newEnd,
                           status := Scheduled\<rparr>) d)"
proof -
  have a: "populatedAccess d s userId = None"
    using assms(2) by (simp add: populatedAccess_present [OF assms(8,9)])
  have p: "populated d (student s) = Some (student s)" "populated d (tutor s) = Some (tutor s)"
    using assms(8,9) by (simp_all add: populated_present)
  show ?thesis
    using assms(1,3-7) by (auto simp: reschedule_def Let_def a p split: option.splits)
qed

lemma reschedule_result:
  assumes "findById d sessionId = Some s"
    and "reschedule d now sessionId userId newStart newEnd reason' = Inr (r, d')"
  shows "isParticipant s userId \<and> (status s = Scheduled \<or> status s = Confirmed) \<and>
         newStart < newEnd \<and> now < newStart \<and>
         checkSchedulingConflicts (sessions d) (student s) (tutor s) newStart newEnd
           (Some sessionId) = [] \<and>
         users d (student s) \<noteq> None \<and> users d (tutor s) \<noteq> None \<and>
         r = s\<lparr>scheduledStart := newStart, scheduledEnd := newEnd, status := Scheduled\<rparr> \<and>
         d' = saveDoc r d"
proof (cases "populatedAccess d s userId")
  case (Some e)
  with assms show ?thesis by (simp add: reschedule_def split: if_splits)
next
  case None
  note a = populatedAccess_NoneD [OF None]
  from assms None show ?thesis
    by (auto simp: reschedule_def Let_def a split: if_splits option.splits
        dest!: populated_SomeD)
qed

text \<open>
  C3, as the route does it. A successful Reschedule of a session that is scheduled or
  confirmed, to a valid future window without conflicts, replaces \<open>scheduledStart\<close> and
  \<open>scheduledEnd\<close> by the new window and sets the status to scheduled. Every other field is
  left as it was: the reminder flag and its timestamp are not cleared. Reschedule does
  succeed when, besides, the caller is a participant and the users collection holds the
  documents of the student and of the tutor.
\<close>

theorem reschedule_replaces_window:
  assumes "findById d sessionId = Some s"
  shows "(\<forall>r d'. reschedule d now sessionId userId newStart newEnd reason' = Inr (r, d') \<longrightarrow>
            (status s = Scheduled \<or> status s = Confirmed) \<and>
            newStart < newEnd \<and> now < newStart \<and>
            checkSchedulingConflicts (sessions d) (student s) (tutor s) newStart newEnd
              (Some sessionId) = [] \<and>
            r = s\<lparr>scheduledStart := newStart, scheduledEnd := newEnd, status := Scheduled\<rparr> \<and>
            d' = saveDoc r d \<and> findById d' sessionId = Some r \<and>
            scheduledStart r = newStart \<and> scheduledEnd r = newEnd \<and> status r = Scheduled \<and>
            reminders r = reminders s) \<and>
         (isParticipant s userId \<and> (status s = Scheduled \<or> status s = Confirmed) \<and>
          newStart < newEnd \<and> now < newStart \<and>
          checkSchedulingConflicts (sessions d) (student s) (tutor s) newStart newEnd
            (Some sessionId) = [] \<and>
          (case reason' of None \<Rightarrow> True | Some r \<Rightarrow> length (trim r) \<le> 500) \<and>
          users d (student s) \<noteq> None \<and> users d (tutor s) \<noteq> None \<longrightarrow>
            reschedule d now sessionId userId newStart newEnd reason' =
              Inr (s\<lparr>scheduledStart := newStart, scheduledEnd := newEnd, status := Scheduled\<rparr>,
                   saveDoc (s\<lparr>scheduledStart := newStart, scheduledEnd := newEnd,
                              status := Scheduled\<rparr>) d))"
proof (intro conjI allI impI)
  fix r d'
  assume ok: "reschedule d now sessionId userId newStart newEnd reason' = Inr (r, d')"
  note R = reschedule_result [OF assms ok]
  let ?s' = "s\<lparr>scheduledStart := newStart, scheduledEnd := newEnd, status := Scheduled\<rparr>"
  have r: "r = ?s'" and d': "d' = saveDoc r d" using R by simp_all
  have "oid ?s' = sessionId" using findById_SomeD [OF assms] by simp
  then have saved: "findById (saveDoc ?s' d) sessionId = Some ?s'"
    using assms by (rule findById_saveDoc [rotated])
  show "status s = Scheduled \<or> status s = Confirmed" using R by simp
  show "newStart < newEnd" using R by simp
  show "now < newStart" using R by simp
  show "checkSchedulingConflicts (sessions d) (student s) (tutor s) newStart newEnd
          (Some sessionId) = []" using R by simp
  show "r = ?s'" by (rule r)
  show "d' = saveDoc r d" by (rule d')
  show "findById d' sessionId = Some r" using saved by (simp add: r d')
  show "scheduledStart r = newStart" by (simp add: r)
  show "scheduledEnd r = newEnd" by (simp add: r)
  show "status r = Scheduled" by (simp add: r)
  show "reminders r = reminders s" by (simp add: r)
next
  assume h: "isParticipant s userId \<and> (status s = Scheduled \<or> status s = Confirmed) \<and>
          newStart < newEnd \<and> now < newStart \<and>
          checkSchedulingConflicts (sessions d) (student s) (tutor s) newStart newEnd
            (Some sessionId) = [] \<and>
          (case reason' of None \<Rightarrow> True | Some r \<Rightarrow> length (trim r) \<le> 500) \<and>
          users d (student s) \<noteq> None \<and> users d (tutor s) \<noteq> None"
  show "reschedule d now sessionId userId newStart newEnd reason' =
      Inr (s\<lparr>scheduledStart := newStart, scheduledEnd := newEnd, status := Scheduled\<rparr>,
           saveDoc (s\<lparr>scheduledStart := newStart, scheduledEnd := newEnd,
                      status := Scheduled\<rparr>) d)"
    by (rule reschedule_succeeds [OF assms]) (simp_all add: h)
qed

theorem reschedule_replaces_window_witness:
  "findById (exampleDb [confirmedSession]) 7 = Some confirmedSession \<and>
   status confirmedSession = Confirmed \<and>
   reschedule (exampleDb [confirmedSession]) (utc 2030 1 6 13 0) 7 12
       (utc 2030 1 14 10 0) (utc 2030 1 14 11 0) None =
     Inr (confirmedSession\<lparr>scheduledStart := utc 2030 1 14 10 0,
            scheduledEnd := utc 2030 1 14 11 0, status := Scheduled\<rparr>,
          saveDoc (confirmedSession\<lparr>scheduledStart := utc 2030 1 14 10 0,
            scheduledEnd := utc 2030 1 14 11 0, status := Scheduled\<rparr>)
            (exampleDb [confirmedSession])) \<and>
   findById
     (saveDoc (confirmedSession\<lparr>scheduledStart := utc 2030 1 14 10 0,
            scheduledEnd := utc 2030 1 14 11 0, status := Scheduled\<rparr>)
        (exampleDb [confirmedSession])) 7 =
     Some (confirmedSession\<lparr>scheduledStart := utc 2030 1 14 10 0,
            scheduledEnd := utc 2030 1 14 11 0, status := Scheduled\<rparr>)"
proof -
  let ?d = "exampleDb [confirmedSession]"
  have 1: "findById ?d 7 = Some confirmedSession"
    by (simp add: findById_def exampleDb_fields confirmedSession_def mondaySession_fields)
  have 2: "isParticipant confirmedSession 12"
    by (simp add: isParticipant_def confirmedSession_def mondaySession_fields)
  have 3: "status confirmedSession = Scheduled \<or> status confirmedSession = Confirmed"
    by (simp add: confirmedSession_def)
  have 4: "utc 2030 1 14 10 0 < utc 2030 1 14 11 0" by code_simp
  have 5: "utc 2030 1 6 13 0 < utc 2030 1 14 10 0" by code_simp
  have 6: "checkSchedulingConflicts (sessions ?d) (student confirmedSession)
      (tutor confirmedSession) (utc 2030 1 14 10 0) (utc 2030 1 14 11 0) (Some 7) = []"
    by (simp add: checkSchedulingConflicts_def conflictQuery_def exampleDb_fields
        confirmedSession_def mondaySession_fields)
  have 7: "case None :: string option of None \<Rightarrow> True | Some r \<Rightarrow> length (trim r) \<le> 500"
    by simp
  have 8: "users ?d (student confirmedSession) \<noteq> None"
    "users ?d (tutor confirmedSession) \<noteq> None"
    by (simp_all add: exampleDb_fields confirmedSession_def mondaySession_fields
        exampleUsers_present)
  note T = reschedule_replaces_window [OF 1, of "utc 2030 1 6 13 0" 12 "utc 2030 1 14 10 0"
      "utc 2030 1 14 11 0" None]
  have E: "reschedule ?d (utc 2030 1 6 13 0) 7 12 (utc 2030 1 14 10 0) (utc 2030 1 14 11 0) None =
     Inr (confirmedSession\<lparr>scheduledStart := utc 2030 1 14 10 0,
            scheduledEnd := utc 2030 1 14 11 0, status := Scheduled\<rparr>,
          saveDoc (confirmedSession\<lparr>scheduledStart := utc 2030 1 14 10 0,
            scheduledEnd := utc 2030 1 14 11 0, status := Scheduled\<rparr>) ?d)"
    by (rule T [THEN conjunct2, rule_format]) (intro conjI 2 3 4 5 6 7 8)
  from T [THEN conjunct1, rule_format, OF E]
  have "findById
     (saveDoc (confirmedSession\<lparr>scheduledStart := utc 2030 1 14 10 0,
            scheduledEnd := utc 2030 1 14 11 0, status := Scheduled\<rparr>) ?d) 7 =
     Some (confirmedSession\<lparr>scheduledStart := utc 2030 1 14 10 0,
            scheduledEnd := utc 2030 1 14 11 0, status := Scheduled\<rparr>)"
    by (elim conjE)
  with 1 E show ?thesis by (simp add: confirmedSession_def)
qed

text \<open>
  The claim as written fails: session 7 was reminded on Sunday 12:00 and is then moved to
  the following Monday. The rescheduled session still carries the flag, and the sweep of
  Sunday 2030-01-13 12:00, 22 hours before its new start, does not select it.
\<close>

theorem reschedule_keeps_reminder_flag:
  "reschedule (exampleDb [remindedSession]) (utc 2030 1 6 13 0) 7 12
       (utc 2030 1 14 10 0) (utc 2030 1 14 11 0) None =
     Inr (remindedSession\<lparr>scheduledStart := utc 2030 1 14 10 0,
            scheduledEnd := utc 2030 1 14 11 0, status := Scheduled\<rparr>,
          saveDoc (remindedSession\<lparr>scheduledStart := utc 2030 1 14 10 0,
            scheduledEnd := utc 2030 1 14 11 0, status := Scheduled\<rparr>)
            (exampleDb [remindedSession])) \<and>
   sent (reminders (remindedSession\<lparr>scheduledStart := utc 2030 1 14 10 0,
            scheduledEnd := utc 2030 1 14 11 0, status := Scheduled\<rparr>)) \<and>
   utc 2030 1 13 12 0 \<le> utc 2030 1 14 10 0 \<and>
   utc 2030 1 14 10 0 \<le> utc 2030 1 13 12 0 + 24 * 60 * 60 * 1000 \<and>
   sessionsToRemind
     (saveDoc (remindedSession\<lparr>scheduledStart := utc 2030 1 14 10 0,
            scheduledEnd := utc 2030 1 14 11 0, status := Scheduled\<rparr>)
        (exampleDb [remindedSession]))
     (utc 2030 1 13 12 0) (utc 2030 1 13 12 0) = []"
proof -
  let ?d = "exampleDb [remindedSession]"
  have f: "student remindedSession = 12" "tutor remindedSession = 13" "oid remindedSession = 7"
    "status remindedSession = Scheduled" "sent (reminders remindedSession)"
    by (simp_all add: remindedSession_def markReminded_def mondaySession_fields)
  have 1: "findById ?d 7 = Some remindedSession"
    by (simp add: findById_def exampleDb_fields f)
  have 2: "isParticipant remindedSession 12"
    by (simp add: isParticipant_def f)
  have 3: "status remindedSession = Scheduled \<or> status remindedSession = Confirmed"
    by (simp add: f)
  have 4: "utc 2030 1 14 10 0 < utc 2030 1 14 11 0" by code_simp
  have 5: "utc 2030 1 6 13 0 < utc 2030 1 14 10 0" by code_simp
  have 6: "checkSchedulingConflicts (sessions ?d) (student remindedSession)
      (tutor remindedSession) (utc 2030 1 14 10 0) (utc 2030 1 14 11 0) (Some 7) = []"
    by (simp add: checkSchedulingConflicts_def conflictQuery_def exampleDb_fields f)
  have 7: "case None :: string option of None \<Rightarrow> True | Some r \<Rightarrow> length (trim r) \<le> 500"
    by simp
  have 8: "utc 2030 1 13 12 0 \<le> utc 2030 1 14 10 0" by code_simp
  have 9: "utc 2030 1 14 10 0 \<le> utc 2030 1 13 12 0 + 24 * 60 * 60 * 1000" by code_simp
  have u: "users ?d (student remindedSession) \<noteq> None"
    "users ?d (tutor remindedSession) \<noteq> None"
    by (simp_all add: exampleDb_fields f exampleUsers_present)
  show ?thesis
    using reschedule_succeeds [OF 1 2 3 4 5 6 7 u] 8 9
    by (simp add: sessionsToRemind_def saveDoc_def exampleDb_fields f)
qed

subsection \<open>The conflict check of a rescheduling\<close>

text \<open>
  C1. The conflict check does not report every overlapping active session of the same
  participant: it matches a stored session by \<open>student == studentId\<close> or
  \<open>tutor == tutorId\<close> only. User 11 tutors user 12 in session 7, Monday 2030-01-07 from
  10:00 to 11:00, and studies with tutor 13 in session 8 a week later. User 11 moves
  session 8 to Monday 2030-01-07 from 10:00 to 11:00. Session 7 is scheduled and its window
  overlaps the new one (it is the same window), yet the check returns nothing and the
  rescheduling is done: user 11 now has two sessions over the same hour.
\<close>

theorem conflict_check_misses_tutoring_session:
  "tutor (exampleSession 7 12 11 (utc 2030 1 7 10 0) (utc 2030 1 7 11 0)) = 11 \<and>
   student (exampleSession 8 11 13 (utc 2030 1 14 10 0) (utc 2030 1 14 11 0)) = 11 \<and>
   status (exampleSession 7 12 11 (utc 2030 1 7 10 0) (utc 2030 1 7 11 0)) = Scheduled \<and>
   scheduledStart (exampleSession 7 12 11 (utc 2030 1 7 10 0) (utc 2030 1 7 11 0))
     < utc 2030 1 7 11 0 \<and>
   scheduledEnd (exampleSession 7 12 11 (utc 2030 1 7 10 0) (utc 2030 1 7 11 0))
     > utc 2030 1 7 10 0 \<and>
   checkSchedulingConflicts
     [exampleSession 7 12 11 (utc 2030 1 7 10 0) (utc 2030 1 7 11 0),
      exampleSession 8 11 13 (utc 2030 1 14 10 0) (utc 2030 1 14 11 0)]
     11 13 (utc 2030 1 7 10 0) (utc 2030 1 7 11 0) (Some 8) = [] \<and>
   reschedule
     (exampleDb [exampleSession 7 12 11 (utc 2030 1 7 10 0) (utc 2030 1 7 11 0),
                 exampleSession 8 11 13 (utc 2030 1 14 10 0) (utc 2030 1 14 11 0)])
     (utc 2030 1 6 13 0) 8 11 (utc 2030 1 7 10 0) (utc 2030 1 7 11 0) None =
   Inr (exampleSession 8 11 13 (utc 2030 1 14 10 0) (utc 2030 1 14 11 0)
          \<lparr>scheduledStart := utc 2030 1 7 10 0, scheduledEnd := utc 2030 1 7 11 0,
           status := Scheduled\<rparr>,
        saveDoc
          (exampleSession 8 11 13 (utc 2030 1 14 10 0) (utc 2030 1 14 11 0)
             \<lparr>scheduledStart := utc 2030 1 7 10 0, scheduledEnd := utc 2030 1 7 11 0,
              status := Scheduled\<rparr>)
          (exampleDb [exampleSession 7 12 11 (utc 2030 1 7 10 0) (utc 2030 1 7 11 0),
                      exampleSession 8 11 13 (utc 2030 1 14 10 0) (utc 2030 1 14 11 0)]))"
proof -
  let ?a = "exampleSession 7 12 11 (utc 2030 1 7 10 0) (utc 2030 1 7 11 0)"
  let ?b = "exampleSession 8 11 13 (utc 2030 1 14 10 0) (utc 2030 1 14 11 0)"
  let ?d = "exampleDb [?a, ?b]"
  have c: "checkSchedulingConflicts [?a, ?b] 11 13 (utc 2030 1 7 10 0) (utc 2030 1 7 11 0)
      (Some 8) = []"
    by (simp add: checkSchedulingConflicts_def conflictQuery_def exampleSession_fields)
  have 1: "findById ?d 8 = Some ?b"
    by (simp add: findById_def exampleDb_fields exampleSession_fields)
  have 2: "isParticipant ?b 11" by (simp add: isParticipant_def exampleSession_fields)
  have 3: "status ?b = Scheduled \<or> status ?b = Confirmed"
    by (simp add: exampleSession_fields)
  have 4: "utc 2030 1 7 10 0 < utc 2030 1 7 11 0" by code_simp
  have 5: "utc 2030 1 6 13 0 < utc 2030 1 7 10 0" by code_simp
  have 6: "checkSchedulingConflicts (sessions ?d) (student ?b) (tutor ?b) (utc 2030 1 7 10 0)
      (utc 2030 1 7 11 0) (Some 8) = []"
    using c by (simp add: exampleDb_fields exampleSession_fields)
  have 7: "case None :: string option of None \<Rightarrow> True | Some r \<Rightarrow> length (trim r) \<le> 500"
    by simp
  have u: "users ?d (student ?b) \<noteq> None" "users ?d (tutor ?b) \<noteq> None"
    by (simp_all add: exampleDb_fields exampleSession_fields exampleUsers_present)
  show ?thesis
    using reschedule_succeeds [OF 1 2 3 4 5 6 7 u] c 4
    by (simp add: exampleSession_fields)
qed


section \<open>Starting\<close>

lemma minutes_until_gt_15:
  "(real_of_int x / (1000 * 60) > 15) = (x > 15 * 60 * 1000)"
proof -
  have "(real_of_int x / (1000 * 60) > 15) = (real_of_int x > real_of_int 900000)"
    by (simp add: field_simps)
  also have "\<dots> = (x > 900000)" by (simp only: of_int_less_iff)
  finally show ?thesis by simp
qed

text \<open>
  C5. For a session that is scheduled or confirmed and a caller who is a participant,
  Start fails exactly when \<open>scheduledStart - now\<close> exceeds 15 minutes, and then with the
  too-early error; otherwise (at exactly 15 minutes, and at any later time) it succeeds,
  sets the status to ongoing and \<open>actualStart\<close> to the clock it reads, and saves the session.
\<close>

theorem start_fifteen_minute_rule:
  assumes "findById d sessionId = Some s"
    and "isParticipant s userId"
    and "status s = Scheduled \<or> status s = Confirmed"
  shows "(isl (startSession d now startedAt sessionId userId) \<longleftrightarrow>
            scheduledStart s - now > 15 * 60 * 1000) \<and>
         (scheduledStart s - now > 15 * 60 * 1000 \<longrightarrow>
            startSession d now startedAt sessionId userId = Inl TooEarlyToStart) \<and>
         (scheduledStart s - now \<le> 15 * 60 * 1000 \<longrightarrow>
            startSession d now startedAt sessionId userId =
              Inr (s\<lparr>status := Ongoing, actualStart := Some startedAt\<rparr>,
                   saveDoc (s\<lparr>status := Ongoing, actualStart := Some startedAt\<rparr>) d) \<and>
            findById (saveDoc (s\<lparr>status := Ongoing, actualStart := Some startedAt\<rparr>) d)
              sessionId = Some (s\<lparr>status := Ongoing, actualStart := Some startedAt\<rparr>))"
proof -
  let ?s' = "s\<lparr>status := Ongoing, actualStart := Some startedAt\<rparr>"
  have "oid ?s' = sessionId" using findById_SomeD [OF assms(1)] by simp
  then have saved: "findById (saveDoc ?s' d) sessionId = Some ?s'"
    using assms(1) by (rule findById_saveDoc [rotated])
  have early: "startSession d now startedAt sessionId userId = Inl TooEarlyToStart"
    if "scheduledStart s - now > 15 * 60 * 1000"
    using assms that by (auto simp: startSession_def minutes_until_gt_15)
  have ok: "startSession d now startedAt sessionId userId = Inr (?s', saveDoc ?s' d)"
    if "scheduledStart s - now \<le> 15 * 60 * 1000"
    using assms that by (auto simp: startSession_def minutes_until_gt_15 Let_def)
  show ?thesis
  proof (cases "scheduledStart s - now > 15 * 60 * 1000")
    case True
    then show ?thesis using early by simp
  next
    case False
    then have "scheduledStart s - now \<le> 15 * 60 * 1000" by simp
    with ok [OF this] saved False show ?thesis by simp
  qed
qed

theorem start_fifteen_minute_rule_witness:
  "findById (exampleDb [mondaySession]) 7 = Some mondaySession \<and>
   scheduledStart mondaySession - utc 2030 1 7 9 45 = 15 * 60 * 1000 \<and>
   startSession (exampleDb [mondaySession]) (utc 2030 1 7 9 45) (utc 2030 1 7 9 45) 7 12 =
     Inr (mondaySession\<lparr>status := Ongoing, actualStart := Some (utc 2030 1 7 9 45)\<rparr>,
          saveDoc (mondaySession\<lparr>status := Ongoing, actualStart := Some (utc 2030 1 7 9 45)\<rparr>)
            (exampleDb [mondaySession])) \<and>
   startSession (exampleDb [mondaySession]) (utc 2030 1 7 9 45 - 1) (utc 2030 1 7 9 45) 7 12 =
     Inl TooEarlyToStart \<and>
   startSession (exampleDb [mondaySession]) (utc 2031 1 7 9 45) (utc 2031 1 7 9 45) 7 13 =
     Inr (mondaySession\<lparr>status := Ongoing, actualStart := Some (utc 2031 1 7 9 45)\<rparr>,
          saveDoc (mondaySession\<lparr>status := Ongoing, actualStart := Some (utc 2031 1 7 9 45)\<rparr>)
            (exampleDb [mondaySession]))"
proof -
  let ?d = "exampleDb [mondaySession]"
  have 1: "findById ?d 7 = Some mondaySession"
    by (simp add: findById_def exampleDb_fields mondaySession_fields)
  have 2: "isParticipant mondaySession 12" "isParticipant mondaySession 13"
    by (simp_all add: isParticipant_def mondaySession_fields)
  have 3: "status mondaySession = Scheduled \<or> status mondaySession = Confirmed"
    by (simp add: mondaySession_fields)
  have a: "utc 2030 1 7 10 0 - utc 2030 1 7 9 45 = 15 * 60 * 1000" by code_simp
  have c: "utc 2030 1 7 10 0 - utc 2031 1 7 9 45 \<le> 15 * 60 * 1000" by code_simp
  show ?thesis
    using start_fifteen_minute_rule [OF 1 2(1) 3, of "utc 2030 1 7 9 45" "utc 2030 1 7 9 45"]
      start_fifteen_minute_rule [OF 1 2(1) 3, of "utc 2030 1 7 9 45 - 1" "utc 2030 1 7 9 45"]
      start_fifteen_minute_rule [OF 1 2(2) 3, of "utc 2031 1 7 9 45" "utc 2031 1 7 9 45"]
      1 a c
    by (simp add: mondaySession_fields)
qed


section \<open>Ending\<close>

lemma reschedule_needs_open_status:
  "findById d sessionId = Some s \<Longrightarrow> status s \<noteq> Scheduled \<Longrightarrow> status s \<noteq> Confirmed \<Longrightarrow>
   isl (reschedule d now sessionId userId newStart newEnd reason')"
  by (simp add: reschedule_def split: option.splits)

lemma cancel_needs_open_status:
  "findById d sessionId = Some s \<Longrightarrow> status s \<noteq> Scheduled \<Longrightarrow> status s \<noteq> Confirmed \<Longrightarrow>
   isl (cancel toFixed1 d now cancelledAt' sessionId userId reason')"
  by (simp add: cancel_def split: option.splits)

lemma start_needs_open_status:
  "findById d sessionId = Some s \<Longrightarrow> status s \<noteq> Scheduled \<Longrightarrow> status s \<noteq> Confirmed \<Longrightarrow>
   isl (startSession d now startedAt sessionId userId)"
  by (simp add: startSession_def)

lemma end_needs_ongoing:
  "findById d sessionId = Some s \<Longrightarrow> status s \<noteq> Ongoing \<Longrightarrow>
   isl (endSession d now sessionId userId notes')"
  by (simp add: endSession_def split: option.splits)

lemma endSession_InrD:
  assumes "endSession d now sessionId userId notes' = Inr (r, d')"
  shows "\<exists>s. findById d sessionId = Some s \<and> status s = Ongoing \<and>
           status (endedSession r) = Completed \<and> actualEnd (endedSession r) = Some now \<and>
           actualStart (endedSession r) = actualStart s \<and> oid (endedSession r) = sessionId \<and>
           duration r = map_option (\<lambda>a. now - a) (actualStart s) \<and>
           d' = saveDoc (endedSession r) d"
proof (cases "findById d sessionId")
  case None
  with assms show ?thesis by (simp add: endSession_def split: if_splits)
next
  case (Some s)
  have "oid s = sessionId" using findById_SomeD [OF Some] by simp
  with assms Some show ?thesis
    by (auto simp: endSession_def Let_def split: if_splits option.splits)
qed

section \<open>The reminder sweep\<close>

lemma oid_markReminded: "oid (markReminded t s) = oid s"
  by (simp add: markReminded_def)

lemma sent_markReminded:
  "sent (reminders (markReminded t s))" "sentAt (reminders (markReminded t s)) = Some t"
  by (simp_all add: markReminded_def)

lemma in_sessionsToRemind_iff:
  "s \<in> set (sessionsToRemind d dateNow queryNow) \<longleftrightarrow>
     s \<in> set (sessions d) \<and> queryNow \<le> scheduledStart s \<and>
     scheduledStart s \<le> dateNow + 24 * 60 * 60 * 1000 \<and>
     (status s = Scheduled \<or> status s = Confirmed) \<and> \<not> sent (reminders s)"
  by (auto simp: sessionsToRemind_def)

lemma remindLoop_ids: "map oid (sessions (remindLoop clock k ss d)) = map oid (sessions d)"
proof (induction ss arbitrary: k d)
  case Nil
  show ?case by simp
next
  case (Cons s ss)
  have "map oid (sessions (saveDoc (markReminded (clock k) s) d)) = map oid (sessions d)"
    by (simp add: saveDoc_def oid_markReminded comp_def cong: map_cong)
  with Cons show ?case by simp
qed

lemma remindLoop_docs:
  "x \<in> set (sessions (remindLoop clock k ss d)) \<Longrightarrow>
     (x \<in> set (sessions d) \<and> oid x \<notin> oid ` set ss) \<or>
     (\<exists>j<length ss. x = markReminded (clock (k + j)) (ss ! j))"
proof (induction ss arbitrary: k d)
  case Nil
  then show ?case by simp
next
  case (Cons s ss)
  let ?d1 = "saveDoc (markReminded (clock k) s) d"
  from Cons.prems have "x \<in> set (sessions (remindLoop clock (Suc k) ss ?d1))" by simp
  from Cons.IH [OF this]
  consider (old) "x \<in> set (sessions ?d1)" "oid x \<notin> oid ` set ss"
    | (new) j where "j < length ss" "x = markReminded (clock (Suc k + j)) (ss ! j)"
    by blast
  then show ?case
  proof cases
    case old
    from old(1) have "x = markReminded (clock k) s \<or> (x \<in> set (sessions d) \<and> oid x \<noteq> oid s)"
      by (auto simp: saveDoc_def oid_markReminded split: if_splits)
    then show ?thesis
    proof
      assume "x = markReminded (clock k) s"
      then have "0 < length (s # ss) \<and> x = markReminded (clock (k + 0)) ((s # ss) ! 0)" by simp
      then show ?thesis by blast
    next
      assume "x \<in> set (sessions d) \<and> oid x \<noteq> oid s"
      with old(2) show ?thesis by auto
    qed
  next
    case new
    then have "Suc j < length (s # ss) \<and> x = markReminded (clock (k + Suc j)) ((s # ss) ! Suc j)"
      by simp
    then show ?thesis by blast
  qed
qed

text \<open>
  C8. A sweep sends reminders for exactly the stored sessions that start between the
  query's clock and \<open>Date.now()\<close> plus 24 hours, are scheduled or confirmed, and have the flag
  unset. Afterwards every stored session with the id of a selected one is a selected
  session marked: its flag is set and its \<open>sentAt\<close> is the clock read when it was marked; the
  ids in the collection are unchanged. A session whose flag is set is never selected, so a
  second sweep, run on the state the first one left, selects no session with the id of one
  the first sweep reminded.
\<close>

theorem reminder_sweep_once:
  "(\<forall>s. s \<in> set (fst (reminderSweep d dateNow queryNow clock)) \<longleftrightarrow>
        s \<in> set (sessions d) \<and> queryNow \<le> scheduledStart s \<and>
        scheduledStart s \<le> dateNow + 24 * 60 * 60 * 1000 \<and>
        (status s = Scheduled \<or> status s = Confirmed) \<and> \<not> sent (reminders s)) \<and>
   map oid (sessions (snd (reminderSweep d dateNow queryNow clock))) = map oid (sessions d) \<and>
   (\<forall>s \<in> set (fst (reminderSweep d dateNow queryNow clock)).
      \<forall>x \<in> set (sessions (snd (reminderSweep d dateNow queryNow clock))).
        oid x = oid s \<longrightarrow>
          (\<exists>j < length (fst (reminderSweep d dateNow queryNow clock)).
             x = markReminded (clock j) (fst (reminderSweep d dateNow queryNow clock) ! j)) \<and>
          sent (reminders x) \<and> sentAt (reminders x) \<noteq> None) \<and>
   (\<forall>x \<in> set (sessions d). sent (reminders x) \<longrightarrow>
      x \<notin> set (fst (reminderSweep d dateNow queryNow clock))) \<and>
   (\<forall>s \<in> set (fst (reminderSweep d dateNow queryNow clock)).
      \<forall>s2 \<in> set (fst (reminderSweep (snd (reminderSweep d dateNow queryNow clock))
                          dateNow2 queryNow2 clock2)).
        oid s2 \<noteq> oid s)"
proof -
  let ?sel = "sessionsToRemind d dateNow queryNow"
  let ?d' = "remindLoop clock 0 ?sel d"
  have marked: "\<exists>j<length ?sel. x = markReminded (clock j) (?sel ! j)"
    if "x \<in> set (sessions ?d')" "s \<in> set ?sel" "oid x = oid s" for x s
    using remindLoop_docs [OF that(1)] that(2,3) by auto
  have a: "\<forall>s. s \<in> set ?sel \<longleftrightarrow>
        s \<in> set (sessions d) \<and> queryNow \<le> scheduledStart s \<and>
        scheduledStart s \<le> dateNow + 24 * 60 * 60 * 1000 \<and>
        (status s = Scheduled \<or> status s = Confirmed) \<and> \<not> sent (reminders s)"
    by (simp add: in_sessionsToRemind_iff)
  have b: "map oid (sessions ?d') = map oid (sessions d)"
    by (rule remindLoop_ids)
  have c: "\<forall>s \<in> set ?sel. \<forall>x \<in> set (sessions ?d'). oid x = oid s \<longrightarrow>
          (\<exists>j < length ?sel. x = markReminded (clock j) (?sel ! j)) \<and>
          sent (reminders x) \<and> sentAt (reminders x) \<noteq> None"
  proof (intro ballI impI)
    fix s x assume "s \<in> set ?sel" "x \<in> set (sessions ?d')" "oid x = oid s"
    from marked [OF this(2,1,3)] obtain j where
      j: "j < length ?sel" "x = markReminded (clock j) (?sel ! j)" by blast
    then show "(\<exists>j < length ?sel. x = markReminded (clock j) (?sel ! j)) \<and>
          sent (reminders x) \<and> sentAt (reminders x) \<noteq> None"
      by (auto simp: sent_markReminded)
  qed
  have e: "\<forall>x \<in> set (sessions d). sent (reminders x) \<longrightarrow> x \<notin> set ?sel"
    by (simp add: in_sessionsToRemind_iff)
  have f: "\<forall>s \<in> set ?sel. \<forall>s2 \<in> set (sessionsToRemind ?d' dateNow2 queryNow2). oid s2 \<noteq> oid s"
  proof (intro ballI notI)
    fix s s2 assume s: "s \<in> set ?sel" and s2: "s2 \<in> set (sessionsToRemind ?d' dateNow2 queryNow2)"
      and eq: "oid s2 = oid s"
    from s2 have in': "s2 \<in> set (sessions ?d')" and unsent: "\<not> sent (reminders s2)"
      by (simp_all add: in_sessionsToRemind_iff)
    from marked [OF in' s eq] show False using unsent by (auto simp: sent_markReminded)
  qed
  show ?thesis
    unfolding reminderSweep_def fst_conv snd_conv using a b c e f by blast
qed


theorem reminder_sweep_once_witness:
  "fst (reminderSweep (exampleDb [mondaySession]) (utc 2030 1 6 12 0) (utc 2030 1 6 12 0)
          (\<lambda>k. utc 2030 1 6 12 0)) = [mondaySession] \<and>
   sessions (snd (reminderSweep (exampleDb [mondaySession]) (utc 2030 1 6 12 0)
          (utc 2030 1 6 12 0) (\<lambda>k. utc 2030 1 6 12 0))) = [remindedSession] \<and>
   sent (reminders remindedSession) \<and>
   sentAt (reminders remindedSession) = Some (utc 2030 1 6 12 0) \<and>
   fst (reminderSweep
          (snd (reminderSweep (exampleDb [mondaySession]) (utc 2030 1 6 12 0)
                  (utc 2030 1 6 12 0) (\<lambda>k. utc 2030 1 6 12 0)))
          (utc 2030 1 6 12 15) (utc 2030 1 6 12 15) (\<lambda>k. utc 2030 1 6 12 15)) = []"
proof -
  let ?d = "exampleDb [mondaySession]"
  let ?T = "utc 2030 1 6 12 0"
  have 1: "?T \<le> utc 2030 1 7 10 0" by code_simp
  have 2: "utc 2030 1 7 10 0 \<le> ?T + 24 * 60 * 60 * 1000" by code_simp
  have 3: "utc 2030 1 6 12 15 \<le> utc 2030 1 7 10 0" by code_simp
  have 4: "utc 2030 1 7 10 0 \<le> utc 2030 1 6 12 15 + 24 * 60 * 60 * 1000" by code_simp
  have sel: "fst (reminderSweep ?d ?T ?T (\<lambda>k. ?T)) = [mondaySession]"
    using 1 2 by (simp add: reminderSweep_def sessionsToRemind_def exampleDb_fields
        mondaySession_fields)
  have d': "sessions (snd (reminderSweep ?d ?T ?T (\<lambda>k. ?T))) = [remindedSession]"
    using 1 2 by (simp add: reminderSweep_def sessionsToRemind_def exampleDb_fields
        mondaySession_fields saveDoc_def remindedSession_def oid_markReminded)
  have in2: "s2 \<in> set (fst (reminderSweep (snd (reminderSweep ?d ?T ?T (\<lambda>k. ?T)))
          (utc 2030 1 6 12 15) (utc 2030 1 6 12 15) (\<lambda>k. utc 2030 1 6 12 15))) \<Longrightarrow>
        oid s2 = 7" for s2
    by (auto simp: reminderSweep_def in_sessionsToRemind_iff d' [unfolded reminderSweep_def snd_conv]
        remindedSession_def oid_markReminded mondaySession_fields)
  let ?L = "fst (reminderSweep (snd (reminderSweep ?d ?T ?T (\<lambda>k. ?T)))
          (utc 2030 1 6 12 15) (utc 2030 1 6 12 15) (\<lambda>k. utc 2030 1 6 12 15))"
  have ne: "\<forall>s2 \<in> set ?L. oid s2 \<noteq> 7"
    using reminder_sweep_once [of ?d ?T ?T "\<lambda>k. ?T" "utc 2030 1 6 12 15" "utc 2030 1 6 12 15"
        "\<lambda>k. utc 2030 1 6 12 15"]
    by (simp add: sel mondaySession_fields)
  have "?L = []"
  proof (cases ?L)
    case Nil
    then show ?thesis .
  next
    case (Cons a l)
    then have "a \<in> set ?L" by simp
    with in2 [OF this] ne show ?thesis by blast
  qed
  then show ?thesis
    using sel d' by (simp add: remindedSession_def sent_markReminded)
qed


section \<open>What the routes write\<close>

lemma sessions_saveDoc: "x \<in> set (sessions (saveDoc s d)) \<Longrightarrow> x = s \<or> x \<in> set (sessions d)"
  by (auto simp: saveDoc_def split: if_splits)

lemma sessions_insertDoc: "set (sessions (insertDoc s d)) = insert s (set (sessions d))"
  by (simp add: insertDoc_def)

lemma recurringLoop_docs:
  assumes "recurringLoop sd rc e dur parentId cur acc d = Some y"
  shows "(\<forall>x \<in> set (fst y). x \<in> set acc \<or> (\<exists>i t. x = recurringChild sd rc dur parentId i t)) \<and>
         (\<forall>x \<in> set (sessions (snd y)).
            x \<in> set (sessions d) \<or> (\<exists>i t. x = recurringChild sd rc dur parentId i t))"
proof (rule recurringLoop.raw_induct
    [where P = "\<lambda>sd rc e dur parentId cur acc d y.
       (\<forall>x \<in> set (fst y). x \<in> set acc \<or> (\<exists>i t. x = recurringChild sd rc dur parentId i t)) \<and>
       (\<forall>x \<in> set (sessions (snd y)).
          x \<in> set (sessions d) \<or> (\<exists>i t. x = recurringChild sd rc dur parentId i t))",
     OF _ assms])
  fix loop :: "sessionData \<Rightarrow> recurring_doc \<Rightarrow> date \<Rightarrow> int \<Rightarrow> objectId \<Rightarrow> date \<Rightarrow> session list
    \<Rightarrow> db \<Rightarrow> (session list \<times> db) option"
  fix sd :: sessionData and rc :: recurring_doc and e :: date and dur :: int
    and parentId :: objectId and cur :: date and acc :: "session list" and d :: db
    and y :: "session list \<times> db"
  let ?next = "stepByFrequency (frequency rc) cur"
  let ?child = "recurringChild sd rc dur parentId (nextId d) ?next"
  assume IH: "\<And>sd rc e dur parentId cur acc d y.
     loop sd rc e dur parentId cur acc d = Some y \<Longrightarrow>
       (\<forall>x \<in> set (fst y). x \<in> set acc \<or> (\<exists>i t. x = recurringChild sd rc dur parentId i t)) \<and>
       (\<forall>x \<in> set (sessions (snd y)).
          x \<in> set (sessions d) \<or> (\<exists>i t. x = recurringChild sd rc dur parentId i t))"
  assume body: "(if cur < e then
        (if ?next < e then
           loop sd rc e dur parentId ?next (acc @ [?child]) (insertDoc ?child d)
         else loop sd rc e dur parentId ?next acc d)
      else Some (acc, d)) = Some y"
  show "(\<forall>x \<in> set (fst y). x \<in> set acc \<or> (\<exists>i t. x = recurringChild sd rc dur parentId i t)) \<and>
       (\<forall>x \<in> set (sessions (snd y)).
          x \<in> set (sessions d) \<or> (\<exists>i t. x = recurringChild sd rc dur parentId i t))"
  proof (cases "cur < e")
    case False
    with body have "y = (acc, d)" by simp
    then show ?thesis by simp
  next
    case True
    show ?thesis
    proof (cases "?next < e")
      case False
      with True body have "loop sd rc e dur parentId ?next acc d = Some y" by simp
      from IH [OF this] show ?thesis .
    next
      case step: True
      with True body
      have "loop sd rc e dur parentId ?next (acc @ [?child]) (insertDoc ?child d) = Some y"
        by simp
      from IH [OF this] show ?thesis
        by (auto simp: sessions_insertDoc)
    qed
  qed
qed

lemma status_newSession: "status (newSession i sd rc) = Scheduled"
  by (simp add: newSession_def)

lemma status_recurringChild: "status (recurringChild sd rc dur parentId i t) = Scheduled"
  by (simp add: recurringChild_def status_newSession)

lemma status_withMeetingLink: "status (withMeetingLink s) = status s"
  by (simp add: withMeetingLink_def)

lemma status_markReminded: "status (markReminded t s) = status s"
  by (simp add: markReminded_def)

lemma createRecurringSessions_docs:
  assumes "createRecurringSessions d momentNow sd rc = Some (Inr (ss, d'))"
  shows "(\<forall>x \<in> set ss. status x = Scheduled) \<and>
         (\<forall>x \<in> set (sessions d'). x \<in> set (sessions d) \<or> status x = Scheduled)"
proof -
  let ?parent = "newSession (nextId d) sd
      \<lparr>isRecurring = True, frequency = frequency rc, endDate = endDate rc, parentSession = None\<rparr>"
  let ?e = "case endDate rc of None \<Rightarrow> momentNow | Some e \<Rightarrow> e"
  from assms have
    "recurringLoop sd rc ?e (scheduledEnd sd - scheduledStart sd) (oid ?parent) (scheduledStart sd)
       [?parent] (insertDoc ?parent d) = Some (ss, d')"
    by (auto simp: createRecurringSessions_def Let_def split: if_splits)
  from recurringLoop_docs [OF this] show ?thesis
    by (auto simp: sessions_insertDoc status_newSession status_recurringChild)
qed

lemma createSingleSession_docs:
  assumes "createSingleSession d sd = Inr (ss, d')"
  shows "(\<forall>x \<in> set ss. status x = Scheduled) \<and>
         (\<forall>x \<in> set (sessions d'). x \<in> set (sessions d) \<or> status x = Scheduled)"
  using assms
  by (auto simp: createSingleSession_def sessions_insertDoc status_newSession split: if_splits)

lemma foldl_saveDoc_docs:
  "x \<in> set (sessions (foldl (\<lambda>d' s. saveDoc (withMeetingLink s) d') d ss)) \<Longrightarrow>
   x \<in> set (sessions d) \<or> (\<exists>s \<in> set ss. x = withMeetingLink s)"
proof (induction ss arbitrary: d)
  case Nil
  then show ?case by simp
next
  case (Cons a ss)
  from Cons.IH [of "saveDoc (withMeetingLink a) d"] Cons.prems
  have "x \<in> set (sessions (saveDoc (withMeetingLink a) d)) \<or> (\<exists>s \<in> set ss. x = withMeetingLink s)"
    by simp
  then show ?case
    using sessions_saveDoc [of x "withMeetingLink a" d] by auto
qed

lemma assignMeetingLinks_docs:
  assumes "assignMeetingLinks ty ss d = (ss', d')"
    and "\<forall>x \<in> set ss. status x = Scheduled"
  shows "(\<forall>x \<in> set ss'. status x = Scheduled) \<and>
         (\<forall>x \<in> set (sessions d'). x \<in> set (sessions d) \<or> status x = Scheduled)"
proof (cases "ty = Online")
  case False
  with assms show ?thesis by (auto simp: assignMeetingLinks_def)
next
  case True
  with assms(1) have ss': "ss' = map withMeetingLink ss"
    and d': "d' = foldl (\<lambda>d' s. saveDoc (withMeetingLink s) d') d ss"
    by (simp_all add: assignMeetingLinks_def)
  show ?thesis
  proof (intro conjI ballI)
    fix x assume "x \<in> set ss'"
    then show "status x = Scheduled"
      using assms(2) by (auto simp: ss' status_withMeetingLink)
  next
    fix x assume "x \<in> set (sessions d')"
    then have "x \<in> set (sessions d) \<or> (\<exists>s \<in> set ss. x = withMeetingLink s)"
      unfolding d' by (rule foldl_saveDoc_docs)
    then show "x \<in> set (sessions d) \<or> status x = Scheduled"
      using assms(2) by (auto simp: status_withMeetingLink)
  qed
qed

lemma book_docs:
  assumes "book d now momentNow studentId tutorId subject' description' start end' ty loc price' rcq
             = Some (Inr (ss, d'))"
  shows "(\<forall>x \<in> set ss. status x = Scheduled) \<and>
         (\<forall>x \<in> set (sessions d'). x \<in> set (sessions d) \<or> status x = Scheduled)"
proof -
  let ?sd = "bookingData studentId tutorId (trim subject') description' start end' ty loc price'"
  let ?created = "case rcq of
              Some rc \<Rightarrow>
                if isRecurring rc then createRecurringSessions d momentNow ?sd rc
                else Some (createSingleSession d ?sd)
            | None \<Rightarrow> Some (createSingleSession d ?sd)"
  from assms obtain ss0 d0 where c: "?created = Some (Inr (ss0, d0))"
    and l: "assignMeetingLinks ty ss0 d0 = (ss, d')"
    by (auto simp: book_def Let_def split: if_splits option.splits sum.splits)
  from c have "(\<forall>x \<in> set ss0. status x = Scheduled) \<and>
         (\<forall>x \<in> set (sessions d0). x \<in> set (sessions d) \<or> status x = Scheduled)"
    using createRecurringSessions_docs [of d momentNow ?sd _ ss0 d0]
      createSingleSession_docs [of d ?sd ss0 d0]
    by (auto split: option.splits if_splits)
  with assignMeetingLinks_docs [OF l] show ?thesis by blast
qed

lemma reschedule_docs:
  assumes "reschedule d now sessionId userId newStart newEnd reason' = Inr (s, d')"
  shows "status s = Scheduled \<and>
         (\<forall>x \<in> set (sessions d'). x \<in> set (sessions d) \<or> status x = Scheduled)"
  using assms sessions_saveDoc
  by (fastforce simp: reschedule_def Let_def split: if_splits option.splits)

lemma cancel_docs:
  assumes "cancel toFixed1 d now cancelledAt' sessionId userId reason' = Inr (s, d')"
  shows "status s = Cancelled \<and>
         (\<forall>x \<in> set (sessions d'). x \<in> set (sessions d) \<or> status x = Cancelled)"
  using assms sessions_saveDoc
  by (fastforce simp: cancel_def Let_def split: if_splits option.splits)

lemma start_docs:
  assumes "startSession d now startedAt sessionId userId = Inr (s, d')"
  shows "status s = Ongoing \<and>
         (\<forall>x \<in> set (sessions d'). x \<in> set (sessions d) \<or> status x = Ongoing)"
  using assms sessions_saveDoc
  by (fastforce simp: startSession_def Let_def split: if_splits option.splits)

lemma end_docs:
  assumes "endSession d now sessionId userId notes' = Inr (r, d')"
  shows "status (endedSession r) = Completed \<and>
         (\<forall>x \<in> set (sessions d'). x \<in> set (sessions d) \<or> status x = Completed)"
  using endSession_InrD [OF assms] sessions_saveDoc by fastforce

lemma sweep_docs:
  assumes "reminderSweep d dateNow queryNow clock = (ss, d')"
  shows "\<forall>x \<in> set (sessions d'). \<exists>x0 \<in> set (sessions d). status x = status x0"
proof
  fix x assume "x \<in> set (sessions d')"
  moreover from assms have "d' = remindLoop clock 0 (sessionsToRemind d dateNow queryNow) d"
    by (auto simp: reminderSweep_def)
  ultimately
  have "x \<in> set (sessions (remindLoop clock 0 (sessionsToRemind d dateNow queryNow) d))"
    by simp
  from remindLoop_docs [OF this] show "\<exists>x0 \<in> set (sessions d). status x = status x0"
  proof
    assume "x \<in> set (sessions d) \<and> oid x \<notin> oid ` set (sessionsToRemind d dateNow queryNow)"
    then show ?thesis by blast
  next
    assume "\<exists>j<length (sessionsToRemind d dateNow queryNow).
        x = markReminded (clock (0 + j)) (sessionsToRemind d dateNow queryNow ! j)"
    then obtain j where j: "j < length (sessionsToRemind d dateNow queryNow)"
      "x = markReminded (clock (0 + j)) (sessionsToRemind d dateNow queryNow ! j)" by blast
    then have "sessionsToRemind d dateNow queryNow ! j \<in> set (sessions d)"
      using nth_mem [OF j(1)] by (simp add: in_sessionsToRemind_iff)
    with j(2) show ?thesis by (auto simp: status_markReminded)
  qed
qed

text \<open>
  C9. No route assigns the status confirmed: booking creates scheduled sessions, Reschedule
  sets scheduled, Cancel cancelled, Start ongoing, End completed, and the sweep and the
  meeting links leave the status alone. So in every state reached from an empty sessions
  collection no session is confirmed.
\<close>

theorem confirmed_is_unreachable:
  assumes "reachable d"
  shows "\<forall>s \<in> set (sessions d). status s \<noteq> Confirmed"
  using assms
proof (induction rule: reachable.induct)
  case (initial d)
  then show ?case by simp
next
  case (usersChange d us)
  then show ?case by simp
next
  case (booked d now momentNow studentId tutorId subject' description' start' end' ty loc price' rcq ss d')
  from book_docs [OF booked(2)] booked(3) show ?case by fastforce
next
  case (rescheduled d now sessionId userId newStart newEnd reason' s d')
  from reschedule_docs [OF rescheduled(2)] rescheduled(3) show ?case by fastforce
next
  case (cancelled d toFixed1 now cancelledAt' sessionId userId reason' s d')
  from cancel_docs [OF cancelled(2)] cancelled(3) show ?case by fastforce
next
  case (started d now startedAt sessionId userId s d')
  from start_docs [OF started(2)] started(3) show ?case by fastforce
next
  case (ended d now sessionId userId notes' r d')
  from end_docs [OF ended(2)] ended(3) show ?case by fastforce
next
  case (swept d dateNow queryNow clock ss d')
  from sweep_docs [OF swept(2)] swept(3) show ?case by fastforce
qed


lemma example_booking:
  "book (exampleDb []) (utc 2030 1 1 0 0) (utc 2030 1 1 0 0) 12 13 ''Mathematics'' None
     (utc 2030 1 7 10 0) (utc 2030 1 7 11 0) Offline noLocation (Some 50) None =
   Some (Inr ([exampleSession 100 12 13 (utc 2030 1 7 10 0) (utc 2030 1 7 11 0)],
              insertDoc (exampleSession 100 12 13 (utc 2030 1 7 10 0) (utc 2030 1 7 11 0))
                (exampleDb [])))"
proof -
  let ?d = "exampleDb []"
  have t: "trim ''Mathematics'' = ''Mathematics''" by code_simp
  have 1: "0 < length (trim ''Mathematics'')" by (simp add: t)
  have 2: "utc 2030 1 7 10 0 < utc 2030 1 7 11 0" by code_simp
  have 3: "utc 2030 1 1 0 0 < utc 2030 1 7 10 0" by code_simp
  have 4: "users ?d 13 = Some \<lparr>role = RoleTutor, availability = Some
        [\<lparr>day = ''monday'', startTime = ''09:00'', endTime = ''17:00'', timezone = ''UTC''\<rparr>]\<rparr>"
    by (simp add: exampleDb_fields exampleUsers_def)
  have 5: "role \<lparr>role = RoleTutor, availability = Some
        [\<lparr>day = ''monday'', startTime = ''09:00'', endTime = ''17:00'', timezone = ''UTC''\<rparr>]\<rparr>
        = RoleTutor \<or> role \<lparr>role = RoleTutor, availability = Some
        [\<lparr>day = ''monday'', startTime = ''09:00'', endTime = ''17:00'', timezone = ''UTC''\<rparr>]\<rparr>
        = RoleBoth" by simp
  have 6: "checkSchedulingConflicts (sessions ?d) 12 13 (utc 2030 1 7 10 0) (utc 2030 1 7 11 0) None = []"
    by (simp add: exampleDb_fields checkSchedulingConflicts_def)
  have 7: "checkTutorAvailability ?d 13 (utc 2030 1 7 10 0) (utc 2030 1 7 11 0)"
    by code_simp
  have 8: "validateSession (newSession (nextId ?d)
           (bookingData 12 13 (trim ''Mathematics'') None (utc 2030 1 7 10 0) (utc 2030 1 7 11 0)
              Offline noLocation (Some 50)) noRecurring)"
    by (simp add: validateSession_def newSession_def bookingData_def noRecurring_def)
  show ?thesis
    using book_single [OF 1 2 3 4 5 6 7 8, of "utc 2030 1 1 0 0"]
    by (simp add: t exampleDb_fields assignMeetingLinks_def exampleSession_def)
qed

theorem confirmed_is_unreachable_witness:
  "reachable (insertDoc (exampleSession 100 12 13 (utc 2030 1 7 10 0) (utc 2030 1 7 11 0))
                (exampleDb [])) \<and>
   exampleSession 100 12 13 (utc 2030 1 7 10 0) (utc 2030 1 7 11 0) \<in>
     set (sessions (insertDoc (exampleSession 100 12 13 (utc 2030 1 7 10 0) (utc 2030 1 7 11 0))
                (exampleDb []))) \<and>
   status (exampleSession 100 12 13 (utc 2030 1 7 10 0) (utc 2030 1 7 11 0)) \<noteq> Confirmed"
proof -
  let ?s = "exampleSession 100 12 13 (utc 2030 1 7 10 0) (utc 2030 1 7 11 0)"
  have "reachable (exampleDb [])"
    by (rule reachable.initial) (simp add: exampleDb_fields)
  then have r: "reachable (insertDoc ?s (exampleDb []))"
    using example_booking by (rule reachable.booked)
  have m: "?s \<in> set (sessions (insertDoc ?s (exampleDb [])))"
    by (simp add: sessions_insertDoc)
  from confirmed_is_unreachable [OF r] m have "status ?s \<noteq> Confirmed" by blast
  with r m show ?thesis by simp
qed


section \<open>Recurrence\<close>

lemma stepByFrequency_increases:
  assumes "f = Some ''weekly'' \<or> f = Some ''biweekly'' \<or> f = Some ''monthly''"
  shows "t < stepByFrequency f t"
  using assms addMonth_increases [of t] msPerDay_pos
  by (auto simp: stepByFrequency_def addDays_def)

lemma recurringChildren_Suc:
  "recurringChildren sd rc dur parentId firstId cur (Suc n) =
     recurringChild sd rc dur parentId firstId (stepByFrequency (frequency rc) cur) #
     recurringChildren sd rc dur parentId (Suc firstId) (stepByFrequency (frequency rc) cur) n"
proof -
  have "[0..<Suc n] = 0 # map Suc [0..<n]"
    by (simp add: upt_conv_Cons map_Suc_upt del: upt_Suc)
  then show ?thesis
    by (simp add: recurringChildren_def funpow_swap1 comp_def del: upt_Suc)
qed

lemma recurringLoop_result:
  assumes inc: "\<And>t. t < stepByFrequency (frequency rc) t"
  shows "\<exists>n. recurringLoop sd rc e dur parentId cur acc d =
           Some (acc @ recurringChildren sd rc dur parentId (nextId d) cur n,
                 d\<lparr>sessions := sessions d @ recurringChildren sd rc dur parentId (nextId d) cur n,
                   nextId := nextId d + n\<rparr>) \<and>
         (\<forall>k<n. (stepByFrequency (frequency rc) ^^ Suc k) cur < e) \<and>
         (if cur < e then \<not> (stepByFrequency (frequency rc) ^^ Suc n) cur < e else n = 0)"
proof (induction "nat (e - cur)" arbitrary: cur acc d rule: less_induct)
  case less
  let ?step = "stepByFrequency (frequency rc)"
  show ?case
  proof (cases "cur < e")
    case False
    then have "recurringLoop sd rc e dur parentId cur acc d = Some (acc, d)"
      by (subst recurringLoop.simps) simp
    then show ?thesis
      using False by (intro exI [of _ 0]) (simp add: recurringChildren_def)
  next
    case True
    have gt: "cur < ?step cur" by (rule inc)
    show ?thesis
    proof (cases "?step cur < e")
      case False
      have "recurringLoop sd rc e dur parentId cur acc d =
              recurringLoop sd rc e dur parentId (?step cur) acc d"
        using True False by (subst recurringLoop.simps) simp
      also have "\<dots> = Some (acc, d)"
        using False by (subst recurringLoop.simps) simp
      finally show ?thesis
        using True False by (intro exI [of _ 0]) (simp add: recurringChildren_def)
    next
      case step: True
      let ?child = "recurringChild sd rc dur parentId (nextId d) (?step cur)"
      have m: "nat (e - ?step cur) < nat (e - cur)" using gt True by linarith
      from less [OF m, of "acc @ [?child]" "insertDoc ?child d"]
      obtain n where
        r: "recurringLoop sd rc e dur parentId (?step cur) (acc @ [?child]) (insertDoc ?child d) =
              Some ((acc @ [?child]) @
                      recurringChildren sd rc dur parentId (nextId (insertDoc ?child d)) (?step cur) n,
                    (insertDoc ?child d)\<lparr>sessions := sessions (insertDoc ?child d) @
                        recurringChildren sd rc dur parentId (nextId (insertDoc ?child d)) (?step cur) n,
                      nextId := nextId (insertDoc ?child d) + n\<rparr>)"
        and a: "\<forall>k<n. (?step ^^ Suc k) (?step cur) < e"
        and b: "\<not> (?step ^^ Suc n) (?step cur) < e"
        using step by auto
      have "recurringLoop sd rc e dur parentId cur acc d =
              recurringLoop sd rc e dur parentId (?step cur) (acc @ [?child]) (insertDoc ?child d)"
        using True step by (subst recurringLoop.simps) simp
      with r have
        "recurringLoop sd rc e dur parentId cur acc d =
           Some (acc @ recurringChildren sd rc dur parentId (nextId d) cur (Suc n),
                 d\<lparr>sessions := sessions d @ recurringChildren sd rc dur parentId (nextId d) cur (Suc n),
                   nextId := nextId d + Suc n\<rparr>)"
        by (simp add: recurringChildren_Suc insertDoc_def)
      moreover have "\<forall>k<Suc n. (?step ^^ Suc k) cur < e"
      proof (intro allI impI)
        fix k assume "k < Suc n"
        show "(?step ^^ Suc k) cur < e"
        proof (cases k)
          case 0
          then show ?thesis using step by simp
        next
          case (Suc j)
          then have "j < n" using \<open>k < Suc n\<close> by simp
          with a have "(?step ^^ Suc j) (?step cur) < e" by blast
          then show ?thesis using Suc by (simp add: funpow_swap1)
        qed
      qed
      moreover have "\<not> (?step ^^ Suc (Suc n)) cur < e"
        using b by (simp add: funpow_swap1)
      ultimately show ?thesis
        using True by (intro exI [of _ "Suc n"]) simp
    qed
  qed
qed


lemma newSession_fields:
  "oid (newSession i sd rc) = i"
  "student (newSession i sd rc) = student sd"
  "tutor (newSession i sd rc) = tutor sd"
  "scheduledStart (newSession i sd rc) = scheduledStart sd"
  "scheduledEnd (newSession i sd rc) = scheduledEnd sd"
  "recurring (newSession i sd rc) = rc"
  "price (newSession i sd rc) = price sd"
  "description (newSession i sd rc) = description sd"
  by (simp_all add: newSession_def)

lemma recurringChild_fields:
  "oid (recurringChild sd rc dur parentId i t) = i"
  "student (recurringChild sd rc dur parentId i t) = student sd"
  "tutor (recurringChild sd rc dur parentId i t) = tutor sd"
  "scheduledStart (recurringChild sd rc dur parentId i t) = t"
  "scheduledEnd (recurringChild sd rc dur parentId i t) = t + dur"
  "parentSession (recurring (recurringChild sd rc dur parentId i t)) = Some parentId"
  "isRecurring (recurring (recurringChild sd rc dur parentId i t))"
  by (simp_all add: recurringChild_def newSession_def)

lemma bookingData_fields:
  "student (bookingData st tu su de t0 t1 ty lo pr) = st"
  "tutor (bookingData st tu su de t0 t1 ty lo pr) = tu"
  "scheduledStart (bookingData st tu su de t0 t1 ty lo pr) = t0"
  "scheduledEnd (bookingData st tu su de t0 t1 ty lo pr) = t1"
  "price (bookingData st tu su de t0 t1 ty lo pr) = pr"
  "description (bookingData st tu su de t0 t1 ty lo pr) = de"
  by (simp_all add: bookingData_def)

lemma recurringLoop_step:
  assumes "cur < e" and "stepByFrequency (frequency rc) cur < e"
  shows "recurringLoop sd rc e dur parentId cur acc d =
     recurringLoop sd rc e dur parentId (stepByFrequency (frequency rc) cur)
       (acc @ [recurringChild sd rc dur parentId (nextId d) (stepByFrequency (frequency rc) cur)])
       (insertDoc (recurringChild sd rc dur parentId (nextId d)
                     (stepByFrequency (frequency rc) cur)) d)"
  using assms by (subst recurringLoop.simps) simp

lemma recurringLoop_last:
  assumes "cur < e" and "\<not> stepByFrequency (frequency rc) cur < e"
  shows "recurringLoop sd rc e dur parentId cur acc d = Some (acc, d)"
proof -
  have "recurringLoop sd rc e dur parentId cur acc d =
      recurringLoop sd rc e dur parentId (stepByFrequency (frequency rc) cur) acc d"
    using assms by (subst recurringLoop.simps) simp
  also have "\<dots> = Some (acc, d)"
    using assms(2) by (subst recurringLoop.simps) simp
  finally show ?thesis .
qed

lemma weekly_run:
  "createRecurringSessions d momentNow weeklyData weeklyRule =
     Some (Inr
       ([newSession (nextId d) weeklyData weeklyRule,
         recurringChild weeklyData weeklyRule (60 * 60 * 1000) (nextId d) (Suc (nextId d))
           (utc 2025 1 13 10 0),
         recurringChild weeklyData weeklyRule (60 * 60 * 1000) (nextId d) (Suc (Suc (nextId d)))
           (utc 2025 1 20 10 0)],
        insertDoc
          (recurringChild weeklyData weeklyRule (60 * 60 * 1000) (nextId d) (Suc (Suc (nextId d)))
             (utc 2025 1 20 10 0))
          (insertDoc
             (recurringChild weeklyData weeklyRule (60 * 60 * 1000) (nextId d) (Suc (nextId d))
                (utc 2025 1 13 10 0))
             (insertDoc (newSession (nextId d) weeklyData weeklyRule) d))))"
proof -
  let ?sd = weeklyData
  let ?rc = weeklyRule
  let ?e = "utc 2025 1 27 0 0"
  let ?dur = "60 * 60 * 1000 :: int"
  let ?parent = "newSession (nextId d) ?sd ?rc"
  let ?c1 = "recurringChild ?sd ?rc ?dur (nextId d) (Suc (nextId d)) (utc 2025 1 13 10 0)"
  let ?c2 = "recurringChild ?sd ?rc ?dur (nextId d) (Suc (Suc (nextId d))) (utc 2025 1 20 10 0)"
  let ?d0 = "insertDoc ?parent d"
  let ?d1 = "insertDoc ?c1 ?d0"
  let ?d2 = "insertDoc ?c2 ?d1"
  have f: "frequency ?rc = Some ''weekly''" by (simp add: weeklyRule_def)
  have en: "endDate ?rc = Some ?e" by (simp add: weeklyRule_def)
  have rc: "\<lparr>isRecurring = True, frequency = frequency ?rc, endDate = endDate ?rc,
      parentSession = None\<rparr> = ?rc" by (simp add: weeklyRule_def)
  have st: "scheduledStart ?sd = utc 2025 1 6 10 0" "scheduledEnd ?sd = utc 2025 1 6 11 0"
    by (simp_all add: weeklyData_def bookingData_fields)
  have du: "utc 2025 1 6 11 0 - utc 2025 1 6 10 0 = ?dur" by code_simp
  have s1: "stepByFrequency (Some ''weekly'') (utc 2025 1 6 10 0) = utc 2025 1 13 10 0" by code_simp
  have s2: "stepByFrequency (Some ''weekly'') (utc 2025 1 13 10 0) = utc 2025 1 20 10 0" by code_simp
  have s3: "stepByFrequency (Some ''weekly'') (utc 2025 1 20 10 0) = utc 2025 1 27 10 0" by code_simp
  have c0: "utc 2025 1 6 10 0 < ?e" by code_simp
  have c1: "utc 2025 1 13 10 0 < ?e" by code_simp
  have c2: "utc 2025 1 20 10 0 < ?e" by code_simp
  have c3: "\<not> utc 2025 1 27 10 0 < ?e" by code_simp
  have n0: "nextId ?d0 = Suc (nextId d)" by (simp add: insertDoc_def)
  have n1: "nextId ?d1 = Suc (Suc (nextId d))" by (simp add: insertDoc_def)
  have p0: "stepByFrequency (frequency ?rc) (utc 2025 1 6 10 0) < ?e"
    unfolding f s1 by (rule c1)
  have p1: "stepByFrequency (frequency ?rc) (utc 2025 1 13 10 0) < ?e"
    unfolding f s2 by (rule c2)
  have p2: "\<not> stepByFrequency (frequency ?rc) (utc 2025 1 20 10 0) < ?e"
    unfolding f s3 by (rule c3)
  have "recurringLoop ?sd ?rc ?e ?dur (nextId d) (utc 2025 1 6 10 0) [?parent] ?d0 =
      recurringLoop ?sd ?rc ?e ?dur (nextId d) (utc 2025 1 13 10 0) ([?parent] @ [?c1]) ?d1"
    using recurringLoop_step [OF c0 p0, of ?sd ?dur "nextId d" "[?parent]" ?d0]
    by (simp only: f s1 n0)
  also have "\<dots> = recurringLoop ?sd ?rc ?e ?dur (nextId d) (utc 2025 1 20 10 0)
      (([?parent] @ [?c1]) @ [?c2]) ?d2"
    using recurringLoop_step [OF c1 p1, of ?sd ?dur "nextId d" "[?parent] @ [?c1]" ?d1]
    by (simp only: f s2 n1)
  also have "\<dots> = Some (([?parent] @ [?c1]) @ [?c2], ?d2)"
    by (rule recurringLoop_last [OF c2 p2])
  finally have loop: "recurringLoop ?sd ?rc ?e ?dur (nextId d) (utc 2025 1 6 10 0) [?parent] ?d0 =
      Some ([?parent, ?c1, ?c2], ?d2)" by simp
  have v: "validateSession ?parent"
    by (simp add: validateSession_def newSession_fields weeklyData_def bookingData_fields
        weeklyRule_def)
  show ?thesis
    unfolding createRecurringSessions_def Let_def rc
    unfolding en st du option.case
    using loop v by (simp add: newSession_fields)
qed


lemma monthly_run:
  "createRecurringSessions d momentNow monthlyData monthlyRule =
     Some (Inr
       ([newSession (nextId d) monthlyData monthlyRule,
         recurringChild monthlyData monthlyRule (60 * 60 * 1000) (nextId d) (Suc (nextId d))
           (utc 2025 2 28 10 0),
         recurringChild monthlyData monthlyRule (60 * 60 * 1000) (nextId d) (Suc (Suc (nextId d)))
           (utc 2025 3 28 10 0),
         recurringChild monthlyData monthlyRule (60 * 60 * 1000) (nextId d)
           (Suc (Suc (Suc (nextId d)))) (utc 2025 4 28 10 0)],
        insertDoc
          (recurringChild monthlyData monthlyRule (60 * 60 * 1000) (nextId d)
             (Suc (Suc (Suc (nextId d)))) (utc 2025 4 28 10 0))
          (insertDoc
             (recurringChild monthlyData monthlyRule (60 * 60 * 1000) (nextId d)
                (Suc (Suc (nextId d))) (utc 2025 3 28 10 0))
             (insertDoc
                (recurringChild monthlyData monthlyRule (60 * 60 * 1000) (nextId d)
                   (Suc (nextId d)) (utc 2025 2 28 10 0))
                (insertDoc (newSession (nextId d) monthlyData monthlyRule) d)))))"
proof -
  let ?sd = monthlyData
  let ?rc = monthlyRule
  let ?e = "utc 2025 5 1 0 0"
  let ?dur = "60 * 60 * 1000 :: int"
  let ?parent = "newSession (nextId d) ?sd ?rc"
  let ?c1 = "recurringChild ?sd ?rc ?dur (nextId d) (Suc (nextId d)) (utc 2025 2 28 10 0)"
  let ?c2 = "recurringChild ?sd ?rc ?dur (nextId d) (Suc (Suc (nextId d))) (utc 2025 3 28 10 0)"
  let ?c3 = "recurringChild ?sd ?rc ?dur (nextId d) (Suc (Suc (Suc (nextId d))))
      (utc 2025 4 28 10 0)"
  let ?d0 = "insertDoc ?parent d"
  let ?d1 = "insertDoc ?c1 ?d0"
  let ?d2 = "insertDoc ?c2 ?d1"
  let ?d3 = "insertDoc ?c3 ?d2"
  have f: "frequency ?rc = Some ''monthly''" by (simp add: monthlyRule_def)
  have en: "endDate ?rc = Some ?e" by (simp add: monthlyRule_def)
  have rc: "\<lparr>isRecurring = True, frequency = frequency ?rc, endDate = endDate ?rc,
      parentSession = None\<rparr> = ?rc" by (simp add: monthlyRule_def)
  have st: "scheduledStart ?sd = utc 2025 1 31 10 0" "scheduledEnd ?sd = utc 2025 1 31 11 0"
    by (simp_all add: monthlyData_def bookingData_fields)
  have du: "utc 2025 1 31 11 0 - utc 2025 1 31 10 0 = ?dur" by code_simp
  have s1: "stepByFrequency (Some ''monthly'') (utc 2025 1 31 10 0) = utc 2025 2 28 10 0"
    by code_simp
  have s2: "stepByFrequency (Some ''monthly'') (utc 2025 2 28 10 0) = utc 2025 3 28 10 0"
    by code_simp
  have s3: "stepByFrequency (Some ''monthly'') (utc 2025 3 28 10 0) = utc 2025 4 28 10 0"
    by code_simp
  have s4: "stepByFrequency (Some ''monthly'') (utc 2025 4 28 10 0) = utc 2025 5 28 10 0"
    by code_simp
  have c0: "utc 2025 1 31 10 0 < ?e" by code_simp
  have c1: "utc 2025 2 28 10 0 < ?e" by code_simp
  have c2: "utc 2025 3 28 10 0 < ?e" by code_simp
  have c3: "utc 2025 4 28 10 0 < ?e" by code_simp
  have c4: "\<not> utc 2025 5 28 10 0 < ?e" by code_simp
  have n0: "nextId ?d0 = Suc (nextId d)" by (simp add: insertDoc_def)
  have n1: "nextId ?d1 = Suc (Suc (nextId d))" by (simp add: insertDoc_def)
  have n2: "nextId ?d2 = Suc (Suc (Suc (nextId d)))" by (simp add: insertDoc_def)
  have p0: "stepByFrequency (frequency ?rc) (utc 2025 1 31 10 0) < ?e"
    unfolding f s1 by (rule c1)
  have p1: "stepByFrequency (frequency ?rc) (utc 2025 2 28 10 0) < ?e"
    unfolding f s2 by (rule c2)
  have p2: "stepByFrequency (frequency ?rc) (utc 2025 3 28 10 0) < ?e"
    unfolding f s3 by (rule c3)
  have p3: "\<not> stepByFrequency (frequency ?rc) (utc 2025 4 28 10 0) < ?e"
    unfolding f s4 by (rule c4)
  have "recurringLoop ?sd ?rc ?e ?dur (nextId d) (utc 2025 1 31 10 0) [?parent] ?d0 =
      recurringLoop ?sd ?rc ?e ?dur (nextId d) (utc 2025 2 28 10 0) ([?parent] @ [?c1]) ?d1"
    using recurringLoop_step [OF c0 p0, of ?sd ?dur "nextId d" "[?parent]" ?d0]
    by (simp only: f s1 n0)
  also have "\<dots> = recurringLoop ?sd ?rc ?e ?dur (nextId d) (utc 2025 3 28 10 0)
      (([?parent] @ [?c1]) @ [?c2]) ?d2"
    using recurringLoop_step [OF c1 p1, of ?sd ?dur "nextId d" "[?parent] @ [?c1]" ?d1]
    by (simp only: f s2 n1)
  also have "\<dots> = recurringLoop ?sd ?rc ?e ?dur (nextId d) (utc 2025 4 28 10 0)
      ((([?parent] @ [?c1]) @ [?c2]) @ [?c3]) ?d3"
    using recurringLoop_step [OF c2 p2, of ?sd ?dur "nextId d" "([?parent] @ [?c1]) @ [?c2]" ?d2]
    by (simp only: f s3 n2)
  also have "\<dots> = Some ((([?parent] @ [?c1]) @ [?c2]) @ [?c3], ?d3)"
    by (rule recurringLoop_last [OF c3 p3])
  finally have loop: "recurringLoop ?sd ?rc ?e ?dur (nextId d) (utc 2025 1 31 10 0) [?parent] ?d0 =
      Some ([?parent, ?c1, ?c2, ?c3], ?d3)" by simp
  have v: "validateSession ?parent"
    by (simp add: validateSession_def newSession_fields monthlyData_def bookingData_fields
        monthlyRule_def)
  show ?thesis
    unfolding createRecurringSessions_def Let_def rc
    unfolding en st du option.case
    using loop v by (simp add: newSession_fields)
qed

lemma recurringChildren_nth:
  "k < n \<Longrightarrow> recurringChildren sd rc dur parentId firstId cur n ! k =
     recurringChild sd rc dur parentId (firstId + k) ((stepByFrequency (frequency rc) ^^ Suc k) cur)"
  by (simp add: recurringChildren_def del: funpow.simps)

lemma length_recurringChildren [simp]:
  "length (recurringChildren sd rc dur parentId firstId cur n) = n"
  by (simp add: recurringChildren_def)

lemma createRecurringSessions_result:
  assumes freq: "frequency rc = Some ''weekly'' \<or> frequency rc = Some ''biweekly'' \<or>
      frequency rc = Some ''monthly''"
    and endD: "endDate rc = Some e"
    and valid: "validateSession (newSession (nextId d) sd
      \<lparr>isRecurring = True, frequency = frequency rc, endDate = endDate rc, parentSession = None\<rparr>)"
  shows "\<exists>n. createRecurringSessions d momentNow sd rc =
      Some (Inr
        (newSession (nextId d) sd
           \<lparr>isRecurring = True, frequency = frequency rc, endDate = endDate rc,
            parentSession = None\<rparr> #
         recurringChildren sd rc (scheduledEnd sd - scheduledStart sd) (nextId d) (Suc (nextId d))
           (scheduledStart sd) n,
         d\<lparr>sessions := sessions d @
             newSession (nextId d) sd
               \<lparr>isRecurring = True, frequency = frequency rc, endDate = endDate rc,
                parentSession = None\<rparr> #
             recurringChildren sd rc (scheduledEnd sd - scheduledStart sd) (nextId d)
               (Suc (nextId d)) (scheduledStart sd) n,
           nextId := nextId d + Suc n\<rparr>)) \<and>
      (\<forall>k<n. (stepByFrequency (frequency rc) ^^ Suc k) (scheduledStart sd) < e) \<and>
      (if scheduledStart sd < e
       then \<not> (stepByFrequency (frequency rc) ^^ Suc n) (scheduledStart sd) < e else n = 0)"
proof -
  let ?parent = "newSession (nextId d) sd
      \<lparr>isRecurring = True, frequency = frequency rc, endDate = endDate rc, parentSession = None\<rparr>"
  let ?dur = "scheduledEnd sd - scheduledStart sd"
  have inc: "\<And>t. t < stepByFrequency (frequency rc) t"
    by (rule stepByFrequency_increases [OF freq])
  from recurringLoop_result [of rc sd e ?dur "oid ?parent" "scheduledStart sd" "[?parent]"
      "insertDoc ?parent d", OF inc]
  obtain n where
    r: "recurringLoop sd rc e ?dur (oid ?parent) (scheduledStart sd) [?parent] (insertDoc ?parent d) =
        Some ([?parent] @ recurringChildren sd rc ?dur (oid ?parent) (nextId (insertDoc ?parent d))
                 (scheduledStart sd) n,
              (insertDoc ?parent d)\<lparr>sessions := sessions (insertDoc ?parent d) @
                  recurringChildren sd rc ?dur (oid ?parent) (nextId (insertDoc ?parent d))
                    (scheduledStart sd) n,
                nextId := nextId (insertDoc ?parent d) + n\<rparr>)"
    and a: "\<forall>k<n. (stepByFrequency (frequency rc) ^^ Suc k) (scheduledStart sd) < e"
    and b: "if scheduledStart sd < e
       then \<not> (stepByFrequency (frequency rc) ^^ Suc n) (scheduledStart sd) < e else n = 0"
    by blast
  have "createRecurringSessions d momentNow sd rc =
      map_option Inr (recurringLoop sd rc e ?dur (oid ?parent) (scheduledStart sd) [?parent]
        (insertDoc ?parent d))"
    using valid by (simp add: createRecurringSessions_def Let_def endD)
  with r have "createRecurringSessions d momentNow sd rc =
      Some (Inr (?parent # recurringChildren sd rc ?dur (nextId d) (Suc (nextId d))
                   (scheduledStart sd) n,
        d\<lparr>sessions := sessions d @ ?parent #
              recurringChildren sd rc ?dur (nextId d) (Suc (nextId d)) (scheduledStart sd) n,
          nextId := nextId d + Suc n\<rparr>))"
    by (simp add: insertDoc_def newSession_fields)
  with a b show ?thesis by blast
qed

text \<open>
  C4. For a frequency of weekly, biweekly or monthly and an end date \<open>e\<close>, the expander
  returns the parent at the original window followed by \<open>n\<close> children and saves them in
  that order. The \<open>k\<close>-th child starts \<open>k + 1\<close> frequency steps after the original start,
  strictly before \<open>e\<close>, lasts as long as the original window and refers to the parent; the
  series stops at the first step that is not before \<open>e\<close>. A step adds 7 days, 14 days, or
  one calendar month: from day \<open>d\<close> of month \<open>m\<close> to day \<open>d\<close> of the next month at the same
  time of day, or to the last day of the next month when that month is shorter; every date
  is such a day of a month. The weekly series from 2025-01-06 10:00-11:00 until 2025-01-27
  consists of the sessions starting on 01-06, 01-13 and 01-20; the monthly series from
  2025-01-31 until 2025-05-01 of those starting on 01-31, 02-28, 03-28 and 04-28.
\<close>

theorem recurrence_expansion:
  assumes "frequency rc = Some ''weekly'' \<or> frequency rc = Some ''biweekly'' \<or>
      frequency rc = Some ''monthly''"
    and "endDate rc = Some e"
    and "validateSession (newSession (nextId d) sd
      \<lparr>isRecurring = True, frequency = frequency rc, endDate = endDate rc, parentSession = None\<rparr>)"
  shows "(\<exists>n parent children.
      createRecurringSessions d momentNow sd rc =
        Some (Inr (parent # children,
                   d\<lparr>sessions := sessions d @ parent # children,
                     nextId := nextId d + Suc n\<rparr>)) \<and>
      length children = n \<and>
      scheduledStart parent = scheduledStart sd \<and> scheduledEnd parent = scheduledEnd sd \<and>
      parentSession (recurring parent) = None \<and>
      (\<forall>k<n. scheduledStart (children ! k) =
                 (stepByFrequency (frequency rc) ^^ Suc k) (scheduledStart sd) \<and>
              scheduledStart (children ! k) < e \<and>
              scheduledEnd (children ! k) - scheduledStart (children ! k) =
                 scheduledEnd sd - scheduledStart sd \<and>
              parentSession (recurring (children ! k)) = Some (oid parent)) \<and>
      (if scheduledStart sd < e
       then \<not> (stepByFrequency (frequency rc) ^^ Suc n) (scheduledStart sd) < e else n = 0)) \<and>
    (\<forall>t. stepByFrequency (Some ''weekly'') t = t + 7 * (24 * 60 * 60 * 1000) \<and>
         stepByFrequency (Some ''biweekly'') t = t + 14 * (24 * 60 * 60 * 1000)) \<and>
    (\<forall>y m d r. 1 \<le> m \<and> m \<le> 12 \<and> 1 \<le> d \<and> d \<le> daysInMonth y m \<and>
         0 \<le> r \<and> r < 24 * 60 * 60 * 1000 \<longrightarrow>
         stepByFrequency (Some ''monthly'') (civil y m d r) =
           (if m = 12 then civil (y + 1) 1 d r
            else civil y (m + 1) (min d (daysInMonth y (m + 1))) r)) \<and>
    (\<forall>t. \<exists>y m d r. 1 \<le> m \<and> m \<le> 12 \<and> 1 \<le> d \<and> d \<le> daysInMonth y m \<and>
         0 \<le> r \<and> r < 24 * 60 * 60 * 1000 \<and> t = civil y m d r) \<and>
    (case createRecurringSessions (exampleDb []) momentNow weeklyData weeklyRule of
       Some (Inr (ss, d')) \<Rightarrow> map (\<lambda>s. (scheduledStart s, scheduledEnd s)) ss
     | _ \<Rightarrow> []) =
      [(utc 2025 1 6 10 0, utc 2025 1 6 11 0), (utc 2025 1 13 10 0, utc 2025 1 13 11 0),
       (utc 2025 1 20 10 0, utc 2025 1 20 11 0)] \<and>
    (case createRecurringSessions (exampleDb []) momentNow monthlyData monthlyRule of
       Some (Inr (ss, d')) \<Rightarrow> map (\<lambda>s. (scheduledStart s, scheduledEnd s)) ss
     | _ \<Rightarrow> []) =
      [(utc 2025 1 31 10 0, utc 2025 1 31 11 0), (utc 2025 2 28 10 0, utc 2025 2 28 11 0),
       (utc 2025 3 28 10 0, utc 2025 3 28 11 0), (utc 2025 4 28 10 0, utc 2025 4 28 11 0)]"
proof (intro conjI)
  let ?parent = "newSession (nextId d) sd
      \<lparr>isRecurring = True, frequency = frequency rc, endDate = endDate rc, parentSession = None\<rparr>"
  let ?dur = "scheduledEnd sd - scheduledStart sd"
  from createRecurringSessions_result [OF assms, of momentNow]
  obtain n where
    r: "createRecurringSessions d momentNow sd rc =
      Some (Inr (?parent # recurringChildren sd rc ?dur (nextId d) (Suc (nextId d))
                   (scheduledStart sd) n,
        d\<lparr>sessions := sessions d @ ?parent #
              recurringChildren sd rc ?dur (nextId d) (Suc (nextId d)) (scheduledStart sd) n,
          nextId := nextId d + Suc n\<rparr>))"
    and a: "\<forall>k<n. (stepByFrequency (frequency rc) ^^ Suc k) (scheduledStart sd) < e"
    and b: "if scheduledStart sd < e
       then \<not> (stepByFrequency (frequency rc) ^^ Suc n) (scheduledStart sd) < e else n = 0"
    by blast
  let ?children = "recurringChildren sd rc ?dur (nextId d) (Suc (nextId d)) (scheduledStart sd) n"
  have kids: "\<forall>k<n. scheduledStart (?children ! k) =
                 (stepByFrequency (frequency rc) ^^ Suc k) (scheduledStart sd) \<and>
              scheduledStart (?children ! k) < e \<and>
              scheduledEnd (?children ! k) - scheduledStart (?children ! k) = ?dur \<and>
              parentSession (recurring (?children ! k)) = Some (oid ?parent)"
    using a by (simp add: recurringChildren_nth recurringChild_fields newSession_fields
        del: funpow.simps)
  have len: "length ?children = n" by simp
  have p1: "scheduledStart ?parent = scheduledStart sd" by (simp add: newSession_fields)
  have p2: "scheduledEnd ?parent = scheduledEnd sd" by (simp add: newSession_fields)
  have p3: "parentSession (recurring ?parent) = None" by (simp add: newSession_fields)
  show "\<exists>n parent children.
      createRecurringSessions d momentNow sd rc =
        Some (Inr (parent # children,
                   d\<lparr>sessions := sessions d @ parent # children,
                     nextId := nextId d + Suc n\<rparr>)) \<and>
      length children = n \<and>
      scheduledStart parent = scheduledStart sd \<and> scheduledEnd parent = scheduledEnd sd \<and>
      parentSession (recurring parent) = None \<and>
      (\<forall>k<n. scheduledStart (children ! k) =
                 (stepByFrequency (frequency rc) ^^ Suc k) (scheduledStart sd) \<and>
              scheduledStart (children ! k) < e \<and>
              scheduledEnd (children ! k) - scheduledStart (children ! k) =
                 scheduledEnd sd - scheduledStart sd \<and>
              parentSession (recurring (children ! k)) = Some (oid parent)) \<and>
      (if scheduledStart sd < e
       then \<not> (stepByFrequency (frequency rc) ^^ Suc n) (scheduledStart sd) < e else n = 0)"
    by (intro exI [of _ n] exI [of _ ?parent] exI [of _ ?children] conjI r len p1 p2 p3 kids b)
next
  show "\<forall>t. stepByFrequency (Some ''weekly'') t = t + 7 * (24 * 60 * 60 * 1000) \<and>
         stepByFrequency (Some ''biweekly'') t = t + 14 * (24 * 60 * 60 * 1000)"
    by (simp add: stepByFrequency_def addDays_def msPerDay_def)
next
  show "\<forall>y m d r. 1 \<le> m \<and> m \<le> 12 \<and> 1 \<le> d \<and> d \<le> daysInMonth y m \<and>
         0 \<le> r \<and> r < 24 * 60 * 60 * 1000 \<longrightarrow>
         stepByFrequency (Some ''monthly'') (civil y m d r) =
           (if m = 12 then civil (y + 1) 1 d r
            else civil y (m + 1) (min d (daysInMonth y (m + 1))) r)"
  proof (intro allI impI)
    fix y m d r :: int
    assume h: "1 \<le> m \<and> m \<le> 12 \<and> 1 \<le> d \<and> d \<le> daysInMonth y m \<and>
         0 \<le> r \<and> r < 24 * 60 * 60 * 1000"
    then have v: "1 \<le> m" "m \<le> 12" "1 \<le> d" "d \<le> daysInMonth y m" "0 \<le> r" "r < msPerDay"
      by (simp_all add: msPerDay_def)
    have j: "daysInMonth (y + 1) 1 = 31" by (simp add: daysInMonth_def)
    have "d \<le> 31" using v(4) by (simp add: daysInMonth_def split: if_splits)
    then have "min d (daysInMonth (y + 1) 1) = d" by (simp add: j)
    then show "stepByFrequency (Some ''monthly'') (civil y m d r) =
           (if m = 12 then civil (y + 1) 1 d r
            else civil y (m + 1) (min d (daysInMonth y (m + 1))) r)"
      by (simp add: stepByFrequency_def addMonth_of_civil [OF v])
  qed
next
  show "\<forall>t. \<exists>y m d r. 1 \<le> m \<and> m \<le> 12 \<and> 1 \<le> d \<and> d \<le> daysInMonth y m \<and>
         0 \<le> r \<and> r < 24 * 60 * 60 * 1000 \<and> t = civil y m d r"
  proof
    fix t
    note c = civil_of_date [of t]
    have m: "msPerDay = 24 * 60 * 60 * 1000" by (simp add: msPerDay_def)
    show "\<exists>y m d r. 1 \<le> m \<and> m \<le> 12 \<and> 1 \<le> d \<and> d \<le> daysInMonth y m \<and>
         0 \<le> r \<and> r < 24 * 60 * 60 * 1000 \<and> t = civil y m d r"
      using c unfolding m
      by (intro exI [of _ "yearFromDay (t div (24 * 60 * 60 * 1000))"]
          exI [of _ "monthFromDay (t div (24 * 60 * 60 * 1000))"]
          exI [of _ "dateFromDay (t div (24 * 60 * 60 * 1000))"]
          exI [of _ "t mod (24 * 60 * 60 * 1000)"])
  qed
next
  have e1: "utc 2025 1 13 10 0 + 60 * 60 * 1000 = utc 2025 1 13 11 0" by code_simp
  have e2: "utc 2025 1 20 10 0 + 60 * 60 * 1000 = utc 2025 1 20 11 0" by code_simp
  show "(case createRecurringSessions (exampleDb []) momentNow weeklyData weeklyRule of
       Some (Inr (ss, d')) \<Rightarrow> map (\<lambda>s. (scheduledStart s, scheduledEnd s)) ss
     | _ \<Rightarrow> []) =
      [(utc 2025 1 6 10 0, utc 2025 1 6 11 0), (utc 2025 1 13 10 0, utc 2025 1 13 11 0),
       (utc 2025 1 20 10 0, utc 2025 1 20 11 0)]"
    unfolding weekly_run
    using e1 e2
    by (simp add: recurringChild_fields newSession_fields weeklyData_def bookingData_fields)
next
  have e1: "utc 2025 2 28 10 0 + 60 * 60 * 1000 = utc 2025 2 28 11 0" by code_simp
  have e2: "utc 2025 3 28 10 0 + 60 * 60 * 1000 = utc 2025 3 28 11 0" by code_simp
  have e3: "utc 2025 4 28 10 0 + 60 * 60 * 1000 = utc 2025 4 28 11 0" by code_simp
  show "(case createRecurringSessions (exampleDb []) momentNow monthlyData monthlyRule of
       Some (Inr (ss, d')) \<Rightarrow> map (\<lambda>s. (scheduledStart s, scheduledEnd s)) ss
     | _ \<Rightarrow> []) =
      [(utc 2025 1 31 10 0, utc 2025 1 31 11 0), (utc 2025 2 28 10 0, utc 2025 2 28 11 0),
       (utc 2025 3 28 10 0, utc 2025 3 28 11 0), (utc 2025 4 28 10 0, utc 2025 4 28 11 0)]"
    unfolding monthly_run
    using e1 e2 e3
    by (simp add: recurringChild_fields newSession_fields monthlyData_def bookingData_fields)
qed

theorem recurrence_expansion_witness:
  "frequency weeklyRule = Some ''weekly'' \<and>
   endDate weeklyRule = Some 1737936000000 \<and>
   validateSession (newSession (nextId (exampleDb [])) weeklyData weeklyRule) \<and>
   scheduledStart weeklyData = 1736157600000 \<and>
   scheduledEnd weeklyData = 1736157600000 + 60 * 60 * 1000 \<and>
   (case createRecurringSessions (exampleDb []) 1735689600000 weeklyData weeklyRule of
       Some (Inr (ss, d')) \<Rightarrow> map (\<lambda>s. (scheduledStart s, scheduledEnd s)) ss
     | _ \<Rightarrow> []) =
      [(1736157600000, 1736157600000 + 60 * 60 * 1000),
       (1736762400000, 1736762400000 + 60 * 60 * 1000),
       (1737367200000, 1737367200000 + 60 * 60 * 1000)] \<and>
   frequency monthlyRule = Some ''monthly'' \<and>
   endDate monthlyRule = Some 1746057600000 \<and>
   scheduledStart monthlyData = 1738317600000 \<and>
   scheduledEnd monthlyData = 1738317600000 + 60 * 60 * 1000 \<and>
   (case createRecurringSessions (exampleDb []) 1735689600000 monthlyData monthlyRule of
       Some (Inr (ss, d')) \<Rightarrow> map (\<lambda>s. (scheduledStart s, scheduledEnd s)) ss
     | _ \<Rightarrow> []) =
      [(1738317600000, 1738317600000 + 60 * 60 * 1000),
       (1740736800000, 1740736800000 + 60 * 60 * 1000),
       (1743156000000, 1743156000000 + 60 * 60 * 1000),
       (1745834400000, 1745834400000 + 60 * 60 * 1000)] \<and>
   stepByFrequency (Some ''monthly'') 1706695200000 = 1709200800000 \<and>
   stepByFrequency (Some ''monthly'') 1765792800000 = 1768471200000"
proof -
  have rc: "\<lparr>isRecurring = True, frequency = frequency weeklyRule, endDate = endDate weeklyRule,
      parentSession = None\<rparr> = weeklyRule" by (simp add: weeklyRule_def)
  have 1: "frequency weeklyRule = Some ''weekly'' \<or> frequency weeklyRule = Some ''biweekly'' \<or>
      frequency weeklyRule = Some ''monthly''" by (simp add: weeklyRule_def)
  have 2: "endDate weeklyRule = Some (utc 2025 1 27 0 0)" by (simp add: weeklyRule_def)
  have v: "validateSession (newSession (nextId (exampleDb [])) weeklyData weeklyRule)"
    by (simp add: validateSession_def newSession_fields weeklyData_def bookingData_fields
        weeklyRule_def)
  then have 3: "validateSession (newSession (nextId (exampleDb [])) weeklyData
      \<lparr>isRecurring = True, frequency = frequency weeklyRule, endDate = endDate weeklyRule,
       parentSession = None\<rparr>)" by (simp only: rc)
  have w: "utc 2025 1 6 10 0 = 1736157600000" "utc 2025 1 13 10 0 = 1736762400000"
    "utc 2025 1 20 10 0 = 1737367200000" "utc 2025 1 27 0 0 = 1737936000000"
    "utc 2025 1 6 11 0 = 1736157600000 + 60 * 60 * 1000"
    "utc 2025 1 13 11 0 = 1736762400000 + 60 * 60 * 1000"
    "utc 2025 1 20 11 0 = 1737367200000 + 60 * 60 * 1000"
    "utc 2025 1 1 0 0 = 1735689600000"
    by code_simp+
  have mo: "utc 2025 1 31 10 0 = 1738317600000" "utc 2025 2 28 10 0 = 1740736800000"
    "utc 2025 3 28 10 0 = 1743156000000" "utc 2025 4 28 10 0 = 1745834400000"
    "utc 2025 5 1 0 0 = 1746057600000"
    "utc 2025 1 31 11 0 = 1738317600000 + 60 * 60 * 1000"
    "utc 2025 2 28 11 0 = 1740736800000 + 60 * 60 * 1000"
    "utc 2025 3 28 11 0 = 1743156000000 + 60 * 60 * 1000"
    "utc 2025 4 28 11 0 = 1745834400000 + 60 * 60 * 1000"
    by code_simp+
  have cv: "civil 2024 1 31 36000000 = 1706695200000" "civil 2024 2 29 36000000 = 1709200800000"
    "civil 2025 12 15 36000000 = 1765792800000" "civil 2026 1 15 36000000 = 1768471200000"
    "daysInMonth 2024 1 = 31" "daysInMonth 2024 2 = 29" "daysInMonth 2025 12 = 31"
    by code_simp+
  note T = recurrence_expansion [OF 1 2 3, of "1735689600000"]
  from T have wk: "(case createRecurringSessions (exampleDb []) 1735689600000 weeklyData
        weeklyRule of
       Some (Inr (ss, d')) \<Rightarrow> map (\<lambda>s. (scheduledStart s, scheduledEnd s)) ss
     | _ \<Rightarrow> []) =
      [(utc 2025 1 6 10 0, utc 2025 1 6 11 0), (utc 2025 1 13 10 0, utc 2025 1 13 11 0),
       (utc 2025 1 20 10 0, utc 2025 1 20 11 0)]"
    by (elim conjE)
  from T have mn: "(case createRecurringSessions (exampleDb []) 1735689600000 monthlyData
        monthlyRule of
       Some (Inr (ss, d')) \<Rightarrow> map (\<lambda>s. (scheduledStart s, scheduledEnd s)) ss
     | _ \<Rightarrow> []) =
      [(utc 2025 1 31 10 0, utc 2025 1 31 11 0), (utc 2025 2 28 10 0, utc 2025 2 28 11 0),
       (utc 2025 3 28 10 0, utc 2025 3 28 11 0), (utc 2025 4 28 10 0, utc 2025 4 28 11 0)]"
    by (elim conjE)
  from T have st: "\<forall>y m d r. 1 \<le> m \<and> m \<le> 12 \<and> 1 \<le> d \<and> d \<le> daysInMonth y m \<and>
         0 \<le> r \<and> r < 24 * 60 * 60 * 1000 \<longrightarrow>
         stepByFrequency (Some ''monthly'') (civil y m d r) =
           (if m = 12 then civil (y + 1) 1 d r
            else civil y (m + 1) (min d (daysInMonth y (m + 1))) r)"
    by (elim conjE)
  have a: "stepByFrequency (Some ''monthly'') 1706695200000 = 1709200800000"
    using st [rule_format, of 1 31 2024 36000000] by (simp add: cv)
  have b: "stepByFrequency (Some ''monthly'') 1765792800000 = 1768471200000"
    using st [rule_format, of 12 15 2025 36000000] by (simp add: cv)
  have s: "scheduledStart weeklyData = utc 2025 1 6 10 0"
    "scheduledEnd weeklyData = utc 2025 1 6 11 0"
    "scheduledStart monthlyData = utc 2025 1 31 10 0"
    "scheduledEnd monthlyData = utc 2025 1 31 11 0"
    by (simp_all add: weeklyData_def monthlyData_def bookingData_fields)
  have 4: "frequency weeklyRule = Some ''weekly''" "endDate weeklyRule = Some 1737936000000"
    "frequency monthlyRule = Some ''monthly''" "endDate monthlyRule = Some 1746057600000"
    by (simp_all add: weeklyRule_def monthlyRule_def w mo)
  show ?thesis
    unfolding s
    using 4 v wk mn a b unfolding w mo by (intro conjI refl)
qed

section \<open>Booking a series\<close>

text \<open>
  C10. Booking a recurring series reads the collection and the tutor's availability for
  the base window only. Once the base window has passed both checks, the answer is what
  the expander creates (with meeting links for online sessions): for a weekly, biweekly
  or monthly rule with an end date, the parent and every child whose start is before the
  end date, whatever the collection holds in the children's windows.
\<close>

theorem recurring_children_unchecked:
  assumes "0 < length (trim subject')" and "start < end'" and "now < start"
    and "users d tutorId = Some u" and "role u = RoleTutor \<or> role u = RoleBoth"
    and "checkSchedulingConflicts (sessions d) studentId tutorId start end' None = []"
    and "checkTutorAvailability d tutorId start end'"
    and "isRecurring rc"
  shows "book d now momentNow studentId tutorId subject' description' start end' ty loc price'
           (Some rc) =
         (case createRecurringSessions d momentNow
                 (bookingData studentId tutorId (trim subject') description' start end' ty loc
                    price') rc of
            None \<Rightarrow> None
          | Some (Inl e) \<Rightarrow> Some (Inl e)
          | Some (Inr (ss, d1)) \<Rightarrow> Some (Inr (assignMeetingLinks ty ss d1))) \<and>
         ((frequency rc = Some ''weekly'' \<or> frequency rc = Some ''biweekly'' \<or>
           frequency rc = Some ''monthly'') \<and>
          endDate rc = Some e \<and>
          validateSession (newSession (nextId d)
            (bookingData studentId tutorId (trim subject') description' start end' ty loc price')
            \<lparr>isRecurring = True, frequency = frequency rc, endDate = endDate rc,
             parentSession = None\<rparr>) \<longrightarrow>
          (\<exists>n. book d now momentNow studentId tutorId subject' description' start end' ty loc
                  price' (Some rc) =
                Some (Inr (assignMeetingLinks ty
                  (newSession (nextId d)
                     (bookingData studentId tutorId (trim subject') description' start end' ty
                        loc price')
                     \<lparr>isRecurring = True, frequency = frequency rc, endDate = endDate rc,
                      parentSession = None\<rparr> #
                   recurringChildren
                     (bookingData studentId tutorId (trim subject') description' start end' ty
                        loc price')
                     rc (end' - start) (nextId d) (Suc (nextId d)) start n)
                  (d\<lparr>sessions := sessions d @
                       newSession (nextId d)
                         (bookingData studentId tutorId (trim subject') description' start end'
                            ty loc price')
                         \<lparr>isRecurring = True, frequency = frequency rc, endDate = endDate rc,
                          parentSession = None\<rparr> #
                       recurringChildren
                         (bookingData studentId tutorId (trim subject') description' start end'
                            ty loc price')
                         rc (end' - start) (nextId d) (Suc (nextId d)) start n,
                     nextId := nextId d + Suc n\<rparr>))) \<and>
                (\<forall>k<n. (stepByFrequency (frequency rc) ^^ Suc k) start < e) \<and>
                \<not> (stepByFrequency (frequency rc) ^^ Suc n) start < e))"
proof (intro conjI impI)
  let ?sd = "bookingData studentId tutorId (trim subject') description' start end' ty loc price'"
  show eq: "book d now momentNow studentId tutorId subject' description' start end' ty loc price'
           (Some rc) =
         (case createRecurringSessions d momentNow ?sd rc of
            None \<Rightarrow> None
          | Some (Inl e) \<Rightarrow> Some (Inl e)
          | Some (Inr (ss, d1)) \<Rightarrow> Some (Inr (assignMeetingLinks ty ss d1)))"
    using assms(8) by (simp add: book_after_checks [OF assms(1-7)])
  assume h: "(frequency rc = Some ''weekly'' \<or> frequency rc = Some ''biweekly'' \<or>
           frequency rc = Some ''monthly'') \<and>
          endDate rc = Some e \<and>
          validateSession (newSession (nextId d) ?sd
            \<lparr>isRecurring = True, frequency = frequency rc, endDate = endDate rc,
             parentSession = None\<rparr>)"
  then have h1: "frequency rc = Some ''weekly'' \<or> frequency rc = Some ''biweekly'' \<or>
           frequency rc = Some ''monthly''"
    and h2: "endDate rc = Some e"
    and h3: "validateSession (newSession (nextId d) ?sd
            \<lparr>isRecurring = True, frequency = frequency rc, endDate = endDate rc,
             parentSession = None\<rparr>)"
    by blast+
  have st: "scheduledStart ?sd = start" "scheduledEnd ?sd = end'"
    by (simp_all add: bookingData_fields)
  from createRecurringSessions_result [OF h1 h2 h3, of momentNow]
  obtain n where
    r: "createRecurringSessions d momentNow ?sd rc =
      Some (Inr
        (newSession (nextId d) ?sd
           \<lparr>isRecurring = True, frequency = frequency rc, endDate = endDate rc,
            parentSession = None\<rparr> #
         recurringChildren ?sd rc (end' - start) (nextId d) (Suc (nextId d)) start n,
         d\<lparr>sessions := sessions d @
             newSession (nextId d) ?sd
               \<lparr>isRecurring = True, frequency = frequency rc, endDate = endDate rc,
                parentSession = None\<rparr> #
             recurringChildren ?sd rc (end' - start) (nextId d) (Suc (nextId d)) start n,
           nextId := nextId d + Suc n\<rparr>))"
    and a: "\<forall>k<n. (stepByFrequency (frequency rc) ^^ Suc k) start < e"
    and b: "if start < e then \<not> (stepByFrequency (frequency rc) ^^ Suc n) start < e else n = 0"
    unfolding st by blast
  have inc: "\<And>t. t < stepByFrequency (frequency rc) t"
    by (rule stepByFrequency_increases [OF h1])
  have stop: "\<not> (stepByFrequency (frequency rc) ^^ Suc n) start < e"
  proof (cases "start < e")
    case True
    with b show ?thesis by simp
  next
    case False
    with b have "n = 0" by simp
    moreover have "start < stepByFrequency (frequency rc) start" by (rule inc)
    ultimately show ?thesis using False by simp
  qed
  have "book d now momentNow studentId tutorId subject' description' start end' ty loc price'
           (Some rc) =
        Some (Inr (assignMeetingLinks ty
          (newSession (nextId d) ?sd
             \<lparr>isRecurring = True, frequency = frequency rc, endDate = endDate rc,
              parentSession = None\<rparr> #
           recurringChildren ?sd rc (end' - start) (nextId d) (Suc (nextId d)) start n)
          (d\<lparr>sessions := sessions d @
               newSession (nextId d) ?sd
                 \<lparr>isRecurring = True, frequency = frequency rc, endDate = endDate rc,
                  parentSession = None\<rparr> #
               recurringChildren ?sd rc (end' - start) (nextId d) (Suc (nextId d)) start n,
             nextId := nextId d + Suc n\<rparr>)))"
    unfolding eq r by simp
  with a stop show "\<exists>n. book d now momentNow studentId tutorId subject' description' start end' ty
                  loc price' (Some rc) =
                Some (Inr (assignMeetingLinks ty
                  (newSession (nextId d) ?sd
                     \<lparr>isRecurring = True, frequency = frequency rc, endDate = endDate rc,
                      parentSession = None\<rparr> #
                   recurringChildren ?sd rc (end' - start) (nextId d) (Suc (nextId d)) start n)
                  (d\<lparr>sessions := sessions d @
                       newSession (nextId d) ?sd
                         \<lparr>isRecurring = True, frequency = frequency rc, endDate = endDate rc,
                          parentSession = None\<rparr> #
                       recurringChildren ?sd rc (end' - start) (nextId d) (Suc (nextId d)) start n,
                     nextId := nextId d + Suc n\<rparr>))) \<and>
                (\<forall>k<n. (stepByFrequency (frequency rc) ^^ Suc k) start < e) \<and>
                \<not> (stepByFrequency (frequency rc) ^^ Suc n) start < e"
    by blast
qed


theorem recurring_children_unchecked_witness:
  "checkSchedulingConflicts
     (sessions (exampleDb [exampleSession 7 12 13 (utc 2025 1 13 10 0) (utc 2025 1 13 11 0)]))
     12 13 (utc 2025 1 6 10 0) (utc 2025 1 6 11 0) None = [] \<and>
   checkTutorAvailability
     (exampleDb [exampleSession 7 12 13 (utc 2025 1 13 10 0) (utc 2025 1 13 11 0)])
     13 (utc 2025 1 6 10 0) (utc 2025 1 6 11 0) \<and>
   book (exampleDb [exampleSession 7 12 13 (utc 2025 1 13 10 0) (utc 2025 1 13 11 0)])
     (utc 2025 1 1 0 0) (utc 2025 1 1 0 0) 12 13 ''Mathematics'' None
     (utc 2025 1 6 10 0) (utc 2025 1 6 11 0) Offline noLocation None (Some weeklyRule) =
   Some (Inr
     ([newSession 100 weeklyData weeklyRule,
       recurringChild weeklyData weeklyRule (60 * 60 * 1000) 100 101 (utc 2025 1 13 10 0),
       recurringChild weeklyData weeklyRule (60 * 60 * 1000) 100 102 (utc 2025 1 20 10 0)],
      insertDoc
        (recurringChild weeklyData weeklyRule (60 * 60 * 1000) 100 102 (utc 2025 1 20 10 0))
        (insertDoc
           (recurringChild weeklyData weeklyRule (60 * 60 * 1000) 100 101 (utc 2025 1 13 10 0))
           (insertDoc (newSession 100 weeklyData weeklyRule)
              (exampleDb [exampleSession 7 12 13 (utc 2025 1 13 10 0) (utc 2025 1 13 11 0)]))))) \<and>
   scheduledStart
     (recurringChild weeklyData weeklyRule (60 * 60 * 1000) 100 101 (utc 2025 1 13 10 0)) =
     utc 2025 1 13 10 0 \<and>
   scheduledEnd
     (recurringChild weeklyData weeklyRule (60 * 60 * 1000) 100 101 (utc 2025 1 13 10 0)) =
     utc 2025 1 13 11 0 \<and>
   checkSchedulingConflicts
     (sessions (exampleDb [exampleSession 7 12 13 (utc 2025 1 13 10 0) (utc 2025 1 13 11 0)]))
     12 13 (utc 2025 1 13 10 0) (utc 2025 1 13 11 0) None =
     [exampleSession 7 12 13 (utc 2025 1 13 10 0) (utc 2025 1 13 11 0)]"
proof -
  let ?b = "exampleSession 7 12 13 (utc 2025 1 13 10 0) (utc 2025 1 13 11 0)"
  let ?d = "exampleDb [?b]"
  have t: "trim ''Mathematics'' = ''Mathematics''" by code_simp
  have 1: "0 < length (trim ''Mathematics'')" by (simp add: t)
  have 2: "utc 2025 1 6 10 0 < utc 2025 1 6 11 0" by code_simp
  have 3: "utc 2025 1 1 0 0 < utc 2025 1 6 10 0" by code_simp
  have 4: "users ?d 13 = Some \<lparr>role = RoleTutor, availability = Some
        [\<lparr>day = ''monday'', startTime = ''09:00'', endTime = ''17:00'', timezone = ''UTC''\<rparr>]\<rparr>"
    by (simp add: exampleDb_fields exampleUsers_def)
  have 5: "role \<lparr>role = RoleTutor, availability = Some
        [\<lparr>day = ''monday'', startTime = ''09:00'', endTime = ''17:00'', timezone = ''UTC''\<rparr>]\<rparr>
        = RoleTutor \<or> role \<lparr>role = RoleTutor, availability = Some
        [\<lparr>day = ''monday'', startTime = ''09:00'', endTime = ''17:00'', timezone = ''UTC''\<rparr>]\<rparr>
        = RoleBoth" by simp
  have a: "\<not> utc 2025 1 13 10 0 < utc 2025 1 6 11 0" by code_simp
  have b: "utc 2025 1 13 10 0 < utc 2025 1 13 11 0" by code_simp
  have 6: "checkSchedulingConflicts (sessions ?d) 12 13 (utc 2025 1 6 10 0) (utc 2025 1 6 11 0)
      None = []"
    using a by (simp add: exampleDb_fields checkSchedulingConflicts_def conflictQuery_def
        exampleSession_fields)
  have 7: "checkTutorAvailability ?d 13 (utc 2025 1 6 10 0) (utc 2025 1 6 11 0)"
    by code_simp
  have 8: "isRecurring weeklyRule" by (simp add: weeklyRule_def)
  have c: "checkSchedulingConflicts (sessions ?d) 12 13 (utc 2025 1 13 10 0) (utc 2025 1 13 11 0)
      None = [?b]"
    using b by (simp add: exampleDb_fields checkSchedulingConflicts_def conflictQuery_def
        exampleSession_fields activeStatus_def)
  have e: "utc 2025 1 13 10 0 + 60 * 60 * 1000 = utc 2025 1 13 11 0" by code_simp
  have sd: "bookingData 12 13 (trim ''Mathematics'') None (utc 2025 1 6 10 0) (utc 2025 1 6 11 0)
      Offline noLocation None = weeklyData"
    by (simp add: t weeklyData_def)
  from recurring_children_unchecked [where momentNow = "utc 2025 1 1 0 0" and description' = None
        and ty = Offline and loc = noLocation and price' = None, OF 1 2 3 4 5 6 7 8,
      THEN conjunct1]
  have "book ?d (utc 2025 1 1 0 0) (utc 2025 1 1 0 0) 12 13 ''Mathematics'' None
     (utc 2025 1 6 10 0) (utc 2025 1 6 11 0) Offline noLocation None (Some weeklyRule) =
     (case createRecurringSessions ?d (utc 2025 1 1 0 0) weeklyData weeklyRule of
            None \<Rightarrow> None
          | Some (Inl e) \<Rightarrow> Some (Inl e)
          | Some (Inr (ss, d1)) \<Rightarrow> Some (Inr (assignMeetingLinks Offline ss d1)))"
    unfolding sd .
  then have "book ?d (utc 2025 1 1 0 0) (utc 2025 1 1 0 0) 12 13 ''Mathematics'' None
     (utc 2025 1 6 10 0) (utc 2025 1 6 11 0) Offline noLocation None (Some weeklyRule) =
   Some (Inr
     ([newSession 100 weeklyData weeklyRule,
       recurringChild weeklyData weeklyRule (60 * 60 * 1000) 100 101 (utc 2025 1 13 10 0),
       recurringChild weeklyData weeklyRule (60 * 60 * 1000) 100 102 (utc 2025 1 20 10 0)],
      insertDoc
        (recurringChild weeklyData weeklyRule (60 * 60 * 1000) 100 102 (utc 2025 1 20 10 0))
        (insertDoc
           (recurringChild weeklyData weeklyRule (60 * 60 * 1000) 100 101 (utc 2025 1 13 10 0))
           (insertDoc (newSession 100 weeklyData weeklyRule) ?d))))"
    unfolding weekly_run by (simp add: assignMeetingLinks_def exampleDb_fields)
  with 6 7 c e show ?thesis
    by (simp add: recurringChild_fields)
qed

section \<open>Ids, and sessions that are closed\<close>

lemma reachable_evolves: "evolves d d' \<Longrightarrow> reachable d \<Longrightarrow> reachable d'"
proof (induction rule: evolves.induct)
  case (same d0)
  then show ?case .
next
  case (usersChange d0 d us)
  then show ?case by (simp add: reachable.usersChange)
next
  case (booked d0 d now momentNow studentId tutorId subject' description' start' end' ty loc price' rcq ss d')
  from booked(3) [OF booked(4)] booked(2) show ?case by (rule reachable.booked)
next
  case (rescheduled d0 d now sessionId userId newStart newEnd reason' s d')
  from rescheduled(3) [OF rescheduled(4)] rescheduled(2) show ?case by (rule reachable.rescheduled)
next
  case (cancelled d0 d toFixed1 now cancelledAt' sessionId userId reason' s d')
  from cancelled(3) [OF cancelled(4)] cancelled(2) show ?case by (rule reachable.cancelled)
next
  case (started d0 d now startedAt sessionId userId s d')
  from started(3) [OF started(4)] started(2) show ?case by (rule reachable.started)
next
  case (ended d0 d now sessionId userId notes' r d')
  from ended(3) [OF ended(4)] ended(2) show ?case by (rule reachable.ended)
next
  case (swept d0 d dateNow queryNow clock ss d')
  from swept(3) [OF swept(4)] swept(2) show ?case by (rule reachable.swept)
qed

text \<open>Saving a document read from the collection keeps the ids and the counter.\<close>

lemma saveDoc_ids [simp]:
  "map oid (sessions (saveDoc s d)) = map oid (sessions d)"
  "nextId (saveDoc s d) = nextId d"
  by (simp_all add: saveDoc_def comp_def cong: map_cong)

lemma findById_saveDoc_other:
  "oid s \<noteq> i \<Longrightarrow> findById (saveDoc s d) i = findById d i"
proof -
  assume ne: "oid s \<noteq> i"
  have "find (\<lambda>x. oid x = i) (map (\<lambda>x. if oid x = oid s then s else x) xs) =
        find (\<lambda>x. oid x = i) xs" for xs
    using ne by (induction xs) auto
  then show ?thesis by (simp add: findById_def saveDoc_def)
qed

lemma freshIds_saveDoc: "freshIds d \<Longrightarrow> freshIds (saveDoc s d)"
  unfolding freshIds_def saveDoc_ids .

lemma findById_None_iff: "findById d i = None \<longleftrightarrow> i \<notin> oid ` set (sessions d)"
  by (auto simp: findById_def find_None_iff)

lemma find_append_docs:
  "find P (xs @ ys) = (case find P xs of None \<Rightarrow> find P ys | Some x \<Rightarrow> Some x)"
  by (induction xs) auto

lemma findById_ids_cong:
  assumes "sessions d' = sessions d @ news" and "\<forall>x \<in> set news. nextId d \<le> oid x"
    and "i < nextId d"
  shows "findById d' i = findById d i"
proof -
  have "find (\<lambda>x. oid x = i) news = None"
    using assms(2,3) by (auto simp: find_None_iff)
  then show ?thesis
    by (cases "find (\<lambda>x. oid x = i) (sessions d)") (simp_all add: findById_def assms(1) find_append_docs)
qed


lemma upt_first: "[n..<n + Suc k] = n # [Suc n..<Suc n + k]"
  by (simp add: upt_conv_Cons del: upt_Suc)

lemma recurringLoop_appends:
  assumes "recurringLoop sd rc e dur parentId cur acc d = Some y"
  shows "\<exists>news. fst y = acc @ news \<and> sessions (snd y) = sessions d @ news \<and>
           map oid news = [nextId d..<nextId d + length news] \<and>
           nextId (snd y) = nextId d + length news"
proof (rule recurringLoop.raw_induct
    [where P = "\<lambda>sd rc e dur parentId cur acc d y.
       \<exists>news. fst y = acc @ news \<and> sessions (snd y) = sessions d @ news \<and>
           map oid news = [nextId d..<nextId d + length news] \<and>
           nextId (snd y) = nextId d + length news",
     OF _ assms])
  fix loop :: "sessionData \<Rightarrow> recurring_doc \<Rightarrow> date \<Rightarrow> int \<Rightarrow> objectId \<Rightarrow> date \<Rightarrow> session list
    \<Rightarrow> db \<Rightarrow> (session list \<times> db) option"
  fix sd :: sessionData and rc :: recurring_doc and e :: date and dur :: int
    and parentId :: objectId and cur :: date and acc :: "session list" and d :: db
    and y :: "session list \<times> db"
  let ?next = "stepByFrequency (frequency rc) cur"
  let ?child = "recurringChild sd rc dur parentId (nextId d) ?next"
  assume IH: "\<And>sd rc e dur parentId cur acc d y.
     loop sd rc e dur parentId cur acc d = Some y \<Longrightarrow>
       \<exists>news. fst y = acc @ news \<and> sessions (snd y) = sessions d @ news \<and>
           map oid news = [nextId d..<nextId d + length news] \<and>
           nextId (snd y) = nextId d + length news"
  assume body: "(if cur < e then
        (if ?next < e then
           loop sd rc e dur parentId ?next (acc @ [?child]) (insertDoc ?child d)
         else loop sd rc e dur parentId ?next acc d)
      else Some (acc, d)) = Some y"
  show "\<exists>news. fst y = acc @ news \<and> sessions (snd y) = sessions d @ news \<and>
           map oid news = [nextId d..<nextId d + length news] \<and>
           nextId (snd y) = nextId d + length news"
  proof (cases "cur < e")
    case False
    with body have "y = (acc, d)" by simp
    then show ?thesis by simp
  next
    case True
    show ?thesis
    proof (cases "?next < e")
      case False
      with True body have "loop sd rc e dur parentId ?next acc d = Some y" by simp
      from IH [OF this] show ?thesis .
    next
      case step: True
      with True body
      have "loop sd rc e dur parentId ?next (acc @ [?child]) (insertDoc ?child d) = Some y"
        by simp
      from IH [OF this] obtain news where
        n: "fst y = (acc @ [?child]) @ news"
        "sessions (snd y) = sessions (insertDoc ?child d) @ news"
        "map oid news = [nextId (insertDoc ?child d)..<nextId (insertDoc ?child d) + length news]"
        "nextId (snd y) = nextId (insertDoc ?child d) + length news"
        by blast
      have "map oid (?child # news) = [nextId d..<nextId d + length (?child # news)]"
        using n(3) upt_first [of "nextId d" "length news"]
        by (simp add: insertDoc_def recurringChild_fields del: upt_Suc)
      moreover have "fst y = acc @ ?child # news" using n(1) by simp
      moreover have "sessions (snd y) = sessions d @ ?child # news"
        using n(2) by (simp add: insertDoc_def)
      moreover have "nextId (snd y) = nextId d + length (?child # news)"
        using n(4) by (simp add: insertDoc_def)
      ultimately show ?thesis by blast
    qed
  qed
qed

lemma createRecurringSessions_appends:
  assumes "createRecurringSessions d momentNow sd rc = Some (Inr (ss, d1))"
  shows "sessions d1 = sessions d @ ss \<and> map oid ss = [nextId d..<nextId d1] \<and>
         nextId d1 = nextId d + length ss"
proof -
  let ?parent = "newSession (nextId d) sd
      \<lparr>isRecurring = True, frequency = frequency rc, endDate = endDate rc, parentSession = None\<rparr>"
  let ?e = "case endDate rc of None \<Rightarrow> momentNow | Some e \<Rightarrow> e"
  from assms have
    "recurringLoop sd rc ?e (scheduledEnd sd - scheduledStart sd) (oid ?parent) (scheduledStart sd)
       [?parent] (insertDoc ?parent d) = Some (ss, d1)"
    by (auto simp: createRecurringSessions_def Let_def split: if_splits)
  from recurringLoop_appends [OF this] obtain news where
    n: "ss = [?parent] @ news" "sessions d1 = sessions (insertDoc ?parent d) @ news"
    "map oid news = [nextId (insertDoc ?parent d)..<nextId (insertDoc ?parent d) + length news]"
    "nextId d1 = nextId (insertDoc ?parent d) + length news"
    by auto
  then show ?thesis
    using upt_first [of "nextId d" "length news"]
    by (simp add: insertDoc_def newSession_fields del: upt_Suc)
qed

lemma createSingleSession_appends:
  assumes "createSingleSession d sd = Inr (ss, d1)"
  shows "sessions d1 = sessions d @ ss \<and> map oid ss = [nextId d..<nextId d1] \<and>
         nextId d1 = nextId d + length ss"
  using assms
  by (auto simp: createSingleSession_def insertDoc_def newSession_fields upt_conv_Cons
      simp del: upt_Suc split: if_splits)

lemma foldl_saveDoc_ids:
  "map oid (sessions (foldl (\<lambda>d' s. saveDoc (f s) d') d ss)) = map oid (sessions d) \<and>
   nextId (foldl (\<lambda>d' s. saveDoc (f s) d') d ss) = nextId d"
  by (induction ss arbitrary: d) simp_all

lemma foldl_saveDoc_other:
  "\<forall>s \<in> set ss. oid (f s) \<noteq> i \<Longrightarrow>
   findById (foldl (\<lambda>d' s. saveDoc (f s) d') d ss) i = findById d i"
  by (induction ss arbitrary: d) (simp_all add: findById_saveDoc_other)

lemma oid_withMeetingLink [simp]: "oid (withMeetingLink s) = oid s"
  by (simp add: withMeetingLink_def)

lemma book_ids:
  assumes "book d now momentNow studentId tutorId subject' description' start end' ty loc price' rcq
             = Some (Inr (ss, d'))"
  shows "map oid (sessions d') = map oid (sessions d) @ [nextId d..<nextId d'] \<and>
         nextId d \<le> nextId d' \<and> (\<forall>i<nextId d. findById d' i = findById d i)"
proof -
  let ?sd = "bookingData studentId tutorId (trim subject') description' start end' ty loc price'"
  let ?created = "case rcq of
              Some rc \<Rightarrow>
                if isRecurring rc then createRecurringSessions d momentNow ?sd rc
                else Some (createSingleSession d ?sd)
            | None \<Rightarrow> Some (createSingleSession d ?sd)"
  from assms obtain ss0 d1 where c: "?created = Some (Inr (ss0, d1))"
    and l: "assignMeetingLinks ty ss0 d1 = (ss, d')"
    by (auto simp: book_def Let_def split: if_splits option.splits sum.splits)
  from c have a: "sessions d1 = sessions d @ ss0 \<and> map oid ss0 = [nextId d..<nextId d1] \<and>
         nextId d1 = nextId d + length ss0"
    using createRecurringSessions_appends [of d momentNow ?sd _ ss0 d1]
      createSingleSession_appends [of d ?sd ss0 d1]
    by (auto split: option.splits if_splits)
  have ids: "map oid (sessions d') = map oid (sessions d1)" "nextId d' = nextId d1"
    using l foldl_saveDoc_ids [of withMeetingLink d1 ss0]
    by (auto simp: assignMeetingLinks_def split: if_splits)
  have keep: "findById d' i = findById d i" if "i < nextId d" for i
  proof -
    have fresh: "\<forall>x \<in> set ss0. nextId d \<le> oid x"
    proof
      fix x assume "x \<in> set ss0"
      then have "oid x \<in> set (map oid ss0)" by simp
      with a show "nextId d \<le> oid x" by simp
    qed
    then have "\<forall>s \<in> set ss0. oid (withMeetingLink s) \<noteq> i" using that by auto
    then have "findById d' i = findById d1 i"
      using l foldl_saveDoc_other [of ss0 withMeetingLink i d1]
      by (auto simp: assignMeetingLinks_def split: if_splits)
    also have "\<dots> = findById d i"
      using a fresh that by (intro findById_ids_cong [of d1 d ss0]) simp_all
    finally show ?thesis .
  qed
  show ?thesis using a ids keep by simp
qed

lemma freshIds_book:
  assumes "book d now momentNow studentId tutorId subject' description' start end' ty loc price' rcq
             = Some (Inr (ss, d'))"
    and "freshIds d"
  shows "freshIds d'"
proof -
  from book_ids [OF assms(1)]
  have m: "map oid (sessions d') = map oid (sessions d) @ [nextId d..<nextId d']"
    and le: "nextId d \<le> nextId d'" by simp_all
  from assms(2) have "distinct (map oid (sessions d))"
    and lt: "\<forall>i \<in> set (map oid (sessions d)). i < nextId d"
    by (simp_all add: freshIds_def)
  then show ?thesis
    unfolding freshIds_def m using le by (auto simp del: set_map)
qed


lemma reschedule_InrD:
  assumes "reschedule d now sessionId userId newStart newEnd reason' = Inr (s', d')"
  shows "\<exists>s. findById d sessionId = Some s \<and> (status s = Scheduled \<or> status s = Confirmed) \<and>
           oid s' = sessionId \<and> status s' = Scheduled \<and> d' = saveDoc s' d"
proof (cases "findById d sessionId")
  case None
  with assms show ?thesis by (simp add: reschedule_def split: if_splits)
next
  case (Some s)
  have "oid s = sessionId" using findById_SomeD [OF Some] by simp
  with assms Some show ?thesis
    by (auto simp: reschedule_def Let_def split: if_splits option.splits)
qed

lemma cancel_InrD:
  assumes "cancel toFixed1 d now cancelledAt' sessionId userId reason' = Inr (s', d')"
  shows "\<exists>s. findById d sessionId = Some s \<and> (status s = Scheduled \<or> status s = Confirmed) \<and>
           oid s' = sessionId \<and> status s' = Cancelled \<and> d' = saveDoc s' d"
proof (cases "findById d sessionId")
  case None
  with assms show ?thesis by (simp add: cancel_def split: if_splits)
next
  case (Some s)
  have "oid s = sessionId" using findById_SomeD [OF Some] by simp
  with assms Some show ?thesis
    by (auto simp: cancel_def Let_def split: if_splits option.splits)
qed

lemma startSession_InrD:
  assumes "startSession d now startedAt sessionId userId = Inr (s', d')"
  shows "\<exists>s. findById d sessionId = Some s \<and> (status s = Scheduled \<or> status s = Confirmed) \<and>
           oid s' = sessionId \<and> status s' = Ongoing \<and> actualStart s' = Some startedAt \<and>
           d' = saveDoc s' d"
proof (cases "findById d sessionId")
  case None
  with assms show ?thesis by (simp add: startSession_def split: if_splits)
next
  case (Some s)
  have "oid s = sessionId" using findById_SomeD [OF Some] by simp
  with assms Some show ?thesis
    by (auto simp: startSession_def Let_def split: if_splits)
qed

lemma remindLoop_nextId [simp]: "nextId (remindLoop clock k ss d) = nextId d"
  by (induction ss arbitrary: k d) simp_all

lemma remindLoop_other:
  "\<forall>x \<in> set ss. oid x \<noteq> i \<Longrightarrow> findById (remindLoop clock k ss d) i = findById d i"
  by (induction ss arbitrary: k d) (simp_all add: findById_saveDoc_other oid_markReminded)

lemma freshIds_unique:
  assumes "freshIds d" and "findById d i = Some s" and "x \<in> set (sessions d)" and "oid x = i"
  shows "x = s"
proof -
  from assms(1) have "inj_on oid (set (sessions d))"
    by (simp add: freshIds_def distinct_map)
  moreover from findById_SomeD [OF assms(2)] have "s \<in> set (sessions d)" "oid s = i" by simp_all
  ultimately show ?thesis using assms(3,4) by (auto dest: inj_onD)
qed

text \<open>One completed request or sweep keeps the ids fresh.\<close>

lemma evolves_freshIds: "evolves d0 d \<Longrightarrow> freshIds d0 \<Longrightarrow> freshIds d"
proof (induction rule: evolves.induct)
  case (same d0)
  then show ?case .
next
  case (usersChange d0 d us)
  then show ?case by (simp add: freshIds_def)
next
  case (booked d0 d now momentNow studentId tutorId subject' description' start' end' ty loc price' rcq ss d')
  from booked(2) booked(3) [OF booked(4)] show ?case by (rule freshIds_book)
next
  case (rescheduled d0 d now sessionId userId newStart newEnd reason' s d')
  from reschedule_InrD [OF rescheduled(2)] rescheduled(3) [OF rescheduled(4)]
  show ?case by (auto intro: freshIds_saveDoc)
next
  case (cancelled d0 d toFixed1 now cancelledAt' sessionId userId reason' s d')
  from cancel_InrD [OF cancelled(2)] cancelled(3) [OF cancelled(4)]
  show ?case by (auto intro: freshIds_saveDoc)
next
  case (started d0 d now startedAt sessionId userId s d')
  from startSession_InrD [OF started(2)] started(3) [OF started(4)]
  show ?case by (auto intro: freshIds_saveDoc)
next
  case (ended d0 d now sessionId userId notes' r d')
  from endSession_InrD [OF ended(2)] ended(3) [OF ended(4)]
  show ?case by (auto intro: freshIds_saveDoc)
next
  case (swept d0 d dateNow queryNow clock ss d')
  from swept(2) have "d' = remindLoop clock 0 (sessionsToRemind d dateNow queryNow) d"
    by (auto simp: reminderSweep_def)
  with swept(3) [OF swept(4)] show ?case
    by (simp add: freshIds_def remindLoop_ids)
qed

lemma reachable_freshIds: "reachable d \<Longrightarrow> freshIds d"
proof (induction rule: reachable.induct)
  case (initial d)
  then show ?case by (simp add: freshIds_def)
next
  case (usersChange d us)
  then show ?case by (simp add: freshIds_def)
next
  case (booked d now momentNow studentId tutorId subject' description' start' end' ty loc price' rcq ss d')
  from booked(2,3) show ?case by (rule freshIds_book)
next
  case (rescheduled d now sessionId userId newStart newEnd reason' s d')
  from reschedule_InrD [OF rescheduled(2)] rescheduled(3)
  show ?case by (auto intro: freshIds_saveDoc)
next
  case (cancelled d toFixed1 now cancelledAt' sessionId userId reason' s d')
  from cancel_InrD [OF cancelled(2)] cancelled(3)
  show ?case by (auto intro: freshIds_saveDoc)
next
  case (started d now startedAt sessionId userId s d')
  from startSession_InrD [OF started(2)] started(3)
  show ?case by (auto intro: freshIds_saveDoc)
next
  case (ended d now sessionId userId notes' r d')
  from endSession_InrD [OF ended(2)] ended(3)
  show ?case by (auto intro: freshIds_saveDoc)
next
  case (swept d dateNow queryNow clock ss d')
  from swept(2) have "d' = remindLoop clock 0 (sessionsToRemind d dateNow queryNow) d"
    by (auto simp: reminderSweep_def)
  with swept(3) show ?case
    by (simp add: freshIds_def remindLoop_ids)
qed

text \<open>
  A session that is completed, cancelled or no-show is found unchanged under its id after
  any sequence of completed requests and sweeps.
\<close>

lemma evolves_keeps_closed:
  assumes "evolves d0 d" and "freshIds d0" and "findById d0 i = Some s"
    and "\<not> activeStatus (status s)"
  shows "findById d i = Some s"
  using assms
proof (induction rule: evolves.induct)
  case (same d0)
  then show ?case by simp
next
  case (usersChange d0 d us)
  then show ?case by (simp add: findById_def)
next
  case (booked d0 d now momentNow studentId tutorId subject' description' start' end' ty loc price' rcq ss d')
  have f: "freshIds d" using booked(1,4) by (rule evolves_freshIds)
  have k: "findById d i = Some s" using booked(3-6) by simp
  from findById_SomeD [OF k] f have "i < nextId d" by (auto simp: freshIds_def)
  with book_ids [OF booked(2)] k show ?case by simp
next
  case (rescheduled d0 d now sessionId userId newStart newEnd reason' s' d')
  have k: "findById d i = Some s" using rescheduled(3-6) by simp
  from reschedule_InrD [OF rescheduled(2)] obtain x where
    x: "findById d sessionId = Some x" "status x = Scheduled \<or> status x = Confirmed"
    "oid s' = sessionId" "d' = saveDoc s' d" by blast
  have "sessionId \<noteq> i" using x(1,2) k rescheduled(6) by (auto simp: activeStatus_def)
  then show ?case using k x(3,4) by (simp add: findById_saveDoc_other)
next
  case (cancelled d0 d toFixed1 now cancelledAt' sessionId userId reason' s' d')
  have k: "findById d i = Some s" using cancelled(3-6) by simp
  from cancel_InrD [OF cancelled(2)] obtain x where
    x: "findById d sessionId = Some x" "status x = Scheduled \<or> status x = Confirmed"
    "oid s' = sessionId" "d' = saveDoc s' d" by blast
  have "sessionId \<noteq> i" using x(1,2) k cancelled(6) by (auto simp: activeStatus_def)
  then show ?case using k x(3,4) by (simp add: findById_saveDoc_other)
next
  case (started d0 d now startedAt sessionId userId s' d')
  have k: "findById d i = Some s" using started(3-6) by simp
  from startSession_InrD [OF started(2)] obtain x where
    x: "findById d sessionId = Some x" "status x = Scheduled \<or> status x = Confirmed"
    "oid s' = sessionId" "d' = saveDoc s' d" by blast
  have "sessionId \<noteq> i" using x(1,2) k started(6) by (auto simp: activeStatus_def)
  then show ?case using k x(3,4) by (simp add: findById_saveDoc_other)
next
  case (ended d0 d now sessionId userId notes' r d')
  have k: "findById d i = Some s" using ended(3-6) by simp
  from endSession_InrD [OF ended(2)] obtain x where
    x: "findById d sessionId = Some x" "status x = Ongoing"
    "oid (endedSession r) = sessionId" "d' = saveDoc (endedSession r) d" by blast
  have "sessionId \<noteq> i" using x(1,2) k ended(6) by (auto simp: activeStatus_def)
  then show ?case using k x(3,4) by (simp add: findById_saveDoc_other)
next
  case (swept d0 d dateNow queryNow clock ss d')
  have f: "freshIds d" using swept(1,4) by (rule evolves_freshIds)
  have k: "findById d i = Some s" using swept(3-6) by simp
  from swept(2) have d': "d' = remindLoop clock 0 (sessionsToRemind d dateNow queryNow) d"
    by (auto simp: reminderSweep_def)
  have "\<forall>x \<in> set (sessionsToRemind d dateNow queryNow). oid x \<noteq> i"
  proof (intro ballI notI)
    fix x assume x: "x \<in> set (sessionsToRemind d dateNow queryNow)" and "oid x = i"
    then have "x \<in> set (sessions d)" by (simp add: in_sessionsToRemind_iff)
    from freshIds_unique [OF f k this \<open>oid x = i\<close>] have "x = s" .
    with x swept(6) show False by (simp add: in_sessionsToRemind_iff activeStatus_def)
  qed
  then show ?case unfolding d' using k by (simp add: remindLoop_other)
qed


lemma start_docs_started:
  assumes "startSession d now startedAt sessionId userId = Inr (s, d')"
    and "x \<in> set (sessions d')"
  shows "x \<in> set (sessions d) \<or> (status x = Ongoing \<and> actualStart x \<noteq> None)"
  using startSession_InrD [OF assms(1)] assms(2) sessions_saveDoc [of x s d] by auto

lemma sweep_docs_started:
  assumes "reminderSweep d dateNow queryNow clock = (ss, d')"
    and "x \<in> set (sessions d')"
  shows "\<exists>x0 \<in> set (sessions d). status x = status x0 \<and> actualStart x = actualStart x0"
proof -
  from assms have "x \<in> set (sessions (remindLoop clock 0 (sessionsToRemind d dateNow queryNow) d))"
    by (auto simp: reminderSweep_def)
  from remindLoop_docs [OF this] show ?thesis
  proof
    assume "x \<in> set (sessions d) \<and> oid x \<notin> oid ` set (sessionsToRemind d dateNow queryNow)"
    then show ?thesis by blast
  next
    assume "\<exists>j<length (sessionsToRemind d dateNow queryNow).
        x = markReminded (clock (0 + j)) (sessionsToRemind d dateNow queryNow ! j)"
    then obtain j where j: "j < length (sessionsToRemind d dateNow queryNow)"
      "x = markReminded (clock (0 + j)) (sessionsToRemind d dateNow queryNow ! j)" by blast
    then have "sessionsToRemind d dateNow queryNow ! j \<in> set (sessions d)"
      using nth_mem [OF j(1)] by (simp add: in_sessionsToRemind_iff)
    with j(2) show ?thesis by (auto simp: markReminded_def)
  qed
qed

text \<open>
  In every reachable state no session is confirmed, and a session that is ongoing has its
  \<open>actualStart\<close>.
\<close>

lemma reachable_sessions:
  assumes "reachable d"
  shows "\<forall>s \<in> set (sessions d). status s \<noteq> Confirmed \<and> (status s = Ongoing \<longrightarrow> actualStart s \<noteq> None)"
  using assms
proof (induction rule: reachable.induct)
  case (initial d)
  then show ?case by simp
next
  case (usersChange d us)
  then show ?case by simp
next
  case (booked d now momentNow studentId tutorId subject' description' start' end' ty loc price' rcq ss d')
  from book_docs [OF booked(2)] booked(3) show ?case by fastforce
next
  case (rescheduled d now sessionId userId newStart newEnd reason' s d')
  from reschedule_docs [OF rescheduled(2)] rescheduled(3) show ?case by fastforce
next
  case (cancelled d toFixed1 now cancelledAt' sessionId userId reason' s d')
  from cancel_docs [OF cancelled(2)] cancelled(3) show ?case by fastforce
next
  case (started d now startedAt sessionId userId s d')
  show ?case
  proof
    fix x assume "x \<in> set (sessions d')"
    from start_docs_started [OF started(2) this] started(3)
    show "status x \<noteq> Confirmed \<and> (status x = Ongoing \<longrightarrow> actualStart x \<noteq> None)" by auto
  qed
next
  case (ended d now sessionId userId notes' r d')
  from end_docs [OF ended(2)] ended(3) show ?case by fastforce
next
  case (swept d dateNow queryNow clock ss d')
  show ?case
  proof
    fix x assume "x \<in> set (sessions d')"
    from sweep_docs_started [OF swept(2) this] swept(3)
    show "status x \<noteq> Confirmed \<and> (status x = Ongoing \<longrightarrow> actualStart x \<noteq> None)" by auto
  qed
qed

text \<open>
  C6. End answers an error unless the session is ongoing. When it succeeds in a reachable
  state, the session was ongoing, its status is now completed, \<open>actualEnd\<close> is the clock
  read, and the reported duration is \<open>actualEnd - actualStart\<close>. From then on, after any
  sequence of completed requests and sweeps, the session is found under its id exactly as
  End saved it, and Reschedule, Cancel, Start and End on it answer an error, whatever
  their other arguments.
\<close>

theorem end_completes_for_good:
  assumes "reachable d" and "findById d sessionId = Some s"
  shows "(status s \<noteq> Ongoing \<longrightarrow> isl (endSession d now sessionId userId notes')) \<and>
         (\<forall>r d'. endSession d now sessionId userId notes' = Inr (r, d') \<longrightarrow>
            status s = Ongoing \<and>
            status (endedSession r) = Completed \<and>
            actualEnd (endedSession r) = Some now \<and>
            (\<exists>a. actualStart (endedSession r) = Some a \<and> duration r = Some (now - a)) \<and>
            (\<forall>d''. evolves d' d'' \<longrightarrow>
               findById d'' sessionId = Some (endedSession r) \<and>
               (\<forall>now' userId' newStart newEnd reason'.
                  isl (reschedule d'' now' sessionId userId' newStart newEnd reason')) \<and>
               (\<forall>toFixed1 now' cancelledAt' userId' reason'.
                  isl (cancel toFixed1 d'' now' cancelledAt' sessionId userId' reason')) \<and>
               (\<forall>now' startedAt userId'.
                  isl (startSession d'' now' startedAt sessionId userId')) \<and>
               (\<forall>now' userId' notes''. isl (endSession d'' now' sessionId userId' notes''))))"
proof (intro conjI allI impI)
  assume "status s \<noteq> Ongoing"
  then show "isl (endSession d now sessionId userId notes')"
    using assms(2) by (rule end_needs_ongoing [rotated])
next
  fix r d'
  assume e: "endSession d now sessionId userId notes' = Inr (r, d')"
  from endSession_InrD [OF e] assms(2)
  have p: "status s = Ongoing" "status (endedSession r) = Completed"
    "actualEnd (endedSession r) = Some now" "actualStart (endedSession r) = actualStart s"
    "oid (endedSession r) = sessionId" "duration r = map_option (\<lambda>a. now - a) (actualStart s)"
    "d' = saveDoc (endedSession r) d"
    by auto
  have f: "findById d' sessionId = Some (endedSession r)"
    unfolding p(7) using assms(2) p(5) by (rule findById_saveDoc)
  have "s \<in> set (sessions d)" using findById_SomeD [OF assms(2)] by simp
  with reachable_sessions [OF assms(1)] p(1) obtain a where a: "actualStart s = Some a"
    by fastforce
  have fresh: "freshIds d'"
    unfolding p(7) using reachable_freshIds [OF assms(1)] by (rule freshIds_saveDoc)
  have closed: "\<not> activeStatus (status (endedSession r))"
    by (simp add: p(2) activeStatus_def)
  show "status s = Ongoing" by (rule p(1))
  show "status (endedSession r) = Completed" by (rule p(2))
  show "actualEnd (endedSession r) = Some now" by (rule p(3))
  show "\<exists>a. actualStart (endedSession r) = Some a \<and> duration r = Some (now - a)"
    using a p(4,6) by simp
  fix d''
  assume ev: "evolves d' d''"
  from evolves_keeps_closed [OF ev fresh f closed]
  show g: "findById d'' sessionId = Some (endedSession r)" .
  show "isl (reschedule d'' now' sessionId userId' newStart newEnd reason')"
    for now' userId' newStart newEnd reason'
    by (rule reschedule_needs_open_status [OF g]) (simp_all add: p(2))
  show "isl (cancel toFixed1 d'' now' cancelledAt' sessionId userId' reason')"
    for toFixed1 now' cancelledAt' userId' reason'
    by (rule cancel_needs_open_status [OF g]) (simp_all add: p(2))
  show "isl (startSession d'' now' startedAt sessionId userId')" for now' startedAt userId'
    by (rule start_needs_open_status [OF g]) (simp_all add: p(2))
  show "isl (endSession d'' now' sessionId userId' notes'')" for now' userId' notes''
    by (rule end_needs_ongoing [OF g]) (simp_all add: p(2))
qed


lemma startSession_success:
  assumes "findById d sessionId = Some s" and "isParticipant s userId"
    and "status s = Scheduled \<or> status s = Confirmed"
    and "scheduledStart s - now \<le> 15 * 60 * 1000"
  shows "startSession d now startedAt sessionId userId =
     Inr (s\<lparr>status := Ongoing, actualStart := Some startedAt\<rparr>,
          saveDoc (s\<lparr>status := Ongoing, actualStart := Some startedAt\<rparr>) d)"
  using assms by (auto simp: startSession_def minutes_until_gt_15 Let_def)

lemma bookedSession_fields:
  "student bookedSession = 12" "tutor bookedSession = 13" "oid bookedSession = 100"
  "status bookedSession = Scheduled" "scheduledStart bookedSession = utc 2030 1 7 10 0"
  "actualStart bookedSession = None"
  by (simp_all add: bookedSession_def exampleSession_def newSession_def bookingData_def)

lemma trace_findById:
  "findById bookedDb 100 = Some bookedSession"
  "findById startedDb 100 = Some startedSession"
  "findById endedDb 100 = Some completedSession"
proof -
  show b: "findById bookedDb 100 = Some bookedSession"
    by (simp add: findById_def bookedDb_def insertDoc_def exampleDb_fields bookedSession_fields)
  have "oid startedSession = 100" by (simp add: startedSession_def bookedSession_fields)
  with b show s: "findById startedDb 100 = Some startedSession"
    unfolding startedDb_def by (rule findById_saveDoc)
  have "oid completedSession = 100"
    by (simp add: completedSession_def startedSession_def bookedSession_fields)
  with s show "findById endedDb 100 = Some completedSession"
    unfolding endedDb_def by (rule findById_saveDoc)
qed

lemma trace_reachable: "reachable startedDb"
proof -
  have "reachable (exampleDb [])"
    by (rule reachable.initial) (simp add: exampleDb_fields)
  then have r: "reachable bookedDb"
    using example_booking unfolding bookedDb_def bookedSession_def by (rule reachable.booked)
  have p: "isParticipant bookedSession 13" by (simp add: isParticipant_def bookedSession_fields)
  have st: "status bookedSession = Scheduled \<or> status bookedSession = Confirmed"
    by (simp add: bookedSession_fields)
  have t: "utc 2030 1 7 10 0 - utc 2030 1 7 9 50 \<le> 15 * 60 * 1000" by code_simp
  then have t': "scheduledStart bookedSession - utc 2030 1 7 9 50 \<le> 15 * 60 * 1000"
    by (simp only: bookedSession_fields)
  have "startSession bookedDb (utc 2030 1 7 9 50) (utc 2030 1 7 9 50) 100 13 =
      Inr (startedSession, startedDb)"
    using startSession_success [OF trace_findById(1) p st t', of "utc 2030 1 7 9 50"]
    by (simp add: startedSession_def startedDb_def)
  with r show ?thesis by (rule reachable.started)
qed

theorem end_completes_for_good_witness:
  "reachable startedDb \<and>
   findById startedDb 100 = Some startedSession \<and>
   status startedSession = Ongoing \<and>
   endSession startedDb (utc 2030 1 7 11 5) 100 13 None =
     Inr (\<lparr>endedSession = completedSession, duration = Some (75 * 60 * 1000)\<rparr>, endedDb) \<and>
   evolves endedDb endedDb \<and>
   findById endedDb 100 = Some completedSession \<and>
   isl (reschedule endedDb (utc 2030 1 7 11 6) 100 13 (utc 2030 1 8 10 0) (utc 2030 1 8 11 0) None) \<and>
   isl (cancel (\<lambda>h. ''0.0'') endedDb (utc 2030 1 7 11 6) (utc 2030 1 7 11 6) 100 13 ''late'') \<and>
   isl (startSession endedDb (utc 2030 1 7 11 6) (utc 2030 1 7 11 6) 100 13) \<and>
   isl (endSession endedDb (utc 2030 1 7 11 6) 100 13 None) \<and>
   isl (endSession bookedDb (utc 2030 1 7 11 5) 100 13 None)"
proof -
  have f: "student startedSession = 12" "tutor startedSession = 13" "oid startedSession = 100"
    "status startedSession = Ongoing" "actualStart startedSession = Some (utc 2030 1 7 9 50)"
    by (simp_all add: startedSession_def bookedSession_fields)
  have dur: "utc 2030 1 7 11 5 - utc 2030 1 7 9 50 = 75 * 60 * 1000" by code_simp
  have u: "users startedDb = exampleUsers"
    by (simp add: startedDb_def bookedDb_def users_saveDoc users_insertDoc exampleDb_fields)
  have a: "populatedAccess startedDb startedSession 13 = None"
    by (simp add: populatedAccess_present u f exampleUsers_present isParticipant_def)
  have ev: "endSession startedDb (utc 2030 1 7 11 5) 100 13 None =
      Inr (\<lparr>endedSession = completedSession, duration = Some (75 * 60 * 1000)\<rparr>, endedDb)"
    using dur
    by (simp add: endSession_def trace_findById a f Let_def completedSession_def endedDb_def)
  have r0: "reachable (exampleDb [])"
    by (rule reachable.initial) (simp add: exampleDb_fields)
  have r1: "reachable bookedDb"
    using r0 example_booking unfolding bookedDb_def bookedSession_def by (rule reachable.booked)
  note T = end_completes_for_good [OF trace_reachable trace_findById(2),
      of "utc 2030 1 7 11 5" 13 None]
  note U = end_completes_for_good [OF r1 trace_findById(1), of "utc 2030 1 7 11 5" 13 None]
  from T ev evolves.same [of endedDb]
  have later: "findById endedDb 100 = Some completedSession \<and>
      isl (reschedule endedDb (utc 2030 1 7 11 6) 100 13 (utc 2030 1 8 10 0) (utc 2030 1 8 11 0) None) \<and>
      isl (cancel (\<lambda>h. ''0.0'') endedDb (utc 2030 1 7 11 6) (utc 2030 1 7 11 6) 100 13 ''late'') \<and>
      isl (startSession endedDb (utc 2030 1 7 11 6) (utc 2030 1 7 11 6) 100 13) \<and>
      isl (endSession endedDb (utc 2030 1 7 11 6) 100 13 None)"
    by (simp add: trace_findById)
  from U have "isl (endSession bookedDb (utc 2030 1 7 11 5) 100 13 None)"
    by (simp add: bookedSession_fields)
  with later ev trace_reachable trace_findById(2) f(4) evolves.same [of endedDb]
  show ?thesis by simp
qed

end
